(* ===== verification/Prelude.thy ===== *)
theory Prelude
  imports Main "HOL-Library.Word"
begin

text \<open>
  Shared vocabulary of the development: the fixed-width integers of the C and Go sources, byte
  strings, little-endian encodings, reads and writes at byte offsets of a memory block, and
  the lemma collections that the component theories extend.

  Both shipped targets are little-endian (\<^verbatim>\<open>-target amd64,arm64\<close> in
  \<^verbatim>\<open>src/src/internal/bpf/gen.go\<close>, files \<^verbatim>\<open>*_bpfel.go\<close>), so native
  byte order is little-endian throughout.
\<close>

unbundle bit_operations_syntax

type_synonym u8 = "8 word"
type_synonym u16 = "16 word"
type_synonym u32 = "32 word"
type_synonym u64 = "64 word"
type_synonym bytes = "8 word list"

named_theorems mem_simps "reads and writes at byte offsets"
named_theorems enc_simps "byte encodings of integers"
named_theorems word_bounds "bounds of masked and shifted words"
named_theorems layout_eval "struct declarations, for the evaluation of layouts"
named_theorems c_consts "constants of the C headers"

subsection \<open>Little-endian encodings\<close>

primrec to_le :: "nat \<Rightarrow> nat \<Rightarrow> bytes" where
  "to_le 0 x = []"
| "to_le (Suc n) x = word_of_nat x # to_le n (x div 256)"

primrec from_le :: "bytes \<Rightarrow> nat" where
  "from_le [] = 0"
| "from_le (b # bs) = unat b + 256 * from_le bs"

definition from_be :: "bytes \<Rightarrow> nat" where
  "from_be bs = from_le (rev bs)"

definition to_be :: "nat \<Rightarrow> nat \<Rightarrow> bytes" where
  "to_be n x = rev (to_le n x)"

lemma length_to_le [simp]: "length (to_le n x) = n"
  by (induction n arbitrary: x) simp_all

lemma length_to_be [simp]: "length (to_be n x) = n"
  by (simp add: to_be_def)

lemma to_le_eq_Nil [simp]: "to_le n x = [] \<longleftrightarrow> n = 0"
  by (metis length_0_conv length_to_le)

lemma from_le_less: "from_le bs < 256 ^ length bs"
proof (induction bs)
  case (Cons b bs)
  have "unat b < 256" using unsigned_less [where w = b] by simp
  with Cons show ?case by simp
qed simp

lemma from_le_to_le [enc_simps]: "from_le (to_le n x) = x mod 256 ^ n"
proof (induction n arbitrary: x)
  case (Suc n)
  have "x mod 256 ^ Suc n = 256 * (x div 256 mod 256 ^ n) + x mod 256"
    by (simp add: mod_mult2_eq)
  with Suc show ?case by (simp add: unat_of_nat)
qed simp

lemma to_le_from_le [enc_simps]: "to_le (length bs) (from_le bs) = bs"
proof (induction bs)
  case (Cons b bs)
  have b: "unat b < 256" using unsigned_less [where w = b] by simp
  then have "(unat b + 256 * from_le bs) div 256 = from_le bs" by simp
  moreover have "(word_of_nat (unat b + 256 * from_le bs) :: u8) = b"
  proof -
    have "(256 :: u8) = 0" by simp
    then have "(word_of_nat (256 * from_le bs) :: u8) = 0"
      by (simp only: of_nat_mult of_nat_numeral mult_zero_left)
    then show ?thesis by simp
  qed
  ultimately show ?case using Cons by simp
qed simp

lemma from_le_inj: "length bs = length cs \<Longrightarrow> from_le bs = from_le cs \<Longrightarrow> bs = cs"
  by (metis to_le_from_le)

lemma from_be_to_be [enc_simps]: "from_be (to_be n x) = x mod 256 ^ n"
  by (simp add: from_be_def to_be_def from_le_to_le)

lemma bit_word_of_nat_iff:
  "bit (word_of_nat n :: 'a::len word) k \<longleftrightarrow> k < LENGTH('a) \<and> bit n k"
  by transfer (simp add: bit_take_bit_iff bit_of_nat_iff_bit)

subsection \<open>Reads and writes at byte offsets\<close>

definition read_at :: "nat \<Rightarrow> nat \<Rightarrow> bytes \<Rightarrow> bytes" where
  "read_at off n m = take n (drop off m)"

definition write_at :: "nat \<Rightarrow> bytes \<Rightarrow> bytes \<Rightarrow> bytes" where
  "write_at off bs m = take off m @ bs @ drop (off + length bs) m"

lemma length_read_at [mem_simps]: "off + n \<le> length m \<Longrightarrow> length (read_at off n m) = n"
  by (simp add: read_at_def)

lemma length_write_at [mem_simps]:
  "off + length bs \<le> length m \<Longrightarrow> length (write_at off bs m) = length m"
  by (simp add: write_at_def)

lemma read_write_same [mem_simps]:
  "off + length bs \<le> length m \<Longrightarrow> n = length bs \<Longrightarrow> read_at off n (write_at off bs m) = bs"
  by (simp add: read_at_def write_at_def)

lemma read_write_before [mem_simps]:
  "o1 + n \<le> o2 \<Longrightarrow> o2 + length bs \<le> length m \<Longrightarrow>
   read_at o1 n (write_at o2 bs m) = read_at o1 n m"
  by (simp add: read_at_def write_at_def take_drop min_def)

lemma read_write_after [mem_simps]:
  "o2 + length bs \<le> o1 \<Longrightarrow> o2 + length bs \<le> length m \<Longrightarrow>
   read_at o1 n (write_at o2 bs m) = read_at o1 n m"
  by (simp add: read_at_def write_at_def drop_append add.commute)

lemma read_at_prefix [mem_simps]:
  "n \<le> length bs \<Longrightarrow> off + length bs \<le> length m \<Longrightarrow>
   read_at off n (write_at off bs m) = take n bs"
  by (simp add: read_at_def write_at_def)

text \<open>
  \<open>wrote off v m m'\<close>: \<open>m'\<close> is \<open>m\<close> with \<open>v\<close> at \<open>off\<close>, as facts about reads. A chain of writes is
  reasoned about through these facts, without unfolding the chain.
\<close>

definition wrote :: "nat \<Rightarrow> bytes \<Rightarrow> bytes \<Rightarrow> bytes \<Rightarrow> bool" where
  "wrote off v m m' \<longleftrightarrow> length m' = length m \<and> read_at off (length v) m' = v \<and>
     (\<forall>o1 n. o1 + n \<le> off \<or> off + length v \<le> o1 \<longrightarrow> read_at o1 n m' = read_at o1 n m)"

lemma wrote_write_at: "off + length v \<le> length m \<Longrightarrow> wrote off v m (write_at off v m)"
  by (auto simp: wrote_def mem_simps)

lemma wroteD:
  assumes "wrote off v m m'"
  shows "length m' = length m" "length v = n \<Longrightarrow> read_at off n m' = v"
    "o1 + n \<le> off \<Longrightarrow> read_at o1 n m' = read_at o1 n m"
    "off + length v \<le> o1 \<Longrightarrow> read_at o1 n m' = read_at o1 n m"
  using assms by (auto simp: wrote_def)

subsection \<open>Go strings and byte slices\<close>

definition bytes_of :: "string \<Rightarrow> bytes" where
  "bytes_of s = map of_char s"

definition string_of :: "bytes \<Rightarrow> string" where
  "string_of bs = map (\<lambda>b. char_of (unat b)) bs"

lemma length_bytes_of [simp]: "length (bytes_of s) = length s"
  by (simp add: bytes_of_def)

lemma length_string_of [simp]: "length (string_of bs) = length bs"
  by (simp add: string_of_def)

lemma unat_of_char: "unat (of_char c :: u8) = of_char c"
proof -
  have "(of_char c :: u8) = word_of_nat (of_char c)"
    by (simp add: of_nat_of_char)
  moreover have "of_char c < (256 :: nat)" 
    using mod_less_divisor [of 256 "of_char c :: nat"] by simp
  ultimately show ?thesis by (simp add: unat_of_nat)
qed

lemma string_of_bytes_of [enc_simps]: "string_of (bytes_of s) = s"
  by (simp add: string_of_def bytes_of_def comp_def unat_of_char)

subsection \<open>Masks, nibbles and widths\<close>

lemma unat_and_mask: "unat (x AND mask n :: 'a::len word) = unat x mod 2 ^ n"
  unfolding take_bit_eq_mask [symmetric] unsigned_take_bit_eq by (simp add: take_bit_eq_mod)

lemma unat_and_15 [word_bounds]: "unat (x AND 15 :: u8) = unat x mod 16"
  using unat_and_mask [of x 4] by (simp add: mask_eq_exp_minus_1)

lemma unat_and_1023 [word_bounds]: "unat (x AND 1023 :: u32) = unat x mod 1024"
  using unat_and_mask [of x 10] by (simp add: mask_eq_exp_minus_1)

lemma unat_low_nibble [word_bounds]: "unat ((ucast (b AND 15 :: u8) :: u16) * 4) = 4 * (unat b mod 16)"
proof -
  have "unat b mod 16 < 16" by simp
  then show ?thesis by (simp add: unat_word_ariths unsigned_ucast_eq unat_and_15 take_bit_eq_mod)
qed

lemma unat_high_nibble [word_bounds]: "unat ((ucast (drop_bit 4 b :: u8) :: u16) * 4) = 4 * (unat b div 16)"
proof -
  have "unat b < 256" using unsigned_less [where w = b] by simp
  then have "unat b div 16 < 16" by simp
  then show ?thesis by (simp add: unat_word_ariths unsigned_ucast_eq unat_drop_bit_eq drop_bit_eq_div take_bit_eq_mod)
qed
lemma high_nibble_le: "unat (b :: u8) div 16 \<le> 15"
proof -
  have "unat b < 256" using unsigned_less [where w = b] by simp
  then show ?thesis by simp
qed

lemma unat_ucast8 [simp]: "unat (ucast (x :: u8) :: u32) = unat x"
proof -
  have "unat x < 256" using unsigned_less [where w = x] by simp
  then show ?thesis by (simp add: unsigned_ucast_eq take_bit_eq_mod)
qed

lemma unat_ucast16 [simp]: "unat (ucast (x :: u16) :: u32) = unat x"
proof -
  have "unat x < 65536" using unsigned_less [where w = x] by simp
  then show ?thesis by (simp add: unsigned_ucast_eq take_bit_eq_mod)
qed

lemma unat_ucast32 [simp]: "unat (ucast (x :: u32) :: u64) = unat x"
proof -
  have "unat x < 4294967296" using unsigned_less [where w = x] by simp
  then show ?thesis by (simp add: unsigned_ucast_eq take_bit_eq_mod)
qed

lemma and_128_eq_0: "(b :: u8) AND 128 = 0 \<longleftrightarrow> unat b < 128"
proof -
  have b: "unat b < 256" using unsigned_less [where w = b] by simp
  have "b AND 128 = 0 \<longleftrightarrow> \<not> bit b 7"
    using and_exp_eq_0_iff_not_bit [of b 7] by simp
  also have "bit b 7 \<longleftrightarrow> bit (unat b) 7" by (simp add: bit_unsigned_iff)
  also have "\<dots> \<longleftrightarrow> odd (unat b div 128)" by (simp add: bit_iff_odd)
  also have "\<dots> \<longleftrightarrow> \<not> unat b < 128"
  proof (cases "unat b < 128")
    case False
    then have "unat b div 128 = 1" using b by (simp add: div_nat_eqI)
    with False show ?thesis by simp
  qed simp
  finally show ?thesis by simp
qed

subsection \<open>Short reads\<close>

lemma read_at_1: "i < length p \<Longrightarrow> read_at i (Suc 0) p = [p ! i]"
  by (simp add: read_at_def take_Suc_conv_app_nth hd_drop_conv_nth take_Suc)

lemma from_be_2: "from_be [hi, lo] = 256 * unat hi + unat lo"
  by (simp add: from_be_def)

lemma read_at_2: "i + 1 < length p \<Longrightarrow> read_at i 2 p = [p ! i, p ! (i + 1)]"
  by (simp add: read_at_def numeral_2_eq_2 take_Suc hd_drop_conv_nth tl_drop drop_Suc nth_tl)

end
