(* ===== verification/Endian.thy ===== *)
theory Endian
  imports Prelude
begin

text \<open>
  Byte order: the macros of \<^verbatim>\<open>src/bpf/include/bpf/bpf_endian.h\<close> (bit shuffling on words),
  the part of Go's \<^verbatim>\<open>encoding/binary\<close> that the agent calls (byte slices), and
  \<^verbatim>\<open>ntohs\<close> of \<^verbatim>\<open>src/src/internal/bpf/utils.go\<close>. The lemmas relate both to the
  reversal of the byte representation, so that the kernel side and the user side agree.
\<close>

subsection \<open>Words as byte sequences\<close>

definition le_bytes :: "'a::len word \<Rightarrow> bytes" where
  "le_bytes w = to_le (LENGTH('a) div 8) (unat w)"

definition le_word :: "bytes \<Rightarrow> 'a::len word" where
  "le_word bs = word_of_nat (from_le bs)"

definition be_word :: "bytes \<Rightarrow> 'a::len word" where
  "be_word bs = word_of_nat (from_be bs)"

lemma length_le_bytes [simp]: "length (le_bytes (w :: 'a::len word)) = LENGTH('a) div 8"
  by (simp add: le_bytes_def)

text \<open>Unfolded encodings, for evaluation by the simplifier.\<close>

lemma to_le_2: "to_le 2 x = [word_of_nat x, word_of_nat (x div 256)]"
  by (simp add: numeral_2_eq_2)

lemma to_le_4:
  "to_le 4 x = [word_of_nat x, word_of_nat (x div 256), word_of_nat (x div 65536),
     word_of_nat (x div 16777216)]"
proof -
  have "(4 :: nat) = Suc (Suc (Suc (Suc 0)))" by simp
  then show ?thesis by (simp only: to_le.simps) (simp add: div_mult2_eq [symmetric])
qed

lemma le_word_le_bytes16 [enc_simps]: "le_word (le_bytes (w :: u16)) = w"
  using unsigned_less [where w = w and 'a = nat]
  by (simp add: le_word_def le_bytes_def from_le_to_le)

lemma le_word_le_bytes32 [enc_simps]: "le_word (le_bytes (w :: u32)) = w"
  using unsigned_less [where w = w and 'a = nat]
  by (simp add: le_word_def le_bytes_def from_le_to_le)

lemma le_word_le_bytes64 [enc_simps]: "le_word (le_bytes (w :: u64)) = w"
  using unsigned_less [where w = w and 'a = nat]
  by (simp add: le_word_def le_bytes_def from_le_to_le)

lemma nth_to_le: "j < n \<Longrightarrow> to_le n x ! j = word_of_nat (x div 256 ^ j)"
proof (induction n arbitrary: x j)
  case (Suc n)
  then show ?case by (cases j) (simp_all add: div_mult2_eq)
qed simp

lemma bit_nth_to_le:
  assumes "j < n" "k < 8"
  shows "bit (to_le n x ! j) k \<longleftrightarrow> bit x (8 * j + k)"
proof -
  have "(256::nat) ^ j = 2 ^ (8 * j)"
    by (simp add: power_mult)
  then have "x div 256 ^ j = drop_bit (8 * j) x"
    by (simp add: drop_bit_eq_div)
  with assms show ?thesis
    by (simp add: nth_to_le bit_word_of_nat_iff bit_drop_bit_eq)
qed

lemma le_bytes_le_word [enc_simps]:
  assumes "LENGTH('a::len) = 8 * length bs"
  shows "le_bytes (le_word bs :: 'a word) = bs"
proof -
  have "from_le bs < 2 ^ LENGTH('a)"
    using from_le_less [of bs] assms by (simp add: power_mult)
  then have "unat (le_word bs :: 'a word) = from_le bs"
    by (simp add: le_word_def unat_of_nat)
  then show ?thesis using assms by (simp add: le_bytes_def to_le_from_le)
qed

subsection \<open>bpf\_endian.h\<close>

definition bpf_mvb :: "'a::len word \<Rightarrow> nat \<Rightarrow> nat \<Rightarrow> nat \<Rightarrow> 'a word" where
  "bpf_mvb x b n m = push_bit (m * 8) (drop_bit (b - 8) (push_bit (b - (n + 1) * 8) x))"

text \<open>
  The operands of \<^verbatim>\<open>___bpf_mvb(x, 16, n, m)\<close> are promoted to the 32-bit \<^verbatim>\<open>int\<close>
  before they are shifted; the outer cast of \<^verbatim>\<open>___bpf_swab16\<close> truncates to 16 bits.
\<close>

definition bpf_swab16 :: "u16 \<Rightarrow> u16" where
  "bpf_swab16 x = ucast (bpf_mvb (ucast x :: u32) 16 0 1 OR bpf_mvb (ucast x :: u32) 16 1 0)"

definition bpf_swab32 :: "u32 \<Rightarrow> u32" where
  "bpf_swab32 x = bpf_mvb x 32 0 3 OR bpf_mvb x 32 1 2 OR bpf_mvb x 32 2 1 OR bpf_mvb x 32 3 0"

definition bpf_swab64 :: "u64 \<Rightarrow> u64" where
  "bpf_swab64 x = bpf_mvb x 64 0 7 OR bpf_mvb x 64 1 6 OR bpf_mvb x 64 2 5 OR bpf_mvb x 64 3 4 OR
     bpf_mvb x 64 4 3 OR bpf_mvb x 64 5 2 OR bpf_mvb x 64 6 1 OR bpf_mvb x 64 7 0"

text \<open>\<^verbatim>\<open>__builtin_bswapN\<close> of the compiler: the value with its bytes in reverse order.\<close>

definition builtin_bswap :: "'a::len word \<Rightarrow> 'a word" where
  "builtin_bswap x = be_word (le_bytes x)"

datatype byte_order = ORDER_LITTLE_ENDIAN | ORDER_BIG_ENDIAN

text \<open>
  The \<^verbatim>\<open>#if\<close> on \<^verbatim>\<open>__BYTE_ORDER__\<close> and the choice on \<^verbatim>\<open>__builtin_constant_p\<close>
  are arguments: \<open>bo\<close> and \<open>cp\<close>.
\<close>

definition bpf_htons :: "byte_order \<Rightarrow> bool \<Rightarrow> u16 \<Rightarrow> u16" where
  "bpf_htons bo cp x = (case bo of
     ORDER_LITTLE_ENDIAN \<Rightarrow> if cp then bpf_swab16 x else builtin_bswap x
   | ORDER_BIG_ENDIAN \<Rightarrow> x)"

definition bpf_ntohs :: "byte_order \<Rightarrow> bool \<Rightarrow> u16 \<Rightarrow> u16" where
  "bpf_ntohs bo cp x = (case bo of
     ORDER_LITTLE_ENDIAN \<Rightarrow> if cp then bpf_swab16 x else builtin_bswap x
   | ORDER_BIG_ENDIAN \<Rightarrow> x)"

definition bpf_htonl :: "byte_order \<Rightarrow> bool \<Rightarrow> u32 \<Rightarrow> u32" where
  "bpf_htonl bo cp x = (case bo of
     ORDER_LITTLE_ENDIAN \<Rightarrow> if cp then bpf_swab32 x else builtin_bswap x
   | ORDER_BIG_ENDIAN \<Rightarrow> x)"

definition bpf_ntohl :: "byte_order \<Rightarrow> bool \<Rightarrow> u32 \<Rightarrow> u32" where
  "bpf_ntohl bo cp x = (case bo of
     ORDER_LITTLE_ENDIAN \<Rightarrow> if cp then bpf_swab32 x else builtin_bswap x
   | ORDER_BIG_ENDIAN \<Rightarrow> x)"

definition bpf_cpu_to_be64 :: "byte_order \<Rightarrow> bool \<Rightarrow> u64 \<Rightarrow> u64" where
  "bpf_cpu_to_be64 bo cp x = (case bo of
     ORDER_LITTLE_ENDIAN \<Rightarrow> if cp then bpf_swab64 x else builtin_bswap x
   | ORDER_BIG_ENDIAN \<Rightarrow> x)"

definition bpf_be64_to_cpu :: "byte_order \<Rightarrow> bool \<Rightarrow> u64 \<Rightarrow> u64" where
  "bpf_be64_to_cpu bo cp x = (case bo of
     ORDER_LITTLE_ENDIAN \<Rightarrow> if cp then bpf_swab64 x else builtin_bswap x
   | ORDER_BIG_ENDIAN \<Rightarrow> x)"

subsection \<open>Go: encoding/binary and ntohs\<close>

text \<open>
  \<^verbatim>\<open>Uint16\<close> and its kin index the slice and so panic when it is too short: \<open>None\<close>.
\<close>

definition NativeEndian_Uint32 :: "bytes \<Rightarrow> u32 option" where
  "NativeEndian_Uint32 b = (if 4 \<le> length b then Some (le_word (take 4 b)) else None)"

definition NativeEndian_Uint64 :: "bytes \<Rightarrow> u64 option" where
  "NativeEndian_Uint64 b = (if 8 \<le> length b then Some (le_word (take 8 b)) else None)"

definition BigEndian_Uint16 :: "bytes \<Rightarrow> u16 option" where
  "BigEndian_Uint16 b = (if 2 \<le> length b then Some (be_word (take 2 b)) else None)"

definition NativeEndian_PutUint16 :: "u16 \<Rightarrow> bytes" where
  "NativeEndian_PutUint16 n = le_bytes n"

definition NativeEndian_PutUint32 :: "u32 \<Rightarrow> bytes" where
  "NativeEndian_PutUint32 n = le_bytes n"

definition ntohs :: "u16 \<Rightarrow> u16" where
  "ntohs n = the (BigEndian_Uint16 (NativeEndian_PutUint16 n))"

subsection \<open>Lemmas\<close>

lemma bit_bpf_mvb:
  fixes x :: "'a::len word"
  assumes "b = LENGTH('a)" "(n + 1) * 8 \<le> b"
  shows "bit (bpf_mvb x b n m) i \<longleftrightarrow>
    m * 8 \<le> i \<and> i < m * 8 + 8 \<and> i < LENGTH('a) \<and> bit x (i - m * 8 + n * 8)"
proof -
  have s: "LENGTH('a) - 8 + (i - m * 8) - (LENGTH('a) - (n + 1) * 8) = i - m * 8 + n * 8"
    using assms by simp
  show ?thesis
    unfolding bpf_mvb_def
    using assms by (auto simp add: bit_push_bit_iff bit_drop_bit_eq s)
qed

lemma bit_from_le:
  "bit (from_le bs) i \<longleftrightarrow> i < 8 * length bs \<and> bit (bs ! (i div 8)) (i mod 8)"
proof -
  have eq: "from_le bs mod 256 ^ length bs = from_le bs"
    using from_le_less [of bs] by simp
  have pw: "(256::nat) ^ length bs = 2 ^ (8 * length bs)"
    by (simp add: power_mult)
  have "bit (from_le bs) i \<longleftrightarrow> i < 8 * length bs \<and> bit (from_le bs) i"
    using eq unfolding pw by (metis bit_take_bit_iff take_bit_eq_mod)
  also have "\<dots> \<longleftrightarrow> i < 8 * length bs \<and> bit (bs ! (i div 8)) (i mod 8)"
  proof (cases "i < 8 * length bs")
    case True
    then have "i div 8 < length bs" by simp
    then have "bit (to_le (length bs) (from_le bs) ! (i div 8)) (i mod 8) \<longleftrightarrow>
        bit (from_le bs) (8 * (i div 8) + i mod 8)"
      by (rule bit_nth_to_le) simp
    then show ?thesis by (simp add: to_le_from_le)
  qed simp
  finally show ?thesis .
qed

lemma bit_builtin_bswap:
  fixes x :: "'a::len word"
  assumes "LENGTH('a) = 8 * n" "i < LENGTH('a)"
  shows "bit (builtin_bswap x) i \<longleftrightarrow> bit x (8 * (n - 1 - i div 8) + i mod 8)"
proof -
  have len: "LENGTH('a) div 8 = n" using assms by simp
  have id: "i div 8 < n" using assms by simp
  then have j: "n - Suc (i div 8) < n" by simp
  have "bit (builtin_bswap x) i \<longleftrightarrow> bit (to_le n (unat x) ! (n - Suc (i div 8))) (i mod 8)"
    using assms id
    by (simp add: builtin_bswap_def be_word_def from_be_def le_bytes_def len bit_word_of_nat_iff
        bit_from_le rev_nth)
  also have "\<dots> \<longleftrightarrow> bit (unat x) (8 * (n - Suc (i div 8)) + i mod 8)"
    by (rule bit_nth_to_le [OF j]) simp
  also have "\<dots> \<longleftrightarrow> bit x (8 * (n - 1 - i div 8) + i mod 8)"
    by (simp add: bit_unsigned_iff)
  finally show ?thesis .
qed

lemma bpf_swab16_eq: "bpf_swab16 x = builtin_bswap x"
proof (rule bit_word_eqI)
  fix i assume "i < LENGTH(16)"
  then have i: "i < 16" by simp
  then consider "i div 8 = 0" "i mod 8 = i" "i < 8" | "i div 8 = 1" "i mod 8 = i - 8" "8 \<le> i"
    by (cases "i < 8") (auto simp: le_div_geq le_mod_geq)
  then show "bit (bpf_swab16 x) i \<longleftrightarrow> bit (builtin_bswap x) i"
    using i
    by cases (auto simp: bit_builtin_bswap [of 2] bpf_swab16_def bpf_mvb_def bit_or_iff
        bit_unsigned_iff bit_push_bit_iff bit_drop_bit_eq algebra_simps dest: bit_imp_le_length)
qed

lemma div8_cases:
  fixes i :: nat
  assumes "i < 8 * n"
  obtains q r where "i = 8 * q + r" "q < n" "r < 8" "i div 8 = q" "i mod 8 = r"
  by (rule that [of "i div 8" "i mod 8"]) (use assms in auto)

lemma bpf_swab32_eq: "bpf_swab32 x = builtin_bswap x"
proof (rule bit_word_eqI)
  fix i assume "i < LENGTH(32)"
  then have i: "i < 8 * 4" by simp
  then obtain q r where q: "i = 8 * q + r" "q < 4" "r < 8" "i div 8 = q" "i mod 8 = r"
    by (rule div8_cases)
  from q(2) consider "q = 0" | "q = 1" | "q = 2" | "q = 3" by linarith
  then show "bit (bpf_swab32 x) i \<longleftrightarrow> bit (builtin_bswap x) i"
    using q
    by cases (simp_all add: bit_builtin_bswap [of 4] bpf_swab32_def bit_or_iff bit_bpf_mvb add.commute)
qed

lemma bpf_swab64_eq: "bpf_swab64 x = builtin_bswap x"
proof (rule bit_word_eqI)
  fix i assume "i < LENGTH(64)"
  then have i: "i < 8 * 8" by simp
  then obtain q r where q: "i = 8 * q + r" "q < 8" "r < 8" "i div 8 = q" "i mod 8 = r"
    by (rule div8_cases)
  from q(2) consider "q = 0" | "q = 1" | "q = 2" | "q = 3" | "q = 4" | "q = 5" | "q = 6" | "q = 7"
    by linarith
  then show "bit (bpf_swab64 x) i \<longleftrightarrow> bit (builtin_bswap x) i"
    using q
    by cases (simp_all add: bit_builtin_bswap [of 8] bpf_swab64_def bit_or_iff bit_bpf_mvb add.commute)
qed

lemmas bpf_swab_eqs = bpf_swab16_eq bpf_swab32_eq bpf_swab64_eq

lemmas bpf_byteorder_defs = bpf_htons_def bpf_ntohs_def bpf_htonl_def bpf_ntohl_def
  bpf_cpu_to_be64_def bpf_be64_to_cpu_def

lemma le_bytes_builtin_bswap:
  "LENGTH('a) = 8 * n \<Longrightarrow> le_bytes (builtin_bswap (x :: 'a::len word)) = rev (le_bytes x)"
  using le_bytes_le_word [where 'a = 'a, of "rev (le_bytes x)"]
  by (simp add: builtin_bswap_def be_word_def from_be_def le_word_def)

lemma ntohs_eq_bswap: "ntohs n = builtin_bswap n"
  by (simp add: ntohs_def BigEndian_Uint16_def NativeEndian_PutUint16_def builtin_bswap_def)

lemma ntohs_ntohs [simp]: "ntohs (ntohs n) = n"
proof -
  have "le_bytes (ntohs (ntohs n)) = le_bytes n"
    by (simp add: ntohs_eq_bswap le_bytes_builtin_bswap [where n = 2])
  then show ?thesis by (metis le_word_le_bytes16)
qed

lemma bpf_ntohs_loaded:
  "bpf_ntohs ORDER_LITTLE_ENDIAN cp (le_word bs) = 53 \<longleftrightarrow> from_be bs = 53" if "length bs = 2"
proof -
  have "le_bytes (le_word bs :: u16) = bs" using that by (simp add: le_bytes_le_word)
  then have "bpf_ntohs ORDER_LITTLE_ENDIAN cp (le_word bs) = be_word bs"
    by (simp add: bpf_ntohs_def bpf_swab16_eq builtin_bswap_def)
  moreover have "from_be bs < 65536"
    using from_le_less [of "rev bs"] that by (simp add: from_be_def)
  ultimately show ?thesis
    by (simp add: be_word_def word_unat_eq_iff unat_of_nat)
qed

text \<open>
  C32. The byte-order macros of \<^verbatim>\<open>bpf_endian.h\<close> do not depend on the
  \<^verbatim>\<open>__builtin_constant_p\<close> choice (the shift-and-mask expansion equals the compiler builtin at
  all three widths), on a little-endian target they reverse the bytes of their argument in
  memory, and the agent's Go \<^verbatim>\<open>ntohs\<close> computes the same function as the kernel-side
  \<^verbatim>\<open>bpf_ntohs\<close>.
\<close>

theorem bpf_endian_correct:
  "bpf_ntohs bo True s = bpf_ntohs bo False s \<and> bpf_htons bo cp s = bpf_ntohs bo cp' s \<and>
   bpf_ntohl bo True l = bpf_ntohl bo False l \<and> bpf_htonl bo cp l = bpf_ntohl bo cp' l \<and>
   bpf_be64_to_cpu bo True q = bpf_be64_to_cpu bo False q \<and>
   bpf_cpu_to_be64 bo cp q = bpf_be64_to_cpu bo cp' q \<and>
   le_bytes (bpf_ntohs ORDER_LITTLE_ENDIAN cp s) = rev (le_bytes s) \<and>
   le_bytes (bpf_ntohl ORDER_LITTLE_ENDIAN cp l) = rev (le_bytes l) \<and>
   le_bytes (bpf_be64_to_cpu ORDER_LITTLE_ENDIAN cp q) = rev (le_bytes q) \<and>
   ntohs s = bpf_ntohs ORDER_LITTLE_ENDIAN cp s"
  by (cases bo) (simp_all add: bpf_byteorder_defs bpf_swab_eqs ntohs_eq_bswap
      le_bytes_builtin_bswap [where n = 2] le_bytes_builtin_bswap [where n = 4]
      le_bytes_builtin_bswap [where n = 8])

end
