(* ===== verification/C_Layout.thy ===== *)
theory C_Layout
  imports Prelude
begin

text \<open>
  Data layout. First the constants of \<^verbatim>\<open>src/bpf/defs.h\<close> and \<^verbatim>\<open>src/bpf/dns/defs.h\<close>;
  then a small model of C structs, unions and bit-fields under the ABI of the BPF target (natural
  alignment, 64-bit pointers, bit-fields allocated from the least significant bit) with the
  structs of \<^verbatim>\<open>defs.h\<close>, \<^verbatim>\<open>dns/defs.h\<close> and the packet and context structs of
  \<^verbatim>\<open>src/bpf/vmlinux.h\<close> that \<^verbatim>\<open>ai_interceptor.c\<close> relies on; then the Go layout of the
  generated bindings in \<^verbatim>\<open>src/src/internal/bpf/generated\<close>. The theorems say that the
  offsets written as numbers in the C source are the offsets of those structs, and that the
  Go bindings see every field where the C code puts it.
\<close>

subsection \<open>Constants\<close>

definition TC_ACT_OK :: int where [c_consts]: "TC_ACT_OK = 0"
definition ETH_HDR_LEN :: nat where [c_consts]: "ETH_HDR_LEN = 14"
definition IP_HDR_MINLEN :: nat where [c_consts]: "IP_HDR_MINLEN = 20"
definition UDP_HDR_LEN :: nat where [c_consts]: "UDP_HDR_LEN = 8"
definition TCP_HDR_MINLEN :: nat where [c_consts]: "TCP_HDR_MINLEN = 20"
definition DNS_TCP_LEN_PREFIX :: nat where [c_consts]: "DNS_TCP_LEN_PREFIX = 2"
definition MAX_HOSTNAME_LEN :: nat where [c_consts]: "MAX_HOSTNAME_LEN = 64"
definition MAX_COMMAND_SIZE :: nat where [c_consts]: "MAX_COMMAND_SIZE = 16"
definition MAX_COMMANDLINE_SIZE :: nat where [c_consts]: "MAX_COMMANDLINE_SIZE = 127"
definition MAX_DNS_MSG_SIZE :: nat where [c_consts]: "MAX_DNS_MSG_SIZE = 512"
definition AI_DEST_MAP_MAX_ENTRIES :: nat where [c_consts]: "AI_DEST_MAP_MAX_ENTRIES = 65536"
definition DNS_EVENTS_RING_SIZE :: nat where [c_consts]: "DNS_EVENTS_RING_SIZE = 2 ^ 23"
definition REDIRECT_EVENTS_RING_SIZE :: nat where [c_consts]: "REDIRECT_EVENTS_RING_SIZE = 2 ^ 22"
definition DNS_HDR_MIN_LEN :: nat where [c_consts]: "DNS_HDR_MIN_LEN = 12"

subsection \<open>C types and their layout\<close>

datatype ctype =
    CInt nat                      \<comment> \<open>integer of so many bytes\<close>
  | CPtr
  | CArr ctype nat
  | CStruct "cfield list"
  | CUnion "cfield list"
and cfield =
    Fld string ctype              \<comment> \<open>an anonymous member has the empty name\<close>
  | Bits string nat nat           \<comment> \<open>bit-field: bytes of the declared type, width\<close>

definition align_up :: "nat \<Rightarrow> nat \<Rightarrow> nat" where
  "align_up x a = (if a = 0 then x else (x + a - 1) div a * a)"

fun alignof :: "ctype \<Rightarrow> nat" and alignofs :: "cfield list \<Rightarrow> nat" where
  "alignof (CInt n) = n"
| "alignof CPtr = 8"
| "alignof (CArr t n) = alignof t"
| "alignof (CStruct fs) = alignofs fs"
| "alignof (CUnion fs) = alignofs fs"
| "alignofs [] = 1"
| "alignofs (Fld x t # fs) = max (alignof t) (alignofs fs)"
| "alignofs (Bits x b w # fs) = max b (alignofs fs)"

text \<open>Positions inside a struct are counted in bits.\<close>

definition bits_pos :: "nat \<Rightarrow> nat \<Rightarrow> nat \<Rightarrow> nat" where
  "bits_pos pos b w = (if pos mod (8 * b) + w \<le> 8 * b then pos else align_up pos (8 * b))"

fun sizeof :: "ctype \<Rightarrow> nat" and struct_end :: "cfield list \<Rightarrow> nat \<Rightarrow> nat"
  and union_size :: "cfield list \<Rightarrow> nat" where
  "sizeof (CInt n) = n"
| "sizeof CPtr = 8"
| "sizeof (CArr t n) = n * sizeof t"
| "sizeof (CStruct fs) = align_up (align_up (struct_end fs 0) 8 div 8) (alignofs fs)"
| "sizeof (CUnion fs) = align_up (union_size fs) (alignofs fs)"
| "struct_end [] pos = pos"
| "struct_end (Fld x t # fs) pos = struct_end fs (align_up pos (8 * alignof t) + 8 * sizeof t)"
| "struct_end (Bits x b w # fs) pos = struct_end fs (bits_pos pos b w + w)"
| "union_size [] = 0"
| "union_size (Fld x t # fs) = max (sizeof t) (union_size fs)"
| "union_size (Bits x b w # fs) = max b (union_size fs)"

text \<open>
  \<open>locate t f pos\<close> is the position and the width in bits of member \<open>f\<close> of a \<open>t\<close> placed at bit
  \<open>pos\<close>; members of anonymous structs and unions are found as in C.
\<close>

fun locate :: "ctype \<Rightarrow> string \<Rightarrow> nat \<Rightarrow> (nat \<times> nat) option"
  and locate_struct :: "cfield list \<Rightarrow> string \<Rightarrow> nat \<Rightarrow> (nat \<times> nat) option"
  and locate_union :: "cfield list \<Rightarrow> string \<Rightarrow> nat \<Rightarrow> (nat \<times> nat) option" where
  "locate (CInt n) f pos = None"
| "locate CPtr f pos = None"
| "locate (CArr t n) f pos = None"
| "locate (CStruct fs) f pos = locate_struct fs f pos"
| "locate (CUnion fs) f pos = locate_union fs f pos"
| "locate_struct [] f pos = None"
| "locate_struct (Fld x t # fs) f pos =
     (let p = align_up pos (8 * alignof t) in
      if x = f then Some (p, 8 * sizeof t)
      else case (if x = '''' then locate t f p else None) of
        Some r \<Rightarrow> Some r
      | None \<Rightarrow> locate_struct fs f (p + 8 * sizeof t))"
| "locate_struct (Bits x b w # fs) f pos =
     (let p = bits_pos pos b w in if x = f then Some (p, w) else locate_struct fs f (p + w))"
| "locate_union [] f pos = None"
| "locate_union (Fld x t # fs) f pos =
     (if x = f then Some (pos, 8 * sizeof t)
      else case (if x = '''' then locate t f pos else None) of
        Some r \<Rightarrow> Some r
      | None \<Rightarrow> locate_union fs f pos)"
| "locate_union (Bits x b w # fs) f pos =
     (if x = f then Some (pos, w) else locate_union fs f pos)"

definition offsetof :: "ctype \<Rightarrow> string \<Rightarrow> nat" where
  "offsetof t f = (case locate t f 0 of Some (p, w) \<Rightarrow> p div 8 | None \<Rightarrow> 0)"

subsection \<open>The structs of defs.h and dns/defs.h\<close>

definition ai_dest_info_t :: ctype where [layout_eval]:
  "ai_dest_info_t = CStruct
     [Fld ''hostname'' (CArr (CInt 1) MAX_HOSTNAME_LEN),
      Fld ''timestamp_ns'' (CInt 8),
      Fld ''ttl_s'' (CInt 4),
      Fld ''_pad'' (CArr (CInt 1) 4)]"

definition proxy_config_t :: ctype where [layout_eval]:
  "proxy_config_t = CStruct
     [Fld ''ip'' (CInt 4),
      Fld ''port'' (CInt 2),
      Fld ''_pad'' (CArr (CInt 1) 2)]"

definition redirect_event_t :: ctype where [layout_eval]:
  "redirect_event_t = CStruct
     [Fld ''pid'' (CInt 4),
      Fld ''tgid'' (CInt 4),
      Fld ''original_ip'' (CInt 4),
      Fld ''original_port'' (CInt 2),
      Fld ''proxy_ip'' (CInt 4),
      Fld ''proxy_port'' (CInt 2),
      Fld ''_pad'' (CArr (CInt 1) 2),
      Fld ''hostname'' (CArr (CInt 1) MAX_HOSTNAME_LEN),
      Fld ''command'' (CArr (CInt 1) MAX_COMMAND_SIZE),
      Fld ''commandline_len'' (CInt 4),
      Fld ''commandline'' (CArr (CInt 1) MAX_COMMANDLINE_SIZE),
      Fld ''timestamp_ns'' (CInt 8)]"

definition dns_event_t :: ctype where [layout_eval]:
  "dns_event_t = CStruct
     [Fld ''msg_size'' (CInt 8),
      Fld ''msg'' (CArr (CInt 1) MAX_DNS_MSG_SIZE)]"

definition dns_header :: ctype where [layout_eval]:
  "dns_header = CStruct
     [Fld ''id'' (CInt 2),
      Fld ''flags'' (CInt 2),
      Fld ''qdcount'' (CInt 2),
      Fld ''ancount'' (CInt 2),
      Fld ''nscount'' (CInt 2),
      Fld ''arcount'' (CInt 2)]"

subsection \<open>Packet headers and program contexts of vmlinux.h\<close>

definition ethhdr :: ctype where [layout_eval]:
  "ethhdr = CStruct
     [Fld ''h_dest'' (CArr (CInt 1) 6),
      Fld ''h_source'' (CArr (CInt 1) 6),
      Fld ''h_proto'' (CInt 2)]"

definition iphdr :: ctype where [layout_eval]:
  "iphdr = CStruct
     [Bits ''ihl'' 1 4,
      Bits ''version'' 1 4,
      Fld ''tos'' (CInt 1),
      Fld ''tot_len'' (CInt 2),
      Fld ''id'' (CInt 2),
      Fld ''frag_off'' (CInt 2),
      Fld ''ttl'' (CInt 1),
      Fld ''protocol'' (CInt 1),
      Fld ''check'' (CInt 2),
      Fld '''' (CUnion
        [Fld '''' (CStruct [Fld ''saddr'' (CInt 4), Fld ''daddr'' (CInt 4)]),
         Fld ''addrs'' (CStruct [Fld ''saddr'' (CInt 4), Fld ''daddr'' (CInt 4)])])]"

definition tcphdr :: ctype where [layout_eval]:
  "tcphdr = CStruct
     [Fld ''source'' (CInt 2),
      Fld ''dest'' (CInt 2),
      Fld ''seq'' (CInt 4),
      Fld ''ack_seq'' (CInt 4),
      Bits ''res1'' 2 4,
      Bits ''doff'' 2 4,
      Bits ''fin'' 2 1,
      Bits ''syn'' 2 1,
      Bits ''rst'' 2 1,
      Bits ''psh'' 2 1,
      Bits ''ack'' 2 1,
      Bits ''urg'' 2 1,
      Bits ''ece'' 2 1,
      Bits ''cwr'' 2 1,
      Fld ''window'' (CInt 2),
      Fld ''check'' (CInt 2),
      Fld ''urg_ptr'' (CInt 2)]"

definition udphdr :: ctype where [layout_eval]:
  "udphdr = CStruct
     [Fld ''source'' (CInt 2),
      Fld ''dest'' (CInt 2),
      Fld ''len'' (CInt 2),
      Fld ''check'' (CInt 2)]"

definition sk_buff_ctx :: ctype where [layout_eval]:
  "sk_buff_ctx = CStruct
     [Fld ''len'' (CInt 4),
      Fld ''pkt_type'' (CInt 4),
      Fld ''mark'' (CInt 4),
      Fld ''queue_mapping'' (CInt 4),
      Fld ''protocol'' (CInt 4),
      Fld ''vlan_present'' (CInt 4),
      Fld ''vlan_tci'' (CInt 4),
      Fld ''vlan_proto'' (CInt 4),
      Fld ''priority'' (CInt 4),
      Fld ''ingress_ifindex'' (CInt 4),
      Fld ''ifindex'' (CInt 4),
      Fld ''tc_index'' (CInt 4),
      Fld ''cb'' (CArr (CInt 4) 5),
      Fld ''hash'' (CInt 4),
      Fld ''tc_classid'' (CInt 4),
      Fld ''data'' (CInt 4),
      Fld ''data_end'' (CInt 4),
      Fld ''napi_id'' (CInt 4),
      Fld ''family'' (CInt 4),
      Fld ''remote_ip4'' (CInt 4),
      Fld ''local_ip4'' (CInt 4),
      Fld ''remote_ip6'' (CArr (CInt 4) 4),
      Fld ''local_ip6'' (CArr (CInt 4) 4),
      Fld ''remote_port'' (CInt 4),
      Fld ''local_port'' (CInt 4),
      Fld ''data_meta'' (CInt 4),
      Fld '''' (CUnion [Fld ''flow_keys'' CPtr]),
      Fld ''tstamp'' (CInt 8),
      Fld ''wire_len'' (CInt 4),
      Fld ''gso_segs'' (CInt 4),
      Fld '''' (CUnion [Fld ''sk'' CPtr]),
      Fld ''gso_size'' (CInt 4)]"

definition bpf_sock_addr :: ctype where [layout_eval]:
  "bpf_sock_addr = CStruct
     [Fld ''user_family'' (CInt 4),
      Fld ''user_ip4'' (CInt 4),
      Fld ''user_ip6'' (CArr (CInt 4) 4),
      Fld ''user_port'' (CInt 4),
      Fld ''family'' (CInt 4),
      Fld ''type'' (CInt 4),
      Fld ''protocol'' (CInt 4),
      Fld ''msg_src_ip4'' (CInt 4),
      Fld ''msg_src_ip6'' (CArr (CInt 4) 4),
      Fld '''' (CUnion [Fld ''sk'' CPtr])]"

subsection \<open>The generated Go bindings\<close>

datatype gotype =
    GInt nat                      \<comment> \<open>(u)intN of so many bytes\<close>
  | GArr gotype nat
  | GHostLayout                   \<comment> \<open>structs.HostLayout, of size zero\<close>

fun go_align :: "gotype \<Rightarrow> nat" where
  "go_align (GInt n) = n"
| "go_align (GArr t n) = go_align t"
| "go_align GHostLayout = 1"

fun go_size :: "gotype \<Rightarrow> nat" where
  "go_size (GInt n) = n"
| "go_size (GArr t n) = n * go_size t"
| "go_size GHostLayout = 0"

type_synonym gostruct = "(string \<times> gotype) list"

fun go_locate :: "gostruct \<Rightarrow> string \<Rightarrow> nat \<Rightarrow> (nat \<times> nat) option" where
  "go_locate [] f pos = None"
| "go_locate ((x, t) # fs) f pos =
     (let p = align_up pos (go_align t) in
      if x = f then Some (p, go_size t) else go_locate fs f (p + go_size t))"

fun go_end :: "gostruct \<Rightarrow> nat \<Rightarrow> nat" where
  "go_end [] pos = pos"
| "go_end ((x, t) # fs) pos = go_end fs (align_up pos (go_align t) + go_size t)"

definition go_sizeof :: "gostruct \<Rightarrow> nat" where
  "go_sizeof fs = align_up (go_end fs 0) (fold (\<lambda>f. max (go_align (snd f))) fs 1)"

definition AIInterceptorAiDestInfoT :: gostruct where [layout_eval]:
  "AIInterceptorAiDestInfoT =
     [(''_'', GHostLayout),
      (''Hostname'', GArr (GInt 1) 64),
      (''TimestampNs'', GInt 8),
      (''TtlS'', GInt 4),
      (''Pad'', GArr (GInt 1) 4)]"

definition AIInterceptorProxyConfigT :: gostruct where [layout_eval]:
  "AIInterceptorProxyConfigT =
     [(''_'', GHostLayout),
      (''Ip'', GInt 4),
      (''Port'', GInt 2),
      (''Pad'', GArr (GInt 1) 2)]"

definition AIInterceptorRedirectEventT :: gostruct where [layout_eval]:
  "AIInterceptorRedirectEventT =
     [(''_'', GHostLayout),
      (''Pid'', GInt 4),
      (''Tgid'', GInt 4),
      (''OriginalIp'', GInt 4),
      (''OriginalPort'', GInt 2),
      (''_'', GArr (GInt 1) 2),
      (''ProxyIp'', GInt 4),
      (''ProxyPort'', GInt 2),
      (''Pad'', GArr (GInt 1) 2),
      (''Hostname'', GArr (GInt 1) 64),
      (''Command'', GArr (GInt 1) 16),
      (''CommandlineLen'', GInt 4),
      (''Commandline'', GArr (GInt 1) 127),
      (''_'', GArr (GInt 1) 5),
      (''TimestampNs'', GInt 8)]"

subsection \<open>Lemmas\<close>

lemmas layout_defs = layout_eval c_consts align_up_def bits_pos_def offsetof_def go_sizeof_def

lemma sizeof_structs [simp]:
  "sizeof redirect_event_t = 248" "sizeof dns_event_t = 520"
  "sizeof ai_dest_info_t = 80" "sizeof proxy_config_t = 8"
  by (simp_all add: layout_defs)

lemma offsetof_redirect_event [simp]:
  "offsetof redirect_event_t ''pid'' = 0"
  "offsetof redirect_event_t ''tgid'' = 4"
  "offsetof redirect_event_t ''original_ip'' = 8"
  "offsetof redirect_event_t ''original_port'' = 12"
  "offsetof redirect_event_t ''proxy_ip'' = 16"
  "offsetof redirect_event_t ''proxy_port'' = 20"
  "offsetof redirect_event_t ''hostname'' = 24"
  "offsetof redirect_event_t ''command'' = 88"
  "offsetof redirect_event_t ''commandline_len'' = 104"
  "offsetof redirect_event_t ''commandline'' = 108"
  "offsetof redirect_event_t ''timestamp_ns'' = 240"
  by code_simp+

lemma offsetof_dns_event [simp]:
  "offsetof dns_event_t ''msg_size'' = 0" "offsetof dns_event_t ''msg'' = 8"
  by code_simp+

text \<open>
  A Go struct is a view of a C struct when both have the same size and each pair of field names
  denotes the same bytes.
\<close>

definition binding_agrees :: "ctype \<Rightarrow> gostruct \<Rightarrow> (string \<times> string) list \<Rightarrow> bool" where
  "binding_agrees t g names \<longleftrightarrow> sizeof t = go_sizeof g \<and>
     list_all (\<lambda>(c, n). locate t c 0 \<noteq> None \<and>
       locate t c 0 = map_option (\<lambda>(p, w). (8 * p, 8 * w)) (go_locate g n 0)) names"

text \<open>
  C23. The generated Go structs have the size of the C structs they stand for, and every field
  lies at the same offset with the same width; in particular the two compiler-inserted holes
  of \<^verbatim>\<open>redirect_event_t\<close> are matched by the blank fields of its binding. This is what
  \<^verbatim>\<open>ringbufCast\<close> and the map updates rely on.
\<close>

theorem bindings_layout_agree:
  "binding_agrees redirect_event_t AIInterceptorRedirectEventT
     [(''pid'', ''Pid''), (''tgid'', ''Tgid''), (''original_ip'', ''OriginalIp''),
      (''original_port'', ''OriginalPort''), (''proxy_ip'', ''ProxyIp''),
      (''proxy_port'', ''ProxyPort''), (''_pad'', ''Pad''), (''hostname'', ''Hostname''),
      (''command'', ''Command''), (''commandline_len'', ''CommandlineLen''),
      (''commandline'', ''Commandline''), (''timestamp_ns'', ''TimestampNs'')] \<and>
   binding_agrees ai_dest_info_t AIInterceptorAiDestInfoT
     [(''hostname'', ''Hostname''), (''timestamp_ns'', ''TimestampNs''), (''ttl_s'', ''TtlS''),
      (''_pad'', ''Pad'')] \<and>
   binding_agrees proxy_config_t AIInterceptorProxyConfigT
     [(''ip'', ''Ip''), (''port'', ''Port''), (''_pad'', ''Pad'')]"
  by code_simp

text \<open>
  The numbers that \<^verbatim>\<open>tc_dns_observer\<close> and \<^verbatim>\<open>is_valid_dns_response\<close> use to walk a packet
  are the sizes and member positions of the kernel's header structs: the Ethernet, minimal IPv4,
  UDP and minimal TCP header lengths, the low nibble of the first IP byte (ihl), the protocol at
  byte 9, the source port at byte 0 of either transport header, the high nibble of TCP byte
  12 (doff), and the flags and ancount words of the 12-byte DNS header.
\<close>

lemma packet_offsets_correct:
  "sizeof ethhdr = ETH_HDR_LEN \<and> sizeof iphdr = IP_HDR_MINLEN \<and> sizeof udphdr = UDP_HDR_LEN \<and>
   sizeof tcphdr = TCP_HDR_MINLEN \<and> sizeof dns_header = DNS_HDR_MIN_LEN \<and>
   locate iphdr ''ihl'' 0 = Some (0, 4) \<and> locate iphdr ''protocol'' 0 = Some (8 * 9, 8) \<and>
   locate iphdr ''daddr'' 0 = Some (8 * 16, 32) \<and>
   locate udphdr ''source'' 0 = Some (0, 16) \<and> locate tcphdr ''source'' 0 = Some (0, 16) \<and>
   locate tcphdr ''doff'' 0 = Some (8 * 12 + 4, 4) \<and>
   locate dns_header ''flags'' 0 = Some (8 * 2, 16) \<and>
   locate dns_header ''ancount'' 0 = Some (8 * 6, 16) \<and>
   locate sk_buff_ctx ''len'' 0 = Some (0, 32) \<and>
   locate bpf_sock_addr ''user_ip4'' 0 = Some (8 * 4, 32) \<and>
   locate bpf_sock_addr ''user_port'' 0 = Some (8 * 24, 32) \<and>
   sizeof sk_buff_ctx = 184 \<and> sizeof bpf_sock_addr = 72"
  by code_simp

end
