(* ===== verification/Bpf_Kernel.thy ===== *)
theory Bpf_Kernel
  imports Endian C_Layout
begin

text \<open>
  The kernel as the program sees it. The map declarations are those of \<^verbatim>\<open>src/bpf/maps.h\<close>.
  The helpers that \<^verbatim>\<open>ai_interceptor.c\<close> calls, and the map and ring-buffer calls of the agent's
  libraries, are not code of the repository: they are the fields of two records, \<open>bpf_helpers\<close>
  and \<open>agent_ops\<close>, over an abstract kernel state \<open>'k\<close>, and every model of program code takes
  these records as arguments. What the program may rely on is stated as locales, from the
  descriptions in \<^verbatim>\<open>src/bpf/include/bpf/bpf_helper_defs.h\<close> and of the map types, through three
  observations: the samples waiting in a ring buffer, the entries of \<^verbatim>\<open>ai_destinations\<close> and the
  element of \<^verbatim>\<open>proxy_config\<close>. A reference kernel with the declared capacities interprets them.
\<close>

subsection \<open>maps.h\<close>

datatype bpf_map_type =
    BPF_MAP_TYPE_UNSPEC | BPF_MAP_TYPE_HASH | BPF_MAP_TYPE_ARRAY | BPF_MAP_TYPE_PROG_ARRAY
  | BPF_MAP_TYPE_PERF_EVENT_ARRAY | BPF_MAP_TYPE_PERCPU_HASH | BPF_MAP_TYPE_PERCPU_ARRAY
  | BPF_MAP_TYPE_STACK_TRACE | BPF_MAP_TYPE_CGROUP_ARRAY | BPF_MAP_TYPE_LRU_HASH
  | BPF_MAP_TYPE_LRU_PERCPU_HASH | BPF_MAP_TYPE_LPM_TRIE | BPF_MAP_TYPE_ARRAY_OF_MAPS
  | BPF_MAP_TYPE_HASH_OF_MAPS | BPF_MAP_TYPE_DEVMAP | BPF_MAP_TYPE_SOCKMAP | BPF_MAP_TYPE_CPUMAP
  | BPF_MAP_TYPE_XSKMAP | BPF_MAP_TYPE_SOCKHASH | BPF_MAP_TYPE_CGROUP_STORAGE
  | BPF_MAP_TYPE_REUSEPORT_SOCKARRAY | BPF_MAP_TYPE_PERCPU_CGROUP_STORAGE | BPF_MAP_TYPE_QUEUE
  | BPF_MAP_TYPE_STACK | BPF_MAP_TYPE_SK_STORAGE | BPF_MAP_TYPE_DEVMAP_HASH
  | BPF_MAP_TYPE_STRUCT_OPS | BPF_MAP_TYPE_RINGBUF | BPF_MAP_TYPE_INODE_STORAGE
  | BPF_MAP_TYPE_TASK_STORAGE

record map_decl =
  map_type :: bpf_map_type
  max_entries :: nat
  map_key :: "ctype option"
  map_value :: "ctype option"

definition ai_destinations :: map_decl where
  "ai_destinations = \<lparr>map_type = BPF_MAP_TYPE_LRU_HASH, max_entries = AI_DEST_MAP_MAX_ENTRIES,
     map_key = Some (CInt 4), map_value = Some ai_dest_info_t\<rparr>"

definition proxy_config :: map_decl where
  "proxy_config = \<lparr>map_type = BPF_MAP_TYPE_ARRAY, max_entries = 1,
     map_key = Some (CInt 4), map_value = Some proxy_config_t\<rparr>"

definition dns_events :: map_decl where
  "dns_events = \<lparr>map_type = BPF_MAP_TYPE_RINGBUF, max_entries = DNS_EVENTS_RING_SIZE,
     map_key = None, map_value = None\<rparr>"

definition redirect_events :: map_decl where
  "redirect_events = \<lparr>map_type = BPF_MAP_TYPE_RINGBUF, max_entries = REDIRECT_EVENTS_RING_SIZE,
     map_key = None, map_value = None\<rparr>"

datatype ring = Dns_Events | Redirect_Events

text \<open>The values of the two data maps, field by field.\<close>

record ai_dest_info =
  info_hostname :: bytes
  info_timestamp_ns :: u64
  info_ttl_s :: u32

record proxy_cfg =
  cfg_ip :: u32
  cfg_port :: u16

subsection \<open>Program contexts\<close>

text \<open>\<^verbatim>\<open>struct __sk_buff\<close>: the length field and the packet bytes behind it.\<close>

record skb =
  skb_len :: u32
  skb_data :: bytes

text \<open>\<^verbatim>\<open>struct bpf_sock_addr\<close>, the argument of a \<^verbatim>\<open>cgroup/connect4\<close> program.\<close>

record sock_addr =
  user_family :: u32
  user_ip4 :: u32
  user_ip6 :: "u32 list"
  user_port :: u32
  sa_family :: u32
  sa_type :: u32
  sa_protocol :: u32
  msg_src_ip4 :: u32
  msg_src_ip6 :: "u32 list"

definition skb_ok :: "skb \<Rightarrow> bool" where
  "skb_ok skb \<longleftrightarrow> unat (skb_len skb) = length (skb_data skb)"

subsection \<open>The helpers and the agent's map and ring-buffer calls\<close>

record 'k bpf_helpers =
  skb_load_bytes :: "skb \<Rightarrow> u32 \<Rightarrow> u32 \<Rightarrow> bytes option"
    \<comment> \<open>None: a negative return value\<close>
  ringbuf_reserve :: "ring \<Rightarrow> nat \<Rightarrow> 'k \<Rightarrow> 'k \<times> bytes option"
    \<comment> \<open>None: NULL; otherwise the present contents of the reserved memory\<close>
  ringbuf_submit :: "ring \<Rightarrow> bytes \<Rightarrow> 'k \<Rightarrow> 'k"
  ringbuf_discard :: "ring \<Rightarrow> bytes \<Rightarrow> 'k \<Rightarrow> 'k"
  lookup_ai_destinations :: "u32 \<Rightarrow> 'k \<Rightarrow> 'k \<times> ai_dest_info option"
  lookup_proxy_config :: "u32 \<Rightarrow> 'k \<Rightarrow> 'k \<times> proxy_cfg option"
  get_current_pid_tgid :: "'k \<Rightarrow> u64"
  ktime_get_ns :: "'k \<Rightarrow> u64"
  probe_read_kernel :: "bytes \<Rightarrow> nat \<Rightarrow> bytes \<Rightarrow> 'k \<Rightarrow> bool \<times> bytes"
    \<comment> \<open>old destination, size, source; success and new destination\<close>
  get_current_comm :: "bytes \<Rightarrow> nat \<Rightarrow> 'k \<Rightarrow> bool \<times> bytes"

datatype read_result = Read_Record bytes | Read_Closed | Read_Error

record 'k agent_ops =
  update_ai_destinations :: "u32 \<Rightarrow> ai_dest_info \<Rightarrow> 'k \<Rightarrow> 'k \<times> bool"
  update_proxy_config :: "u32 \<Rightarrow> proxy_cfg \<Rightarrow> 'k \<Rightarrow> 'k \<times> bool"
  read_into :: "ring \<Rightarrow> 'k \<Rightarrow> 'k \<times> read_result"
  time_now :: "'k \<Rightarrow> u64"

subsection \<open>What the program relies on\<close>

text \<open>
  What a program relies on for its own memory: the bytes of the packet, the size of a reserved
  sample, and the two helpers that write into it.
\<close>

locale bpf_local =
  fixes H :: "'k bpf_helpers"
  assumes load_bytes: "skb_ok skb \<Longrightarrow> 0 < n \<Longrightarrow> unat off + unat n < 2 ^ 31 \<Longrightarrow>
      skb_load_bytes H skb off n =
        (if unat off + unat n \<le> length (skb_data skb)
         then Some (read_at (unat off) (unat n) (skb_data skb)) else None)"
    and reserve_size: "ringbuf_reserve H r sz k = (k', Some m) \<Longrightarrow> length m = sz"
    and probe_read_size: "length d = sz \<Longrightarrow> length s = sz \<Longrightarrow>
        probe_read_kernel H d sz s k = (ok, d') \<Longrightarrow> length d' = sz \<and> (ok \<longrightarrow> d' = s)"
    and comm_size: "length d = sz \<Longrightarrow> 0 < sz \<Longrightarrow>
        get_current_comm H d sz k = (ok, d') \<Longrightarrow> length d' = sz \<and> 0 \<in> set d'"

text \<open>What it relies on for the shared maps and rings, when no other program runs meanwhile.\<close>

locale bpf_kernel = bpf_local H
  for H :: "'k bpf_helpers" +
  fixes pending :: "ring \<Rightarrow> 'k \<Rightarrow> bytes list"
    and dests :: "'k \<Rightarrow> u32 \<Rightarrow> ai_dest_info option"
    and proxy :: "'k \<Rightarrow> proxy_cfg"
  assumes reserve_pending: "ringbuf_reserve H r sz k = (k', mem) \<Longrightarrow> pending r' k' = pending r' k"
    and reserve_dests: "ringbuf_reserve H r sz k = (k', mem) \<Longrightarrow> dests k' = dests k"
    and reserve_proxy: "ringbuf_reserve H r sz k = (k', mem) \<Longrightarrow> proxy k' = proxy k"
    and submit_pending: "pending r' (ringbuf_submit H r d k) =
        (if r' = r then pending r k @ [d] else pending r' k)"
    and submit_dests: "dests (ringbuf_submit H r d k) = dests k"
    and submit_proxy: "proxy (ringbuf_submit H r d k) = proxy k"
    and discard_pending: "pending r' (ringbuf_discard H r d k) = pending r' k"
    and discard_dests: "dests (ringbuf_discard H r d k) = dests k"
    and discard_proxy: "proxy (ringbuf_discard H r d k) = proxy k"
    and lookup_dest: "lookup_ai_destinations H a k = (k', info) \<Longrightarrow> info = dests k a"
    and lookup_dest_frame: "lookup_ai_destinations H a k = (k', info) \<Longrightarrow>
        pending r k' = pending r k \<and> dests k' = dests k \<and> proxy k' = proxy k"
    and lookup_cfg: "lookup_proxy_config H i k = (k', cfg) \<Longrightarrow>
        cfg = (if i = 0 then Some (proxy k) else None)"
    and lookup_cfg_frame: "lookup_proxy_config H i k = (k', cfg) \<Longrightarrow>
        pending r k' = pending r k \<and> dests k' = dests k \<and> proxy k' = proxy k"

locale agent_kernel = bpf_kernel H pending dests proxy
  for H :: "'k bpf_helpers" and pending dests proxy +
  fixes A :: "'k agent_ops"
  assumes update_ok: "update_ai_destinations A a i k = (k', True) \<Longrightarrow> dests k' a = Some i"
    and update_others: "update_ai_destinations A a i k = (k', ok) \<Longrightarrow> b \<noteq> a \<Longrightarrow>
        dests k' b = dests k b \<or> dests k' b = None"
    and update_failed: "update_ai_destinations A a i k = (k', False) \<Longrightarrow> dests k' a = dests k a"
    and update_frame: "update_ai_destinations A a i k = (k', ok) \<Longrightarrow>
        pending r k' = pending r k \<and> proxy k' = proxy k"
    and update_cfg: "update_proxy_config A j c k = (k', ok) \<Longrightarrow>
        proxy k' = (if ok \<and> j = 0 then c else proxy k)"
    and update_cfg_frame: "update_proxy_config A j c k = (k', ok) \<Longrightarrow>
        pending r k' = pending r k \<and> dests k' = dests k"
    and read_pending: "read_into A r k = (k', x) \<Longrightarrow>
        pending r k = (case x of Read_Record d \<Rightarrow> d # pending r k' | _ \<Rightarrow> pending r k')"
    and read_frame: "read_into A r k = (k', x) \<Longrightarrow> r' \<noteq> r \<Longrightarrow> pending r' k' = pending r' k"
    and read_maps: "read_into A r k = (k', x) \<Longrightarrow> dests k' = dests k \<and> proxy k' = proxy k"

subsection \<open>A reference kernel\<close>

text \<open>
  A kernel with the declared capacities: each ring buffer holds the waiting samples, each with an
  8-byte header and rounded up to 8 bytes; the LRU map is a list with the most recently used entry
  first, cut at \<^verbatim>\<open>max_entries\<close>. Reserved memory is not cleared: it holds \<open>rk_stale\<close>. The
  operations work on every extension of the record.
\<close>

record ref_kernel =
  rk_dns :: "bytes list"
  rk_redirect :: "bytes list"
  rk_dests :: "(u32 \<times> ai_dest_info) list"
  rk_proxy :: proxy_cfg
  rk_pid_tgid :: u64
  rk_ktime :: u64
  rk_comm :: bytes
  rk_now :: u64
  rk_stale :: u8
  rk_closed :: bool

fun ref_pending :: "ring \<Rightarrow> 'z ref_kernel_scheme \<Rightarrow> bytes list" where
  "ref_pending Dns_Events k = rk_dns k"
| "ref_pending Redirect_Events k = rk_redirect k"

fun ref_set_pending :: "ring \<Rightarrow> bytes list \<Rightarrow> 'z ref_kernel_scheme \<Rightarrow> 'z ref_kernel_scheme" where
  "ref_set_pending Dns_Events q k = k\<lparr>rk_dns := q\<rparr>"
| "ref_set_pending Redirect_Events q k = k\<lparr>rk_redirect := q\<rparr>"

fun ring_capacity :: "ring \<Rightarrow> nat" where
  "ring_capacity Dns_Events = max_entries dns_events"
| "ring_capacity Redirect_Events = max_entries redirect_events"

definition sample_space :: "nat \<Rightarrow> nat" where
  "sample_space n = align_up (n + 8) 8"

definition ref_reserve :: "ring \<Rightarrow> nat \<Rightarrow> 'z ref_kernel_scheme \<Rightarrow> 'z ref_kernel_scheme \<times> bytes option" where
  "ref_reserve r n k =
     (k, if sum_list (map (\<lambda>d. sample_space (length d)) (ref_pending r k)) + sample_space n
            \<le> ring_capacity r
         then Some (replicate n (rk_stale k)) else None)"

definition ref_lookup :: "u32 \<Rightarrow> 'z ref_kernel_scheme \<Rightarrow> 'z ref_kernel_scheme \<times> ai_dest_info option" where
  "ref_lookup a k = (case map_of (rk_dests k) a of
     None \<Rightarrow> (k, None)
   | Some i \<Rightarrow> (k\<lparr>rk_dests := (a, i) # filter (\<lambda>e. fst e \<noteq> a) (rk_dests k)\<rparr>, Some i))"

definition ref_update :: "u32 \<Rightarrow> ai_dest_info \<Rightarrow> 'z ref_kernel_scheme \<Rightarrow> 'z ref_kernel_scheme \<times> bool" where
  "ref_update a i k =
     (k\<lparr>rk_dests := (a, i) # take (max_entries ai_destinations - 1)
         (filter (\<lambda>e. fst e \<noteq> a) (rk_dests k))\<rparr>, True)"

definition ref_read :: "ring \<Rightarrow> 'z ref_kernel_scheme \<Rightarrow> 'z ref_kernel_scheme \<times> read_result" where
  "ref_read r k = (if rk_closed k then (k, Read_Closed) else
     case ref_pending r k of
       [] \<Rightarrow> (k, Read_Error)
     | d # q \<Rightarrow> (ref_set_pending r q k, Read_Record d))"

definition ref_helpers :: "'z ref_kernel_scheme bpf_helpers" where
  "ref_helpers = \<lparr>
     skb_load_bytes = (\<lambda>skb off n.
       if unat off + unat n \<le> length (skb_data skb)
       then Some (read_at (unat off) (unat n) (skb_data skb)) else None),
     ringbuf_reserve = ref_reserve,
     ringbuf_submit = (\<lambda>r d k. ref_set_pending r (ref_pending r k @ [d]) k),
     ringbuf_discard = (\<lambda>r d k. k),
     lookup_ai_destinations = ref_lookup,
     lookup_proxy_config = (\<lambda>i k. (k, if i = 0 then Some (rk_proxy k) else None)),
     get_current_pid_tgid = rk_pid_tgid,
     ktime_get_ns = rk_ktime,
     probe_read_kernel = (\<lambda>d n s k. (True, take n s)),
     get_current_comm = (\<lambda>d n k. (True, take n (take (n - 1) (rk_comm k) @ replicate n 0)))\<rparr>"

definition ref_agent :: "'z ref_kernel_scheme agent_ops" where
  "ref_agent = \<lparr>
     update_ai_destinations = ref_update,
     update_proxy_config = (\<lambda>j c k. if j = 0 then (k\<lparr>rk_proxy := c\<rparr>, True) else (k, False)),
     read_into = ref_read,
     time_now = rk_now\<rparr>"

definition ref_dests :: "'z ref_kernel_scheme \<Rightarrow> u32 \<Rightarrow> ai_dest_info option" where
  "ref_dests k = map_of (rk_dests k)"

lemma map_of_take: "map_of (take n xs) b = map_of xs b \<or> map_of (take n xs) b = None"
proof -
  have "map_of xs b = (case map_of (take n xs) b of None \<Rightarrow> map_of (drop n xs) b | Some v \<Rightarrow> Some v)"
    by (metis append_take_drop_id map_add_def map_of_append)
  then show ?thesis by (cases "map_of (take n xs) b") auto
qed

lemma map_of_filter_key: "map_of (filter (\<lambda>e. fst e \<noteq> a) xs) b = (if b = a then None else map_of xs b)"
  by (induction xs) auto

lemma ref_pending_set [simp]:
  "ref_pending r' (ref_set_pending r q k) = (if r' = r then q else ref_pending r' k)"
  by (cases r; cases r') simp_all

lemma ref_set_pending_frame [simp]:
  "rk_dests (ref_set_pending r q k) = rk_dests k" "rk_proxy (ref_set_pending r q k) = rk_proxy k"
  by (cases r; simp)+

lemma ref_pending_dests [simp]: "ref_pending r (k\<lparr>rk_dests := d\<rparr>) = ref_pending r k"
  by (cases r) simp_all

lemma ref_pending_proxy [simp]: "ref_pending r (k\<lparr>rk_proxy := d\<rparr>) = ref_pending r k"
  by (cases r) simp_all

interpretation rk: bpf_kernel ref_helpers ref_pending ref_dests rk_proxy
  by unfold_locales
    (auto simp: ref_helpers_def ref_reserve_def ref_lookup_def ref_dests_def map_of_filter_key
      fun_eq_iff neq_Nil_conv split: if_splits option.splits)

interpretation rk: agent_kernel ref_helpers ref_pending ref_dests rk_proxy ref_agent
proof (unfold_locales, goal_cases)
  case (2 a i k k' ok b)
  then show ?case
    using map_of_take [of "max_entries ai_destinations - 1" "filter (\<lambda>e. fst e \<noteq> a) (rk_dests k)" b]
    by (auto simp: ref_agent_def ref_update_def ref_dests_def map_of_filter_key)
qed (auto simp: ref_agent_def ref_update_def ref_dests_def ref_read_def
    split: if_splits list.splits)

text \<open>A freshly loaded reference kernel, for concrete runs.\<close>

definition ref_init :: ref_kernel where
  "ref_init = \<lparr>rk_dns = [], rk_redirect = [], rk_dests = [], rk_proxy = \<lparr>cfg_ip = 0, cfg_port = 0\<rparr>,
     rk_pid_tgid = 0x0000002A0000002B, rk_ktime = 1000, rk_comm = bytes_of ''curl'', rk_now = 2000,
     rk_stale = 0xAA, rk_closed = False\<rparr>"

lemma ref_init_reserve:
  "n \<le> 1024 \<Longrightarrow> ringbuf_reserve ref_helpers r n ref_init = (ref_init, Some (replicate n 0xAA))"
  by (cases r) (simp_all add: ref_helpers_def ref_reserve_def ref_init_def sample_space_def
      align_up_def dns_events_def redirect_events_def c_consts)

lemma ref_init_empty [simp]:
  "ref_pending r ref_init = []" "ref_dests ref_init a = None"
  by (cases r; simp add: ref_init_def ref_dests_def)+

end
