(* ===== verification/Dns_Filter.thy ===== *)
theory Dns_Filter
  imports Bpf_Kernel "HOL-Library.Monad_Syntax"
begin

text \<open>
  The TC hook: \<^verbatim>\<open>tc_dns_observer\<close> of \<^verbatim>\<open>src/bpf/ai_interceptor.c\<close> and \<^verbatim>\<open>is_valid_dns_response\<close> of
  \<^verbatim>\<open>src/bpf/dns/helpers.h\<close>, at the integer widths of the C code. \<open>dns_window\<close> and \<open>dns_capture\<close>
  specify on plain byte lists and natural numbers what the hook is to find in a packet; the
  refinement theorem says that the hook submits exactly that.
\<close>

subsection \<open>dns/helpers.h\<close>

definition is_valid_dns_response :: "bytes \<Rightarrow> u32 \<Rightarrow> bool" where
  "is_valid_dns_response buf len =
     (if len < word_of_nat DNS_HDR_MIN_LEN then False
      else let flags_hi = buf ! 2 in
      if flags_hi AND 0x80 = 0 then False
      else let ancount_hi = buf ! 6; ancount_lo = buf ! 7 in
      if push_bit 8 (ucast ancount_hi :: u32) OR ucast ancount_lo = 0 then False
      else True)"

subsection \<open>ai\_interceptor.c: the TC hook\<close>

text \<open>
  The part of the function up to the size check, in three steps: the size
  check itself, the transport header before it, the IP header before that. The result is the offset and the masked length of the DNS message;
  every \<^verbatim>\<open>return TC_ACT_OK\<close> of this part is \<open>None\<close>.
\<close>

definition tc_payload_check :: "skb \<Rightarrow> u16 \<Rightarrow> (u16 \<times> u32) option" where
  "tc_payload_check skb payload_offset =
     (if skb_len skb \<le> ucast payload_offset then None else
      let payload_len = (skb_len skb - ucast payload_offset) AND word_of_nat (2 * MAX_DNS_MSG_SIZE - 1)
      in if payload_len < word_of_nat DNS_HDR_MIN_LEN \<or> word_of_nat MAX_DNS_MSG_SIZE < payload_len
         then None else Some (payload_offset, payload_len))"

definition tc_dns_payload :: "'k bpf_helpers \<Rightarrow> skb \<Rightarrow> u8 \<Rightarrow> u16 \<Rightarrow> (u16 \<times> u32) option" where
  "tc_dns_payload H skb ip_proto transport_offset = do {
     b \<leftarrow> skb_load_bytes H skb (ucast transport_offset) 2;
     let src_port = (le_word b :: u16);
     if bpf_ntohs ORDER_LITTLE_ENDIAN False src_port \<noteq> 53 then None else do {
     transport_hdr_len \<leftarrow>
       (if ip_proto = 17 then Some (word_of_nat UDP_HDR_LEN :: u16)
        else do {
          b \<leftarrow> skb_load_bytes H skb (ucast transport_offset + 12) 1;
          let doff = b ! 0;
          let hdr_len = (ucast (drop_bit 4 doff) :: u16) * 4;
          if hdr_len < word_of_nat TCP_HDR_MINLEN then None else Some hdr_len });
     let dns_prefix = (if ip_proto = 6 then word_of_nat DNS_TCP_LEN_PREFIX else 0 :: u16);
     let payload_offset = transport_offset + transport_hdr_len + dns_prefix;
     tc_payload_check skb payload_offset } }"

definition tc_dns_locate :: "'k bpf_helpers \<Rightarrow> skb \<Rightarrow> (u16 \<times> u32) option" where
  "tc_dns_locate H skb = do {
     b \<leftarrow> skb_load_bytes H skb (word_of_nat ETH_HDR_LEN) 1;
     let ip_hdr_byte = b ! 0;
     let ip_hdr_len = (ucast (ip_hdr_byte AND 0x0f) :: u16) * 4;
     if ip_hdr_len < word_of_nat IP_HDR_MINLEN then None else do {
     b \<leftarrow> skb_load_bytes H skb (word_of_nat (ETH_HDR_LEN + 9)) 1;
     let ip_proto = b ! 0;
     if ip_proto \<noteq> 17 \<and> ip_proto \<noteq> 6 then None else
     tc_dns_payload H skb ip_proto ((word_of_nat ETH_HDR_LEN :: u16) + ip_hdr_len) } }"

text \<open>The whole hook: return value and new kernel state.\<close>

definition tc_dns_observer :: "'k bpf_helpers \<Rightarrow> skb \<Rightarrow> 'k \<Rightarrow> int \<times> 'k" where
  "tc_dns_observer H skb k = (case tc_dns_locate H skb of
     None \<Rightarrow> (TC_ACT_OK, k)
   | Some (payload_offset, payload_len) \<Rightarrow>
     (case ringbuf_reserve H Dns_Events (sizeof dns_event_t) k of
        (k, None) \<Rightarrow> (TC_ACT_OK, k)
      | (k, Some ev) \<Rightarrow>
        let ev = write_at (offsetof dns_event_t ''msg_size'') (le_bytes (ucast payload_len :: u64)) ev
        in (case skb_load_bytes H skb (ucast payload_offset) payload_len of
          None \<Rightarrow> (TC_ACT_OK, ringbuf_discard H Dns_Events ev k)
        | Some msg \<Rightarrow>
          let ev = write_at (offsetof dns_event_t ''msg'') msg ev
          in if \<not> is_valid_dns_response (drop (offsetof dns_event_t ''msg'') ev) payload_len
             then (TC_ACT_OK, ringbuf_discard H Dns_Events ev k)
             else (TC_ACT_OK, ringbuf_submit H Dns_Events ev k))))"

subsection \<open>Specification\<close>

text \<open>
  The position of the DNS message in an Ethernet frame and the number of bytes from there to the
  end of the frame.
\<close>

definition transport_window :: "u8 \<Rightarrow> nat \<Rightarrow> bytes \<Rightarrow> (nat \<times> nat) option" where
  "transport_window proto t p =
     (let doff = 4 * (unat (p ! (t + 12)) div 16); udp = t + 8; tcp = t + doff + 2
      in if t + 2 \<le> length p \<and> from_be (read_at t 2 p) = 53
         then (if proto = 17 then (if udp < length p then Some (udp, length p - udp) else None)
               else if t + 13 \<le> length p \<and> 20 \<le> doff \<and> tcp < length p
                    then Some (tcp, length p - tcp) else None)
         else None)"

definition dns_window :: "bytes \<Rightarrow> (nat \<times> nat) option" where
  "dns_window p =
     (let ihl = 4 * (unat (p ! 14) mod 16)
      in if 24 \<le> length p \<and> 20 \<le> ihl \<and> (p ! 23 = 17 \<or> p ! 23 = 6)
         then transport_window (p ! 23) (14 + ihl) p else None)"

definition is_response :: "bytes \<Rightarrow> bool" where
  "is_response m \<longleftrightarrow> 12 \<le> length m \<and> 128 \<le> unat (m ! 2) \<and> from_be (read_at 6 2 m) \<noteq> 0"

text \<open>
  What the hook captures: the message cut to its length modulo 1024, when that is between 12 and
  512 and it is a response with at least one answer.
\<close>

definition dns_capture :: "bytes \<Rightarrow> bytes option" where
  "dns_capture p = (case dns_window p of
     None \<Rightarrow> None
   | Some (off, n) \<Rightarrow>
       let m = read_at off (n mod 1024) p
       in if length m \<le> 512 \<and> is_response m then Some m else None)"

text \<open>The two fields of a \<^verbatim>\<open>dns_event_t\<close> sample.\<close>

definition event_msg_size :: "bytes \<Rightarrow> nat" where
  "event_msg_size ev = from_le (read_at 0 8 ev)"

definition event_msg :: "bytes \<Rightarrow> bytes" where
  "event_msg ev = read_at 8 (event_msg_size ev) ev"

text \<open>A window with its length masked to ten bits, when that passes the size check.\<close>

definition masked_window :: "nat \<times> nat \<Rightarrow> (u16 \<times> u32) option" where
  "masked_window w = (case w of (off, n) \<Rightarrow>
     if 12 \<le> n mod 1024 \<and> n mod 1024 \<le> 512
     then Some (word_of_nat off, word_of_nat (n mod 1024)) else None)"

definition dns_event_for :: "bytes \<Rightarrow> bytes \<Rightarrow> bool" where
  "dns_event_for m ev \<longleftrightarrow>
     length ev = sizeof dns_event_t \<and> event_msg_size ev = length m \<and> event_msg ev = m"

subsection \<open>Lemmas\<close>

lemma ancount_eq_0: "push_bit 8 (ucast (hi :: u8) :: u32) OR ucast (lo :: u8) = 0 \<longleftrightarrow> hi = 0 \<and> lo = 0"
proof -
  have "unat hi < 256" using unsigned_less [where w = hi] by simp
  then have "unat (push_bit 8 (ucast hi :: u32)) = 256 * unat hi"
    by (simp add: push_bit_eq_mult unat_word_ariths unsigned_ucast_eq take_bit_eq_mod)
  then have "push_bit 8 (ucast hi :: u32) = 0 \<longleftrightarrow> hi = 0"
    by (metis mult_eq_0_iff unat_eq_zero zero_neq_numeral)
  moreover have "(ucast lo :: u32) = 0 \<longleftrightarrow> lo = 0"
    by (metis unat_eq_zero unat_ucast8)
  ultimately show ?thesis by (simp add: or_eq_0_iff)
qed

lemma is_valid_dns_response_spec:
  assumes "unat len \<le> length buf"
  shows "is_valid_dns_response buf len = is_response (take (unat len) buf)"
proof (cases "12 \<le> unat len")
  case True
  then have "read_at 6 2 (take (unat len) buf) = [buf ! 6, buf ! 7]"
    using assms by (subst read_at_2) simp_all
  with True assms show ?thesis
    by (auto simp: is_valid_dns_response_def is_response_def c_consts Let_def word_less_nat_alt
        and_128_eq_0 ancount_eq_0 from_be_2 unat_eq_zero)
qed (use assms in \<open>simp add: is_valid_dns_response_def is_response_def c_consts word_less_nat_alt\<close>)

lemma dns_event_written:
  assumes "length ev = 520" "length m \<le> 512" "unat (len :: u32) = length m"
  shows "dns_event_for m (write_at 8 m (write_at 0 (le_bytes (ucast len :: u64)) ev))"
    and "take (length m) (drop 8 (write_at 8 m (write_at 0 (le_bytes (ucast len :: u64)) ev))) = m"
proof -
  let ?e = "write_at 8 m (write_at 0 (le_bytes (ucast len :: u64)) ev)"
  have "length m < 256 ^ 8" using assms(2) by simp
  then have "event_msg_size ?e = length m"
    using assms by (simp add: event_msg_size_def mem_simps le_bytes_def from_le_to_le)
  moreover have "read_at 8 (length m) ?e = m"
    using assms by (simp add: mem_simps)
  ultimately show "dns_event_for m ?e" "take (length m) (drop 8 ?e) = m"
    using assms by (simp_all add: dns_event_for_def event_msg_def mem_simps read_at_def)
qed

lemma dns_window_bounds:
  assumes "dns_window p = Some (off, n)"
  shows "42 \<le> off" "off \<le> 136" "0 < n" "off + n = length p"
proof -
  let ?i = "unat (p ! 14) mod 16"
  have "?i \<le> 15" by simp
  moreover have "unat (p ! (26 + 4 * ?i)) div 16 \<le> 15" by (rule high_nibble_le)
  ultimately show "42 \<le> off" "off \<le> 136" "0 < n" "off + n = length p"
    using assms by (auto simp: dns_window_def transport_window_def Let_def split: if_splits)
qed

lemma dns_window_read:
  assumes "dns_window p = Some (off, n)"
  shows "length (read_at off (n mod 1024) p) = n mod 1024"
  by (rule length_read_at)
    (use dns_window_bounds [OF assms] in \<open>simp add: le_trans [OF mod_less_eq_dividend]\<close>)

lemma tc_payload_check_spec:
  assumes ok: "skb_ok skb" and o: "unat po = off"
  shows "tc_payload_check skb po = (if off < length (skb_data skb)
    then masked_window (off, length (skb_data skb) - off) else None)"
proof -
  let ?n = "length (skb_data skb) - off"
  have len: "unat (skb_len skb) = length (skb_data skb)" using ok by (simp add: skb_ok_def)
  have po: "po = word_of_nat off" using o by auto
  have le: "skb_len skb \<le> ucast po \<longleftrightarrow> length (skb_data skb) \<le> off"
    by (simp add: word_le_nat_alt len o)
  show ?thesis
  proof (cases "off < length (skb_data skb)")
    case True
    then have "unat (skb_len skb - ucast po) = ?n"
      using o len by (simp add: unat_sub word_le_nat_alt)
    then have u: "unat ((skb_len skb - ucast po) AND 1023) = ?n mod 1024"
      by (simp add: unat_and_1023)
    then have "(skb_len skb - ucast po) AND 1023 = word_of_nat (?n mod 1024)"
      by (simp add: word_unat_eq_iff unat_of_nat)
    then show ?thesis using True u
      by (auto simp: tc_payload_check_def masked_window_def le Let_def c_consts word_less_nat_alt
          simp flip: po)
  qed (simp add: tc_payload_check_def le)
qed

context bpf_local
begin

lemma load_byte:
  assumes "skb_ok skb" "unat off < 2 ^ 30"
  shows "skb_load_bytes H skb off 1 =
    (if unat off < length (skb_data skb) then Some [skb_data skb ! unat off] else None)"
  using load_bytes [OF assms(1), of 1 off] assms(2) by (auto simp: read_at_1)

lemma load_port:
  assumes "skb_ok skb" 
  shows "skb_load_bytes H skb (ucast (off :: u16)) 2 =
    (if unat off + 2 \<le> length (skb_data skb) then Some (read_at (unat off) 2 (skb_data skb)) else None)"
proof -
  have "unat off < 65536" using unsigned_less [where w = off] by simp
  then show ?thesis using load_bytes [OF assms(1), of 2 "ucast off"]  by simp
qed

lemma doff_word:
  "unat ((ucast (drop_bit 4 b) :: u16) * 4) = 4 * (unat (b :: u8) div 16)" "4 * (unat (b :: u8) div 16) \<le> 60"
  using unsigned_less [where w = b and 'a = nat] by (simp_all add: unat_high_nibble)

lemma tc_dns_payload_spec:
  assumes ok: "skb_ok skb" and t: "unat tw = t" "t \<le> 74" and proto: "proto = 17 \<or> proto = 6"
  shows "tc_dns_payload H skb proto tw =
    Option.bind (transport_window proto t (skb_data skb)) masked_window"
proof -
  let ?p = "skb_data skb"
  define doff where "doff = 4 * (unat (?p ! (t + 12)) div 16)"
  define dw where "dw = (ucast (drop_bit 4 (?p ! (t + 12))) :: u16) * 4"
  have doff: "unat dw = doff" "doff \<le> 60" unfolding doff_def dw_def by (rule doff_word)+
  have udp: "tc_payload_check skb (tw + 8) = (if t + 8 < length ?p
      then masked_window (t + 8, length ?p - (t + 8)) else None)"
    by (rule tc_payload_check_spec [OF ok]) (use t in \<open>simp add: unat_word_ariths\<close>)
  have tcp: "tc_payload_check skb (tw + dw + 2) = (if t + doff + 2 < length ?p
      then masked_window (t + doff + 2, length ?p - (t + doff + 2)) else None)"
    by (rule tc_payload_check_spec [OF ok]) (use t doff in \<open>simp add: unat_word_ariths\<close>)
  have port: "skb_load_bytes H skb (ucast tw) 2 =
      (if t + 2 \<le> length ?p then Some (read_at t 2 ?p) else None)"
    using load_port [OF ok, of tw] t by simp
  have "unat (ucast tw + 12 :: u32) = t + 12"
    using t by (simp add: unat_word_ariths)
  then have do: "skb_load_bytes H skb (ucast tw + 12) 1 =
      (if t + 12 < length ?p then Some [?p ! (t + 12)] else None)"
    using load_byte [OF ok, of "ucast tw + 12"] t by simp
  have short: "dw < 20 \<longleftrightarrow> doff < 20"
    using doff by (simp add: word_less_nat_alt)
  show ?thesis
  proof (cases "t + 2 \<le> length ?p \<and> from_be (read_at t 2 ?p) = 53")
    case True
    then have l: "length (read_at t 2 ?p) = 2" by (simp add: length_read_at)
    from proto show ?thesis
    proof
      assume "proto = 17"
      with True l show ?thesis
        by (simp add: tc_dns_payload_def port bpf_ntohs_loaded transport_window_def c_consts udp Let_def)
    next
      assume "proto = 6"
      with True l show ?thesis
        by (auto simp add: tc_dns_payload_def port bpf_ntohs_loaded transport_window_def c_consts do
            short tcp simp flip: doff_def dw_def)
    qed
  next
    case False
    then show ?thesis
      by (auto simp: tc_dns_payload_def port bpf_ntohs_loaded transport_window_def length_read_at)
  qed
qed

lemma tc_dns_locate_spec:
  assumes ok: "skb_ok skb"
  shows "tc_dns_locate H skb = Option.bind (dns_window (skb_data skb)) masked_window"
proof -
  let ?p = "skb_data skb"
  define ihl where "ihl = 4 * (unat (?p ! 14) mod 16)"
  define ihw where "ihw = (ucast (?p ! 14 AND 15) :: u16) * 4"
  have ihl: "unat ihw = ihl" "ihl \<le> 60"
    by (simp_all add: ihl_def ihw_def unat_low_nibble)
  have t: "unat (14 + ihw) = 14 + ihl" "14 + ihl \<le> 74"
    using ihl by (simp_all add: unat_word_ariths)
  have short: "ihw < 20 \<longleftrightarrow> ihl < 20"
    using ihl by (simp add: word_less_nat_alt)
  show ?thesis
    using load_byte [OF ok, of 14] load_byte [OF ok, of 23]
    by (auto simp add: tc_dns_locate_def dns_window_def c_consts Let_def short
        tc_dns_payload_spec [OF ok t] simp flip: ihl_def ihw_def)
qed

lemma tc_locate_None:
  assumes ok: "skb_ok skb" and loc: "tc_dns_locate H skb = None"
  shows "dns_capture (skb_data skb) = None"
proof (cases "dns_window (skb_data skb)")
  case (Some w)
  obtain off n where w: "w = (off, n)" by (cases w)
  have "length (read_at off (n mod 1024) (skb_data skb)) = n mod 1024"
    using dns_window_read [OF Some [unfolded w]] .
  with loc Some w show ?thesis
    by (auto simp: tc_dns_locate_spec [OF ok] dns_capture_def masked_window_def is_response_def
        Let_def split: if_splits)
qed (simp add: dns_capture_def)

lemma tc_locate_Some:
  assumes ok: "skb_ok skb" and loc: "tc_dns_locate H skb = Some (po, pl)"
  obtains off n m where "dns_window (skb_data skb) = Some (off, n)" "unat po = off"
    "m = read_at off (n mod 1024) (skb_data skb)" "unat pl = length m" "length m = n mod 1024"
    "12 \<le> length m" "length m \<le> 512" "skb_load_bytes H skb (ucast po) pl = Some m"
    "dns_capture (skb_data skb) = (if is_response m then Some m else None)"
proof -
  let ?p = "skb_data skb"
  from loc obtain off n where w: "dns_window ?p = Some (off, n)"
    and r: "12 \<le> n mod 1024" "n mod 1024 \<le> 512"
    and po: "po = word_of_nat off" and pl: "pl = word_of_nat (n mod 1024)"
    by (auto simp: tc_dns_locate_spec [OF ok] masked_window_def split: if_splits bind_splits)
  note b = dns_window_bounds [OF w]
  have upo: "unat po = off" unfolding po using b by (simp add: unat_of_nat)
  have upl: "unat pl = n mod 1024" unfolding pl using r by (simp add: unat_of_nat)
  have fits: "off + n mod 1024 \<le> length ?p"
    using b by (simp add: le_trans [OF mod_less_eq_dividend])
  define m where "m = read_at off (n mod 1024) ?p"
  have m: "length m = n mod 1024" unfolding m_def by (rule length_read_at [OF fits])
  have "0 < pl" using upl r by (simp add: word_less_nat_alt)
  then have ld: "skb_load_bytes H skb (ucast po) pl = Some m"
    using load_bytes [OF ok, of pl "ucast po"] r upl upo fits b by (simp add: m_def)
  have "dns_capture ?p = (if is_response m then Some m else None)"
    using r by (simp add: dns_capture_def w m Let_def flip: m_def)
  with w upo m_def upl m r ld show thesis by (auto intro: that)
qed

end

context bpf_kernel
begin

lemma tc_dns_observer_frame:
  assumes "tc_dns_observer H skb k = (r, k')"
  shows "r = TC_ACT_OK" "dests k' = dests k" "proxy k' = proxy k"
    "pending Redirect_Events k' = pending Redirect_Events k"
  using assms
  by (auto simp: tc_dns_observer_def Let_def submit_dests submit_proxy submit_pending
      discard_dests discard_proxy discard_pending reserve_dests reserve_proxy reserve_pending
      split: option.splits prod.splits if_splits)

lemma tc_dns_observer_capture:
  assumes ok: "skb_ok skb" and run: "tc_dns_observer H skb k = (r, k')"
    and res: "ringbuf_reserve H Dns_Events (sizeof dns_event_t) k = (k1, mem)"
  shows "case dns_capture (skb_data skb) of
       None \<Rightarrow> pending Dns_Events k' = pending Dns_Events k
     | Some m \<Rightarrow> if mem = None then pending Dns_Events k' = pending Dns_Events k
         else \<exists>ev. dns_event_for m ev \<and> pending Dns_Events k' = pending Dns_Events k @ [ev]"
proof (cases "tc_dns_locate H skb")
  case None
  with run tc_locate_None [OF ok None] show ?thesis by (simp add: tc_dns_observer_def)
next
  case (Some w)
  obtain po pl where w: "w = (po, pl)" by (cases w)
  from ok Some [unfolded w] obtain off n m where pl: "unat pl = length m"
    and le: "length m \<le> 512" and ld: "skb_load_bytes H skb (ucast po) pl = Some m"
    and cap: "dns_capture (skb_data skb) = (if is_response m then Some m else None)"
    by (rule tc_locate_Some)
  show ?thesis
  proof (cases mem)
    case None
    with run res Some w cap show ?thesis by (auto simp: tc_dns_observer_def reserve_pending)
  next
    case (Some ev)
    let ?e = "write_at 8 m (write_at 0 (le_bytes (ucast pl :: u64)) ev)"
    have len: "length ev = 520" using reserve_size [of Dns_Events _ k k1 ev] res Some by simp
    note wr = dns_event_written [OF len le pl]
    have "length ?e = 520" using wr(1) by (simp add: dns_event_for_def)
    then have "is_valid_dns_response (drop 8 ?e) pl = is_response m"
      using wr(2) pl le by (subst is_valid_dns_response_spec) simp_all
    with run res \<open>tc_dns_locate H skb = Some w\<close> w cap ld Some wr(1) show ?thesis
      by (auto simp: tc_dns_observer_def Let_def submit_pending discard_pending reserve_pending
          split: if_splits)
  qed
qed

end

lemma dns_capture_read:
  assumes "dns_window p = Some (off, n)" "n mod 1024 \<le> 512" "is_response (read_at off (n mod 1024) p)"
  shows "dns_capture p = Some (read_at off (n mod 1024) p)"
  using assms dns_window_read [OF assms(1)] by (simp add: dns_capture_def Let_def)

text \<open>Bytes 12 and 13 and the high half of byte 14 play no part.\<close>

lemma dns_window_any_type:
  assumes "14 < length p" and "unat v mod 16 = unat (p ! 14) mod 16"
  shows "dns_window (p[12 := x, 13 := y, 14 := v]) = dns_window p"
proof -
  have "transport_window proto t (p[12 := x, 13 := y, 14 := v]) = transport_window proto t p" if "34 \<le> t" for proto t
    using that by (simp add: transport_window_def read_at_def Let_def)
  then show ?thesis using assms by (auto simp: dns_window_def Let_def)
qed

lemma dns_capture_any_type:
  assumes "14 < length p" and "unat v mod 16 = unat (p ! 14) mod 16"
  shows "dns_capture (p[12 := x, 13 := y, 14 := v]) = dns_capture p"
  using dns_window_any_type [OF assms] dns_window_bounds(1) [of p]
  by (auto simp: dns_capture_def read_at_def split: option.splits)

subsection \<open>Properties of the TC hook\<close>

text \<open>Frames of the examples: a UDP response with a 12-byte message, and one with 1036 bytes.\<close>

definition example_msg :: bytes where
  "example_msg = [0, 7, 129, 128, 0, 1, 0, 1, 0, 0, 0, 0]"

definition example_frame :: "bytes \<Rightarrow> bytes" where
  "example_frame msg = replicate 12 0 @ [8, 0] @ [69] @ replicate 8 0 @ [17] @ replicate 10 0 @
     [0, 53] @ replicate 6 0 @ msg"

definition example_skb :: "bytes \<Rightarrow> skb" where
  "example_skb msg = \<lparr>skb_len = word_of_nat (length (example_frame msg)),
     skb_data = example_frame msg\<rparr>"

lemma example_skb_ok: "length msg < 2 ^ 16 \<Longrightarrow> skb_ok (example_skb msg)"
  by (simp add: skb_ok_def example_skb_def example_frame_def unat_of_nat unat_word_ariths)

lemma example_payload: "drop 42 (skb_data (example_skb msg)) = msg"
  by (simp add: example_skb_def example_frame_def)

lemma example_window: "msg \<noteq> [] \<Longrightarrow> dns_window (skb_data (example_skb msg)) = Some (42, length msg)"
  by (simp add: dns_window_def transport_window_def example_skb_def example_frame_def nth_append
      nth_Cons' read_at_2 from_be_2)

text \<open>
  C6. Refinement: on any well-formed packet the TC hook lets the packet through, changes no map and
  not the redirect ring, and submits to the DNS ring exactly what the byte-level specification
  \<open>dns_capture\<close> finds: nothing when it finds nothing or the ring is full, otherwise one sample of
  the size of \<^verbatim>\<open>dns_event_t\<close> whose size field and message are those of the captured message.
\<close>

theorem tc_dns_observer_refines:
  assumes "bpf_kernel H pending dests proxy" and "skb_ok skb"
    and "tc_dns_observer H skb k = (r, k')"
    and "ringbuf_reserve H Dns_Events (sizeof dns_event_t) k = (k1, mem)"
  shows "r = TC_ACT_OK \<and> dests k' = dests k \<and> proxy k' = proxy k \<and>
    pending Redirect_Events k' = pending Redirect_Events k \<and>
    (case dns_capture (skb_data skb) of
       None \<Rightarrow> pending Dns_Events k' = pending Dns_Events k
     | Some m \<Rightarrow> if mem = None then pending Dns_Events k' = pending Dns_Events k
         else \<exists>ev. dns_event_for m ev \<and> pending Dns_Events k' = pending Dns_Events k @ [ev])"
  using bpf_kernel.tc_dns_observer_frame [OF assms(1,3)]
    bpf_kernel.tc_dns_observer_capture [OF assms]
  by blast

theorem tc_dns_observer_refines_witness:
  "\<exists>ev. dns_event_for example_msg ev \<and>
    ref_pending Dns_Events (snd (tc_dns_observer ref_helpers (example_skb example_msg) ref_init)) = [ev]"
proof -
  let ?s = "example_skb example_msg"
  have ok: "skb_ok ?s" by code_simp
  have cap: "dns_capture (skb_data ?s) = Some example_msg" by code_simp
  have res: "ringbuf_reserve ref_helpers Dns_Events (sizeof dns_event_t) ref_init =
      (ref_init, Some (replicate 520 0xAA))" by (simp add: ref_init_reserve)
  obtain r k' where run: "tc_dns_observer ref_helpers ?s ref_init = (r, k')" by fastforce
  from tc_dns_observer_refines [OF rk.bpf_kernel_axioms ok run res] run cap
  show ?thesis by simp
qed

text \<open>
  Completeness: a DNS response of at most 512 bytes (over UDP or in the first TCP segment) is
  captured whole, provided the ring has room.
\<close>

lemma tc_dns_response_captured:
  assumes "bpf_kernel H pending dests proxy" and "skb_ok skb"
    and "tc_dns_observer H skb k = (r, k')"
    and "ringbuf_reserve H Dns_Events (sizeof dns_event_t) k = (k1, Some mem)"
    and "dns_window (skb_data skb) = Some (off, n)" and "n \<le> MAX_DNS_MSG_SIZE"
    and "is_response (drop off (skb_data skb))"
  shows "\<exists>ev. dns_event_for (drop off (skb_data skb)) ev \<and>
    pending Dns_Events k' = pending Dns_Events k @ [ev]"
proof -
  have n: "n mod 1024 = n" "n \<le> 512" using assms(6) by (simp_all add: c_consts)
  have "read_at off n (skb_data skb) = drop off (skb_data skb)"
    using dns_window_bounds [OF assms(5)] by (simp add: read_at_def)
  then have "dns_capture (skb_data skb) = Some (drop off (skb_data skb))"
    using dns_capture_read [OF assms(5)] n assms(7) by simp
  with bpf_kernel.tc_dns_observer_capture [OF assms(1-4)] show ?thesis by simp
qed



text \<open>
  C37. The mask that satisfies the verifier is applied before the size check, so the check does not
  reject every message above 512 bytes: a response of 1024 + j bytes with j between 12 and 512
  is submitted as a truncated message of j bytes.
\<close>

theorem tc_oversized_response_truncated:
  assumes "bpf_kernel H pending dests proxy" and "skb_ok skb"
    and "tc_dns_observer H skb k = (r, k')"
    and "ringbuf_reserve H Dns_Events (sizeof dns_event_t) k = (k1, Some mem)"
    and "dns_window (skb_data skb) = Some (off, 1024 + j)"
    and "DNS_HDR_MIN_LEN \<le> j" and "j \<le> MAX_DNS_MSG_SIZE"
    and "is_response (read_at off j (skb_data skb))"
  shows "\<exists>ev. dns_event_for (read_at off j (skb_data skb)) ev \<and>
    pending Dns_Events k' = pending Dns_Events k @ [ev]"
proof -
  have j: "(1024 + j) mod 1024 = j" using assms(7) by (simp add: c_consts)
  have "dns_capture (skb_data skb) = Some (read_at off j (skb_data skb))"
    using dns_capture_read [OF assms(5)] assms(7,8) unfolding j by (simp add: c_consts)
  with bpf_kernel.tc_dns_observer_capture [OF assms(1-4)] show ?thesis by simp
qed

theorem tc_oversized_response_truncated_witness:
  "\<exists>ev. dns_event_for example_msg ev \<and> ref_pending Dns_Events (snd (tc_dns_observer ref_helpers
    (example_skb (example_msg @ replicate 1024 0)) ref_init)) = [ev]"
proof -
  let ?s = "example_skb (example_msg @ replicate 1024 0)"
  have ok: "skb_ok ?s" by (rule example_skb_ok) (simp add: example_msg_def)
  have res: "ringbuf_reserve ref_helpers Dns_Events (sizeof dns_event_t) ref_init =
      (ref_init, Some (replicate 520 0xAA))" by (simp add: ref_init_reserve)
  have win: "dns_window (skb_data ?s) = Some (42, 1024 + 12)"
    by (subst example_window) (simp_all add: example_msg_def)
  have j: "DNS_HDR_MIN_LEN \<le> 12" "12 \<le> MAX_DNS_MSG_SIZE" by code_simp+
  have msg: "read_at 42 12 (skb_data ?s) = example_msg"
    by (simp add: read_at_def example_payload example_msg_def)
  have resp: "is_response (read_at 42 12 (skb_data ?s))" unfolding msg by code_simp
  obtain r k' where run: "tc_dns_observer ref_helpers ?s ref_init = (r, k')" by fastforce
  from tc_oversized_response_truncated [OF rk.bpf_kernel_axioms ok run res win j resp] run msg
  show ?thesis by simp
qed

text \<open>
  C38. The hook looks neither at the EtherType nor at the version field of the IP header: frames that
  differ in these only are treated alike, so a frame of another protocol is parsed as IPv4.
\<close>

theorem tc_ignores_ethertype_and_version:
  assumes "bpf_kernel H pending dests proxy" and "skb_ok skb" and "skb_ok skb'"
    and "skb_data skb' = (skb_data skb)[12 := x, 13 := y, 14 := v]"
    and "14 < length (skb_data skb)" and "unat v mod 16 = unat (skb_data skb ! 14) mod 16"
    and "tc_dns_observer H skb k = (r, k1)" and "tc_dns_observer H skb' k = (r', k1')"
  shows "tc_dns_locate H skb' = tc_dns_locate H skb \<and> dns_capture (skb_data skb') = dns_capture (skb_data skb) \<and>
    length (pending Dns_Events k1') = length (pending Dns_Events k1)"
proof -
  have w: "dns_window (skb_data skb') = dns_window (skb_data skb)"
    unfolding assms(4) by (rule dns_window_any_type [OF assms(5,6)])
  have c: "dns_capture (skb_data skb') = dns_capture (skb_data skb)"
    unfolding assms(4) by (rule dns_capture_any_type [OF assms(5,6)])
  have h: "bpf_local H" by (rule bpf_kernel.axioms(1) [OF assms(1)])
  obtain k2 mem where "ringbuf_reserve H Dns_Events (sizeof dns_event_t) k = (k2, mem)" by fastforce
  from bpf_kernel.tc_dns_observer_capture [OF assms(1,2,7) this]
    bpf_kernel.tc_dns_observer_capture [OF assms(1,3,8) this] c w
  show ?thesis
    by (auto simp: bpf_local.tc_dns_locate_spec [OF h] assms(2,3) split: option.splits if_splits)
qed

theorem tc_ignores_ethertype_and_version_witness:
  "\<exists>skb. skb_data skb = (example_frame example_msg)[12 := 0x86, 13 := 0xDD, 14 := 0x65] \<and>
    tc_dns_locate (ref_helpers :: ref_kernel bpf_helpers) skb = Some (42, 12)"
proof -
  let ?s = "example_skb example_msg"
  let ?t = "?s\<lparr>skb_data := (skb_data ?s)[12 := 0x86, 13 := 0xDD, 14 := 0x65]\<rparr>"
  have ok: "skb_ok ?s" "skb_ok ?t" and l: "14 < length (skb_data ?s)"
    and v: "unat (0x65 :: u8) mod 16 = unat (skb_data ?s ! 14) mod 16"
    and loc: "tc_dns_locate (ref_helpers :: ref_kernel bpf_helpers) ?s = Some (42, 12)" by code_simp+
  have t: "skb_data ?t = (skb_data ?s)[12 := 0x86, 13 := 0xDD, 14 := 0x65]" by simp
  obtain r k1 where r1: "tc_dns_observer ref_helpers ?s ref_init = (r, k1)" by fastforce
  obtain r' k1' where r2: "tc_dns_observer ref_helpers ?t ref_init = (r', k1')" by fastforce
  have "tc_dns_locate (ref_helpers :: ref_kernel bpf_helpers) ?t = Some (42, 12)"
    using tc_ignores_ethertype_and_version [OF rk.bpf_kernel_axioms ok t l v r1 r2, THEN conjunct1] loc by (rule trans)
  moreover have "skb_data ?t = (example_frame example_msg)[12 := 0x86, 13 := 0xDD, 14 := 0x65]" by (simp add: example_skb_def)
  ultimately show ?thesis by blast
qed

end
