(* ===== verification/Connect_Hook.thy ===== *)
theory Connect_Hook
  imports Bpf_Kernel
begin

text \<open>
  The connect hook: \<^verbatim>\<open>cgroup_connect4\<close> of \<^verbatim>\<open>src/bpf/ai_interceptor.c\<close>. Its event is written
  field by field into the reserved memory at the offsets of \<^verbatim>\<open>redirect_event_t\<close>; the fields the
  code does not assign keep what the memory held.
\<close>

subsection \<open>ai\_interceptor.c: the connect hook\<close>

definition put :: "ctype \<Rightarrow> string \<Rightarrow> bytes \<Rightarrow> bytes \<Rightarrow> bytes" where
  "put t f v m = write_at (offsetof t f) v m"

text \<open>The assignments to \<^verbatim>\<open>*ev\<close>, in the order of the source.\<close>

definition fill_redirect_event ::
  "'k bpf_helpers \<Rightarrow> u32 \<Rightarrow> u16 \<Rightarrow> ai_dest_info \<Rightarrow> proxy_cfg \<Rightarrow> 'k \<Rightarrow> bytes \<Rightarrow> bytes" where
  "fill_redirect_event H dst_ip dst_port info proxy k ev =
     (let pid_tgid = get_current_pid_tgid H k;
          ev = put redirect_event_t ''pid'' (le_bytes (ucast pid_tgid :: u32)) ev;
          ev = put redirect_event_t ''tgid'' (le_bytes (ucast (drop_bit 32 pid_tgid) :: u32)) ev;
          ev = put redirect_event_t ''original_ip'' (le_bytes dst_ip) ev;
          ev = put redirect_event_t ''original_port'' (le_bytes dst_port) ev;
          ev = put redirect_event_t ''proxy_ip'' (le_bytes (cfg_ip proxy)) ev;
          ev = put redirect_event_t ''proxy_port'' (le_bytes (cfg_port proxy)) ev;
          ev = put redirect_event_t ''timestamp_ns'' (le_bytes (ktime_get_ns H k)) ev;
          (_, hostname) = probe_read_kernel H
            (read_at (offsetof redirect_event_t ''hostname'') MAX_HOSTNAME_LEN ev)
            MAX_HOSTNAME_LEN (info_hostname info) k;
          ev = put redirect_event_t ''hostname'' hostname ev;
          (_, command) = get_current_comm H
            (read_at (offsetof redirect_event_t ''command'') MAX_COMMAND_SIZE ev) MAX_COMMAND_SIZE k
      in put redirect_event_t ''command'' command ev)"

definition cgroup_connect4 ::
  "'k bpf_helpers \<Rightarrow> sock_addr \<Rightarrow> 'k \<Rightarrow> int \<times> sock_addr \<times> 'k" where
  "cgroup_connect4 H ctx k =
     (let dst_ip = user_ip4 ctx; dst_port = (ucast (user_port ctx) :: u16)
      in case lookup_ai_destinations H dst_ip k of
        (k, None) \<Rightarrow> (1, ctx, k)
      | (k, Some info) \<Rightarrow>
        (case lookup_proxy_config H 0 k of
           (k, None) \<Rightarrow> (1, ctx, k)
         | (k, Some proxy) \<Rightarrow>
           let k = (case ringbuf_reserve H Redirect_Events (sizeof redirect_event_t) k of
                      (k, None) \<Rightarrow> k
                    | (k, Some ev) \<Rightarrow> ringbuf_submit H Redirect_Events
                        (fill_redirect_event H dst_ip dst_port info proxy k ev) k);
               ctx = ctx\<lparr>user_ip4 := cfg_ip proxy\<rparr>;
               ctx = ctx\<lparr>user_port := ucast (cfg_port proxy)\<rparr>
           in (1, ctx, k)))"

subsection \<open>Specification\<close>

text \<open>The decision of the hook, on the contents of the two maps.\<close>

definition redirect :: "proxy_cfg \<Rightarrow> sock_addr \<Rightarrow> sock_addr" where
  "redirect c ctx = ctx\<lparr>user_ip4 := cfg_ip c, user_port := ucast (cfg_port c)\<rparr>"

text \<open>What a submitted sample says, read at the offsets of \<^verbatim>\<open>redirect_event_t\<close>.\<close>

record redirect_event =
  re_pid :: u32
  re_tgid :: u32
  re_original_ip :: u32
  re_original_port :: u16
  re_proxy_ip :: u32
  re_proxy_port :: u16
  re_hostname :: bytes
  re_command :: bytes
  re_timestamp_ns :: u64

definition get :: "ctype \<Rightarrow> string \<Rightarrow> nat \<Rightarrow> bytes \<Rightarrow> bytes" where
  "get t f n m = read_at (offsetof t f) n m"

definition parse_redirect_event :: "bytes \<Rightarrow> redirect_event" where
  "parse_redirect_event ev = \<lparr>
     re_pid = le_word (get redirect_event_t ''pid'' 4 ev),
     re_tgid = le_word (get redirect_event_t ''tgid'' 4 ev),
     re_original_ip = le_word (get redirect_event_t ''original_ip'' 4 ev),
     re_original_port = le_word (get redirect_event_t ''original_port'' 2 ev),
     re_proxy_ip = le_word (get redirect_event_t ''proxy_ip'' 4 ev),
     re_proxy_port = le_word (get redirect_event_t ''proxy_port'' 2 ev),
     re_hostname = get redirect_event_t ''hostname'' 64 ev,
     re_command = get redirect_event_t ''command'' 16 ev,
     re_timestamp_ns = le_word (get redirect_event_t ''timestamp_ns'' 8 ev)\<rparr>"

subsection \<open>Lemmas\<close>

context bpf_local
begin

lemma fill_redirect_event_writes:
  assumes len: "length ev = 248" and host: "length (info_hostname info) = 64"
    and e: "e = fill_redirect_event H ip port info c k ev"
  obtains m1 m2 m3 m4 m5 m6 m7 m8 h d where
    "wrote 0 (le_bytes (ucast (get_current_pid_tgid H k) :: u32)) ev m1"
    "wrote 4 (le_bytes (ucast (drop_bit 32 (get_current_pid_tgid H k)) :: u32)) m1 m2"
    "wrote 8 (le_bytes ip) m2 m3" "wrote 12 (le_bytes port) m3 m4"
    "wrote 16 (le_bytes (cfg_ip c)) m4 m5" "wrote 20 (le_bytes (cfg_port c)) m5 m6"
    "wrote 240 (le_bytes (ktime_get_ns H k)) m6 m7" "wrote 24 h m7 m8" "wrote 88 d m8 e"
    "length h = 64" "length d = 16" "0 \<in> set d"
proof -
  define m1 where "m1 = write_at 0 (le_bytes (ucast (get_current_pid_tgid H k) :: u32)) ev"
  define m2 where "m2 = write_at 4 (le_bytes (ucast (drop_bit 32 (get_current_pid_tgid H k)) :: u32)) m1"
  define m3 where "m3 = write_at 8 (le_bytes ip) m2"
  define m4 where "m4 = write_at 12 (le_bytes port) m3"
  define m5 where "m5 = write_at 16 (le_bytes (cfg_ip c)) m4"
  define m6 where "m6 = write_at 20 (le_bytes (cfg_port c)) m5"
  define m7 where "m7 = write_at 240 (le_bytes (ktime_get_ns H k)) m6"
  have w1: "wrote 0 (le_bytes (ucast (get_current_pid_tgid H k) :: u32)) ev m1"
    unfolding m1_def by (rule wrote_write_at) (simp add: len)
  have w2: "wrote 4 (le_bytes (ucast (drop_bit 32 (get_current_pid_tgid H k)) :: u32)) m1 m2"
    unfolding m2_def by (rule wrote_write_at) (simp add: len wroteD(1) [OF w1])
  have w3: "wrote 8 (le_bytes ip) m2 m3"
    unfolding m3_def by (rule wrote_write_at) (simp add: len wroteD(1) [OF w1] wroteD(1) [OF w2])
  have l3: "length m3 = 248" by (simp add: wroteD(1) [OF w1] wroteD(1) [OF w2] wroteD(1) [OF w3] len)
  have w4: "wrote 12 (le_bytes port) m3 m4"
    unfolding m4_def by (rule wrote_write_at) (simp add: l3)
  have w5: "wrote 16 (le_bytes (cfg_ip c)) m4 m5"
    unfolding m5_def by (rule wrote_write_at) (simp add: l3 wroteD(1) [OF w4])
  have w6: "wrote 20 (le_bytes (cfg_port c)) m5 m6"
    unfolding m6_def by (rule wrote_write_at) (simp add: l3 wroteD(1) [OF w4] wroteD(1) [OF w5])
  have l6: "length m6 = 248" by (simp add: wroteD(1) [OF w4] wroteD(1) [OF w5] wroteD(1) [OF w6] l3)
  have w7: "wrote 240 (le_bytes (ktime_get_ns H k)) m6 m7"
    unfolding m7_def by (rule wrote_write_at) (simp add: l6)
  have l7: "length m7 = 248" by (simp add: wroteD(1) [OF w7] l6)
  obtain ok1 h where h: "probe_read_kernel H (read_at 24 64 m7) 64 (info_hostname info) k = (ok1, h)"
    by fastforce
  have lh: "length h = 64"
    using probe_read_size [OF _ _ h] l7 host by (simp add: length_read_at)
  define m8 where "m8 = write_at 24 h m7"
  have w8: "wrote 24 h m7 m8" unfolding m8_def by (rule wrote_write_at) (simp add: l7 lh)
  have l8: "length m8 = 248" by (simp add: wroteD(1) [OF w8] l7)
  obtain ok2 d where d: "get_current_comm H (read_at 88 16 m8) 16 k = (ok2, d)" by fastforce
  have ld: "length d = 16" "0 \<in> set d"
    using comm_size [OF _ _ d] l8 by (simp_all add: length_read_at)
  have "e = write_at 88 d m8"
    using h d by (simp add: e fill_redirect_event_def put_def Let_def c_consts
        flip: m1_def m2_def m3_def m4_def m5_def m6_def m7_def m8_def)
  then have w9: "wrote 88 d m8 e" by (auto intro: wrote_write_at simp: l8 ld)
  show thesis by (rule that [OF w1 w2 w3 w4 w5 w6 w7 w8 w9 lh ld])
qed

lemma fill_redirect_event_fields:
  assumes "length ev = sizeof redirect_event_t" and "length (info_hostname info) = MAX_HOSTNAME_LEN"
    and "e = fill_redirect_event H ip port info c k ev"
  shows "length e = sizeof redirect_event_t"
    "re_pid (parse_redirect_event e) = ucast (get_current_pid_tgid H k)"
    "re_tgid (parse_redirect_event e) = ucast (drop_bit 32 (get_current_pid_tgid H k))"
    "re_original_ip (parse_redirect_event e) = ip"
    "re_original_port (parse_redirect_event e) = port"
    "re_proxy_ip (parse_redirect_event e) = cfg_ip c"
    "re_proxy_port (parse_redirect_event e) = cfg_port c"
    "re_timestamp_ns (parse_redirect_event e) = ktime_get_ns H k"
    "0 \<in> set (re_command (parse_redirect_event e))"
    "get redirect_event_t ''commandline_len'' 131 e = get redirect_event_t ''commandline_len'' 131 ev"
proof -
  from assms have "length ev = 248" "length (info_hostname info) = 64" by (simp_all add: c_consts)
  from this assms(3) obtain m1 m2 m3 m4 m5 m6 m7 m8 h d where w:
    "wrote 0 (le_bytes (ucast (get_current_pid_tgid H k) :: u32)) ev m1"
    "wrote 4 (le_bytes (ucast (drop_bit 32 (get_current_pid_tgid H k)) :: u32)) m1 m2"
    "wrote 8 (le_bytes ip) m2 m3" "wrote 12 (le_bytes port) m3 m4"
    "wrote 16 (le_bytes (cfg_ip c)) m4 m5" "wrote 20 (le_bytes (cfg_port c)) m5 m6"
    "wrote 240 (le_bytes (ktime_get_ns H k)) m6 m7" "wrote 24 h m7 m8" "wrote 88 d m8 e"
    and l: "length h = 64" "length d = 16" "0 \<in> set d"
    by (rule fill_redirect_event_writes)
  note rd = w [THEN wroteD(1)] w [THEN wroteD(2)] w [THEN wroteD(3)] w [THEN wroteD(4)]
  show "length e = sizeof redirect_event_t" using rd assms(1) by simp
  show "re_pid (parse_redirect_event e) = ucast (get_current_pid_tgid H k)"
    "re_tgid (parse_redirect_event e) = ucast (drop_bit 32 (get_current_pid_tgid H k))"
    "re_original_ip (parse_redirect_event e) = ip"
    "re_original_port (parse_redirect_event e) = port"
    "re_proxy_ip (parse_redirect_event e) = cfg_ip c"
    "re_proxy_port (parse_redirect_event e) = cfg_port c"
    "re_timestamp_ns (parse_redirect_event e) = ktime_get_ns H k"
    "0 \<in> set (re_command (parse_redirect_event e))"
    "get redirect_event_t ''commandline_len'' 131 e = get redirect_event_t ''commandline_len'' 131 ev"
    by (simp_all add: parse_redirect_event_def get_def rd l enc_simps)
qed

end

context bpf_kernel
begin

lemma cgroup_connect4_cases:
  assumes run: "cgroup_connect4 H ctx k = (r, ctx', k')"
  shows "r = 1" "dests k' = dests k" "proxy k' = proxy k"
    "pending Dns_Events k' = pending Dns_Events k"
    "dests k (user_ip4 ctx) = None \<Longrightarrow>
      ctx' = ctx \<and> pending Redirect_Events k' = pending Redirect_Events k"
    "dests k (user_ip4 ctx) = Some info \<Longrightarrow> ctx' = redirect (proxy k) ctx \<and>
      (pending Redirect_Events k' = pending Redirect_Events k \<or>
       (\<exists>ev k2. length ev = sizeof redirect_event_t \<and>
         pending Redirect_Events k' = pending Redirect_Events k @
           [fill_redirect_event H (user_ip4 ctx) (ucast (user_port ctx)) info (proxy k) k2 ev]))"
proof -
  obtain k1 i where l1: "lookup_ai_destinations H (user_ip4 ctx) k = (k1, i)" by fastforce
  obtain k2 c where l2: "lookup_proxy_config H 0 k1 = (k2, c)" by fastforce
  obtain k3 m where l3: "ringbuf_reserve H Redirect_Events (sizeof redirect_event_t) k2 = (k3, m)"
    by fastforce
  note f1 = lookup_dest [OF l1] lookup_dest_frame [OF l1]
  note f2 = lookup_cfg [OF l2] lookup_cfg_frame [OF l2]
  note f3 = reserve_pending [OF l3] reserve_dests [OF l3] reserve_proxy [OF l3]
  note defs = cgroup_connect4_def Let_def l1 l2 l3 redirect_def
    submit_pending submit_dests submit_proxy
  show "r = 1" "dests k' = dests k" "proxy k' = proxy k"
    "pending Dns_Events k' = pending Dns_Events k"
    "dests k (user_ip4 ctx) = None \<Longrightarrow>
      ctx' = ctx \<and> pending Redirect_Events k' = pending Redirect_Events k"
    using run f1 f2 f3
    by (auto simp: defs simp del: sizeof_structs split: option.splits)
  assume s: "dests k (user_ip4 ctx) = Some info"
  show "ctx' = redirect (proxy k) ctx \<and>
      (pending Redirect_Events k' = pending Redirect_Events k \<or>
       (\<exists>ev k2. length ev = sizeof redirect_event_t \<and>
         pending Redirect_Events k' = pending Redirect_Events k @
           [fill_redirect_event H (user_ip4 ctx) (ucast (user_port ctx)) info (proxy k) k2 ev]))"
  proof (cases m)
    case None
    with run f1 f2 f3 s show ?thesis by (auto simp: defs simp del: sizeof_structs)
  next
    case (Some ev)
    have "length ev = sizeof redirect_event_t" by (rule reserve_size [OF l3 [unfolded Some]])
    with run f1 f2 f3 s Some show ?thesis by (fastforce simp: defs simp del: sizeof_structs)
  qed
qed

end

text \<open>A kernel with one AI destination and a configured proxy, for concrete runs.\<close>

definition example_info :: ai_dest_info where
  "example_info = \<lparr>info_hostname = bytes_of ''api.openai.com'' @ replicate 50 0,
     info_timestamp_ns = 7, info_ttl_s = 300\<rparr>"

definition example_ready :: ref_kernel where
  "example_ready = ref_init\<lparr>rk_dests := [(0x2D211268, example_info)],
     rk_proxy := \<lparr>cfg_ip = 0x0500000A, cfg_port = 0xFB20\<rparr>\<rparr>"

definition example_ctx :: "u32 \<Rightarrow> sock_addr" where
  "example_ctx ip = \<lparr>user_family = 2, user_ip4 = ip, user_ip6 = [0, 0, 0, 0], user_port = 0xBB01,
     sa_family = 2, sa_type = 1, sa_protocol = 6, msg_src_ip4 = 0, msg_src_ip6 = [0, 0, 0, 0]\<rparr>"

lemma example_ready_dests:
  "ref_dests example_ready a = (if a = 0x2D211268 then Some example_info else None)"
  "rk_proxy example_ready = \<lparr>cfg_ip = 0x0500000A, cfg_port = 0xFB20\<rparr>"
  by (simp_all add: example_ready_def ref_dests_def)

lemma example_ready_event:
  assumes "cgroup_connect4 ref_helpers (example_ctx 0x2D211268) example_ready = (r, c, k')"
  shows "ref_pending Redirect_Events k' \<noteq> ref_pending Redirect_Events example_ready"
  using assms by (auto simp: cgroup_connect4_def Let_def ref_helpers_def ref_lookup_def
      ref_reserve_def example_ready_def ref_init_def example_ctx_def sample_space_def align_up_def
      redirect_events_def c_consts)

subsection \<open>Properties of the connect hook\<close>

text \<open>
  C7. The hook decides on the destination address alone: a connect to an address in
  \<^verbatim>\<open>ai_destinations\<close> has its address and port replaced by the configured proxy and no other field
  of the context changed, whether or not the event could be queued; any other connect is left
  as it is and emits nothing. The hook always allows the call, and it changes neither map nor
  the DNS ring.
\<close>

theorem cgroup_connect4_decides:
  assumes "bpf_kernel H pending dests proxy" and "cgroup_connect4 H ctx k = (r, ctx', k')"
  shows "r = 1 \<and> dests k' = dests k \<and> proxy k' = proxy k \<and>
    pending Dns_Events k' = pending Dns_Events k \<and>
    ctx' = (if dests k (user_ip4 ctx) = None then ctx else redirect (proxy k) ctx) \<and>
    (dests k (user_ip4 ctx) = None \<longrightarrow>
      pending Redirect_Events k' = pending Redirect_Events k)"
  using bpf_kernel.cgroup_connect4_cases [OF assms] by (cases "dests k (user_ip4 ctx)") auto

theorem cgroup_connect4_decides_witness:
  "\<exists>k'. cgroup_connect4 ref_helpers (example_ctx 0x2D211268) example_ready =
      (1, example_ctx 0x0500000A\<lparr>user_port := 0xFB20\<rparr>, k') \<and> rk_dns k' = []"
proof -
  obtain r c k' where run: "cgroup_connect4 ref_helpers (example_ctx 0x2D211268) example_ready = (r, c, k')"
    by (metis prod_cases3)
  have "rk_dns example_ready = []" by (simp add: example_ready_def ref_init_def)
  with cgroup_connect4_decides [OF rk.bpf_kernel_axioms run] run show ?thesis
    by (simp add: example_ready_dests redirect_def example_ctx_def)
qed

text \<open>
  C12. Every event the hook submits has the size of \<^verbatim>\<open>redirect_event_t\<close> and names the original
  address and port of the connect, the configured proxy, the two halves of
  \<^verbatim>\<open>bpf_get_current_pid_tgid\<close> and the time, with a NUL-terminated command; at most one event is
  submitted per call.
\<close>

theorem cgroup_connect4_event:
  assumes "bpf_kernel H pending dests proxy" and "cgroup_connect4 H ctx k = (r, ctx', k')"
    and "dests k (user_ip4 ctx) = Some info" and "length (info_hostname info) = MAX_HOSTNAME_LEN"
    and "pending Redirect_Events k' \<noteq> pending Redirect_Events k"
  shows "\<exists>ev k2. pending Redirect_Events k' = pending Redirect_Events k @ [ev] \<and>
    length ev = sizeof redirect_event_t \<and>
    re_original_ip (parse_redirect_event ev) = user_ip4 ctx \<and>
    re_original_port (parse_redirect_event ev) = ucast (user_port ctx) \<and>
    re_proxy_ip (parse_redirect_event ev) = cfg_ip (proxy k) \<and>
    re_proxy_port (parse_redirect_event ev) = cfg_port (proxy k) \<and>
    re_pid (parse_redirect_event ev) = ucast (get_current_pid_tgid H k2) \<and>
    re_tgid (parse_redirect_event ev) = ucast (drop_bit 32 (get_current_pid_tgid H k2)) \<and>
    re_timestamp_ns (parse_redirect_event ev) = ktime_get_ns H k2 \<and>
    0 \<in> set (re_command (parse_redirect_event ev))"
proof -
  from bpf_kernel.cgroup_connect4_cases(6) [OF assms(1-3)] assms(5) obtain ev k2
    where len: "length ev = sizeof redirect_event_t"
      and app: "pending Redirect_Events k' = pending Redirect_Events k @
        [fill_redirect_event H (user_ip4 ctx) (ucast (user_port ctx)) info (proxy k) k2 ev]"
    by blast
  note fields = bpf_local.fill_redirect_event_fields [OF bpf_kernel.axioms(1) [OF assms(1)] len assms(4) refl,
      of "user_ip4 ctx" "ucast (user_port ctx)" "proxy k" k2]
  show ?thesis
    by (rule exI, rule exI [of _ k2], intro conjI, rule app) (fact fields(1-9))+
qed

theorem cgroup_connect4_event_witness:
  "\<exists>ev. rk_redirect (snd (snd (cgroup_connect4 ref_helpers (example_ctx 0x2D211268) example_ready))) = [ev] \<and>
    re_original_ip (parse_redirect_event ev) = 0x2D211268 \<and>
    re_proxy_ip (parse_redirect_event ev) = 0x0500000A"
proof -
  let ?run = "cgroup_connect4 ref_helpers (example_ctx 0x2D211268) example_ready"
  obtain r c k' where run: "?run = (r, c, k')" by (metis prod_cases3)
  have d: "ref_dests example_ready (user_ip4 (example_ctx 0x2D211268)) = Some example_info"
    by (simp add: example_ready_dests example_ctx_def)
  have h: "length (info_hostname example_info) = MAX_HOSTNAME_LEN" by code_simp
  have n: "ref_pending Redirect_Events k' \<noteq> ref_pending Redirect_Events example_ready"
    by (rule example_ready_event [OF run])
  have e: "rk_redirect example_ready = []"
    by (simp add: example_ready_def ref_init_def)
  from cgroup_connect4_event [OF rk.bpf_kernel_axioms run d h n] run show ?thesis
    by (auto simp: e example_ready_dests example_ctx_def)
qed

text \<open>
  C40. The hook never assigns \<^verbatim>\<open>commandline_len\<close> and \<^verbatim>\<open>commandline\<close>: in every event these bytes are
  what the reserved ring memory held before.
\<close>

theorem redirect_event_commandline_unset:
  assumes "bpf_local H" and "length ev = sizeof redirect_event_t"
    and "length (info_hostname info) = MAX_HOSTNAME_LEN"
  shows "get redirect_event_t ''commandline_len'' (4 + MAX_COMMANDLINE_SIZE)
      (fill_redirect_event H ip port info c k ev) =
    get redirect_event_t ''commandline_len'' (4 + MAX_COMMANDLINE_SIZE) ev"
  using bpf_local.fill_redirect_event_fields(10) [OF assms refl] by (simp add: c_consts)

theorem redirect_event_commandline_unset_witness:
  "get redirect_event_t ''commandline_len'' (4 + MAX_COMMANDLINE_SIZE)
      (fill_redirect_event ref_helpers 1 2 example_info (rk_proxy ref_init) ref_init (replicate 248 0xAA)) =
    replicate 131 0xAA"
proof -
  have l: "length (replicate 248 (0xAA :: u8)) = sizeof redirect_event_t" by simp
  have h: "length (info_hostname example_info) = MAX_HOSTNAME_LEN" by code_simp
  have "get redirect_event_t ''commandline_len'' (4 + MAX_COMMANDLINE_SIZE) (replicate 248 0xAA) =
      replicate 131 0xAA"
    by (simp add: get_def read_at_def c_consts)
  then show ?thesis
    using redirect_event_commandline_unset [OF rk.bpf_local_axioms l h] by simp
qed

end
