(* ===== verification/Go_Std.thy ===== *)
theory Go_Std
  imports Endian "HOL-Library.Sublist"
begin

text \<open>
  The functions of Go's standard library that the agent and the test proxy call, as the library
  defines them: \<^verbatim>\<open>strings.HasSuffix\<close>, \<^verbatim>\<open>strings.TrimSuffix\<close>, and of package \<^verbatim>\<open>net\<close> the
  methods \<^verbatim>\<open>To4\<close> and \<^verbatim>\<open>String\<close> of \<^verbatim>\<open>net.IP\<close> and \<^verbatim>\<open>net.ParseIP\<close>. A Go string is a
  byte sequence, here a \<open>string\<close>; a \<^verbatim>\<open>net.IP\<close> is its bytes.
\<close>

subsection \<open>Package strings\<close>

definition HasSuffix :: "string \<Rightarrow> string \<Rightarrow> bool" where
  "HasSuffix s suf \<longleftrightarrow> length suf \<le> length s \<and> drop (length s - length suf) s = suf"

definition TrimSuffix :: "string \<Rightarrow> string \<Rightarrow> string" where
  "TrimSuffix s suf = (if HasSuffix s suf then take (length s - length suf) s else s)"

lemma HasSuffix_iff: "HasSuffix s suf \<longleftrightarrow> suffix suf s"
  by (auto simp: HasSuffix_def suffix_def) (metis append_take_drop_id)

lemma TrimSuffix_append [simp]: "TrimSuffix (s @ suf) suf = s"
  by (simp add: TrimSuffix_def HasSuffix_def)

lemma TrimSuffix_other: "\<not> suffix suf s \<Longrightarrow> TrimSuffix s suf = s"
  by (simp add: TrimSuffix_def HasSuffix_iff)

subsection \<open>Package net: addresses\<close>

definition To4 :: "bytes \<Rightarrow> bytes option" where
  "To4 ip = (if length ip = 4 then Some ip
     else if length ip = 16 \<and> take 10 ip = replicate 10 0 \<and> ip ! 10 = 0xff \<and> ip ! 11 = 0xff
          then Some (drop 12 ip) else None)"

lemma To4_length: "To4 ip = Some ip4 \<Longrightarrow> length ip4 = 4"
  by (auto simp: To4_def split: if_splits)

definition digit :: "nat \<Rightarrow> char" where
  "digit d = char_of (48 + d)"

definition dec_byte :: "u8 \<Rightarrow> string" where
  "dec_byte b = (let n = unat b in
     if n < 10 then [digit n]
     else if n < 100 then [digit (n div 10), digit (n mod 10)]
     else [digit (n div 100), digit (n div 10 mod 10), digit (n mod 10)])"

text \<open>\<^verbatim>\<open>IP.String\<close> on four bytes.\<close>

definition IP_String4 :: "bytes \<Rightarrow> string" where
  "IP_String4 b = dec_byte (b ! 0) @ ''.'' @ dec_byte (b ! 1) @ ''.'' @ dec_byte (b ! 2) @ ''.'' @
     dec_byte (b ! 3)"

subsection \<open>net.ParseIP\<close>

definition is_digit :: "char \<Rightarrow> bool" where
  "is_digit c \<longleftrightarrow> 48 \<le> (of_char c :: nat) \<and> (of_char c :: nat) \<le> 57"

text \<open>
  \<^verbatim>\<open>parseIPv4Fields\<close>: the loop over the string, with the value and the number of digits of the
  current field, the fields already stored, and whether the previous character was a dot (true at
  the start, where a dot is refused too).
\<close>

fun parse_v4 :: "string \<Rightarrow> nat \<Rightarrow> nat \<Rightarrow> bytes \<Rightarrow> bool \<Rightarrow> bytes option" where
  "parse_v4 [] val digLen fields dot =
     (if length fields < 3 then None else Some (fields @ [word_of_nat val]))"
| "parse_v4 (c # s) val digLen fields dot =
     (if is_digit c then
        if digLen = 1 \<and> val = 0 then None
        else let val = val * 10 + (of_char c - 48)
             in if 255 < val then None else parse_v4 s val (digLen + 1) fields False
      else if c = CHR ''.'' then
        if dot \<or> s = [] then None
        else if length fields = 3 then None
        else parse_v4 s 0 0 (fields @ [word_of_nat val]) True
      else None)"

definition parseIPv4 :: "string \<Rightarrow> bytes option" where
  "parseIPv4 s = parse_v4 s 0 0 [] True"

definition hex_val :: "char \<Rightarrow> nat option" where
  "hex_val c = (let n = of_char c :: nat in
     if 48 \<le> n \<and> n \<le> 57 then Some (n - 48)
     else if 97 \<le> n \<and> n \<le> 102 then Some (n - 97 + 10)
     else if 65 \<le> n \<and> n \<le> 70 then Some (n - 65 + 10)
     else None)"

text \<open>One hexadecimal group: its value, its length and the rest; \<open>None\<close> for too many digits.\<close>

fun parse_group :: "string \<Rightarrow> nat \<Rightarrow> nat \<Rightarrow> (nat \<times> nat \<times> string) option" where
  "parse_group [] off acc = Some (acc, off, [])"
| "parse_group (c # s) off acc = (case hex_val c of
     None \<Rightarrow> Some (acc, off, c # s)
   | Some d \<Rightarrow> if 3 < off then None else parse_group s (off + 1) (acc * 16 + d))"

text \<open>
  The main loop of \<^verbatim>\<open>parseIPv6\<close>, on the bytes stored so far and the position of the ellipsis. The
  result is the stored bytes, the ellipsis and what is left of the string.
\<close>

function parse_v6_groups :: "string \<Rightarrow> bytes \<Rightarrow> nat option \<Rightarrow> (bytes \<times> nat option \<times> string) option" where
  "parse_v6_groups s ip ell =
     (if 16 \<le> length ip then Some (ip, ell, s) else
      case parse_group s 0 0 of
        None \<Rightarrow> None
      | Some (acc, off, rest) \<Rightarrow>
        if off = 0 then None
        else if rest \<noteq> [] \<and> hd rest = CHR ''.'' then
          if ell = None \<and> length ip \<noteq> 12 then None
          else if 16 < length ip + 4 then None
          else (case parseIPv4 s of None \<Rightarrow> None | Some v4 \<Rightarrow> Some (ip @ v4, ell, []))
        else let ip = ip @ [word_of_nat (acc div 256), word_of_nat acc] in
          if rest = [] then Some (ip, ell, [])
          else if hd rest \<noteq> CHR '':'' then None
          else let s = tl rest in
            if s = [] then None
            else if hd s = CHR '':'' then
              if ell \<noteq> None then None
              else if tl s = [] then Some (ip, Some (length ip), [])
              else parse_v6_groups (tl s) ip (Some (length ip))
            else parse_v6_groups s ip ell)"
  by pat_completeness auto
termination
  by (relation "measure (\<lambda>(s, ip, ell). 16 - length ip)") auto

declare parse_v6_groups.simps [simp del]

definition parseIPv6 :: "string \<Rightarrow> bytes option" where
  "parseIPv6 s =
     (let (s, ell) = (if take 2 s = ''::'' then (drop 2 s, Some 0) else (s, None))
      in if ell = Some 0 \<and> s = [] then Some (replicate 16 0)
         else case parse_v6_groups s [] ell of
           None \<Rightarrow> None
         | Some (ip, ell, rest) \<Rightarrow>
             if rest \<noteq> [] then None
             else if length ip < 16 then
               (case ell of
                  None \<Rightarrow> None
                | Some e \<Rightarrow> Some (take e ip @ replicate (16 - length ip) 0 @ drop e ip))
             else if ell \<noteq> None then None else Some ip)"

text \<open>
  \<^verbatim>\<open>net.ParseIP\<close> is \<^verbatim>\<open>netip.ParseAddr\<close>, with an address that has a zone refused, in the 16-byte
  form: the first of the characters dot, colon and percent selects the parser. An address with a
  percent sign after a colon has a zone or an empty zone and is refused either way.
\<close>

fun first_mark :: "string \<Rightarrow> char option" where
  "first_mark [] = None"
| "first_mark (c # s) = (if c \<in> {CHR ''.'', CHR '':'', CHR ''%''} then Some c else first_mark s)"

definition ParseIP :: "string \<Rightarrow> bytes option" where
  "ParseIP s = (case first_mark s of
     None \<Rightarrow> None
   | Some c \<Rightarrow>
       if c = CHR ''.'' then map_option (\<lambda>v4. replicate 10 0 @ [0xff, 0xff] @ v4) (parseIPv4 s)
       else if c = CHR '':'' then (if CHR ''%'' \<in> set s then None else parseIPv6 s)
       else None)"

subsection \<open>Lemmas\<close>

lemma parse_v4_length: "parse_v4 s v d fs dot = Some r \<Longrightarrow> length fs \<le> 3 \<Longrightarrow> length r = 4"
  by (induction s v d fs dot rule: parse_v4.induct) (auto simp: Let_def split: if_splits)

lemma parseIPv4_length: "parseIPv4 s = Some r \<Longrightarrow> length r = 4"
  by (auto simp: parseIPv4_def dest: parse_v4_length)

lemma of_char_digit: "d < 10 \<Longrightarrow> of_char (digit d) = 48 + d"
  by (simp add: digit_def of_char_of)

lemma is_digit_digit: "d < 10 \<Longrightarrow> is_digit (digit d)"
  by (simp add: is_digit_def of_char_digit)

lemma parse_v4_digit:
  assumes "d < 10" "\<not> (k = 1 \<and> v = 0)" "v * 10 + d \<le> 255"
  shows "parse_v4 (digit d # s) v k fs dot = parse_v4 s (v * 10 + d) (k + 1) fs False"
  using assms by (auto simp add: is_digit_digit of_char_digit Let_def)

lemma parse_v4_dec_byte:
  "\<exists>k. parse_v4 (dec_byte x @ s) 0 0 fs dot = parse_v4 s (unat x) k fs False"
proof -
  have n: "unat x < 256" using unsigned_less [where w = x] by simp
  let ?n = "unat x"
  consider "?n < 10" | "10 \<le> ?n" "?n < 100" | "100 \<le> ?n" by linarith
  then show ?thesis
  proof cases
    case 1
    then show ?thesis by (auto simp: dec_byte_def Let_def parse_v4_digit simp del: parse_v4.simps)
  next
    case 2
    then have "0 < ?n div 10" "?n div 10 * 10 + ?n mod 10 = ?n" by simp_all
    with 2 show ?thesis
      by (auto simp: dec_byte_def Let_def parse_v4_digit simp del: parse_v4.simps)
  next
    case 3
    have q: "0 < ?n div 100" "?n div 100 < 10" using 3 n by simp_all
    have e: "?n div 100 * 10 + ?n div 10 mod 10 = ?n div 10"
      using div_mult2_eq [of ?n 10 10] by simp
    have e2: "?n div 10 * 10 + ?n mod 10 = ?n" by simp
    show ?thesis
      using 3 n q e e2
      by (auto simp: dec_byte_def Let_def parse_v4_digit mult.commute simp del: parse_v4.simps)
  qed
qed

lemma parse_v4_field:
  "s \<noteq> [] \<Longrightarrow> length fs < 3 \<Longrightarrow>
   parse_v4 (dec_byte x @ CHR ''.'' # s) 0 0 fs dot = parse_v4 s 0 0 (fs @ [x]) True"
  using parse_v4_dec_byte [of x "CHR ''.'' # s" fs dot] by (auto simp: is_digit_def)

lemma dec_byte_not_Nil [simp]: "dec_byte b \<noteq> []"
  by (simp add: dec_byte_def Let_def)

lemma parseIPv4_String4: "parseIPv4 (IP_String4 [a, b, c, d]) = Some [a, b, c, d]"
  using parse_v4_dec_byte [of d "[]" "[a, b, c]" True]
  by (auto simp: parseIPv4_def IP_String4_def parse_v4_field)

lemma first_mark_dec: "first_mark (dec_byte x @ CHR ''.'' # s) = Some CHR ''.''"
proof -
  have "digit d \<notin> {CHR ''.'', CHR '':'', CHR ''%''}" if "d < 10" for d
  proof
    assume "digit d \<in> {CHR ''.'', CHR '':'', CHR ''%''}"
    then have "of_char (digit d) \<in> {46 :: nat, 58, 37}" by auto
    with that show False by (simp add: of_char_digit)
  qed
  moreover have "unat x < 256" using unsigned_less [where w = x] by simp
  ultimately show ?thesis by (simp add: dec_byte_def Let_def)
qed

lemma ParseIP_String4:
  assumes "length b = 4"
  shows "Option.bind (ParseIP (IP_String4 b)) To4 = Some b"
proof -
  obtain w x y z where b: "b = [w, x, y, z]"
    using assms by (auto simp: numeral_eq_Suc length_Suc_conv)
  have "first_mark (IP_String4 b) = Some CHR ''.''"
    by (simp add: IP_String4_def first_mark_dec)
  then show ?thesis
    using parseIPv4_String4 [of w x y z] by (simp add: ParseIP_def To4_def b nth_append)
qed

end
