(* ===== verification/Dns_Service.thy ===== *)
theory Dns_Service
  imports Bpf_Kernel Go_Std
begin

text \<open>
  The DNS service of the agent, \<^verbatim>\<open>src/src/internal/bpf/dns/service.go\<close>: matching of host names
  against the AI domains, following CNAME records in one pass over the answer section, and
  writing the resolved IPv4 addresses into \<^verbatim>\<open>ai_destinations\<close>. The wire-format parser
  \<^verbatim>\<open>dns.Msg.Unpack\<close> belongs to a third-party package: it is the argument \<open>unpack\<close>. The debug log
  calls have no effect on the state and are left out.
\<close>

subsection \<open>ai/domains.go\<close>

definition DefaultAIDomains :: "string list" where
  "DefaultAIDomains =
     [''openai.com'',
      ''anthropic.com'',
      ''generativelanguage.googleapis.com'',
      ''aiplatform.googleapis.com'',
      ''perplexity.ai'',
      ''deepseek.com'']"

subsection \<open>Resource records\<close>

text \<open>Owner name, time to live and data of the records of \<^verbatim>\<open>msg.Answer\<close>.\<close>

datatype rr =
    RR_A string u32 bytes
  | RR_CNAME string u32 string
  | RR_Other string u32

type_synonym unpacker = "bytes \<Rightarrow> rr list option"

subsection \<open>service.go\<close>

fun isAIDomain :: "string list \<Rightarrow> string \<Rightarrow> bool" where
  "isAIDomain [] hostname = False"
| "isAIDomain (suf # AIDomains) hostname =
     (if hostname = suf \<or> HasSuffix hostname (''.'' @ suf) then True
      else isAIDomain AIDomains hostname)"

text \<open>The first loop of \<^verbatim>\<open>ProcessDNSEvent\<close>: from CNAME targets to original AI host names.\<close>

fun cname_loop :: "string list \<Rightarrow> rr list \<Rightarrow> (string \<rightharpoonup> string) \<Rightarrow> (string \<rightharpoonup> string)" where
  "cname_loop D [] aiCNAMEs = aiCNAMEs"
| "cname_loop D (RR_CNAME name ttl target # rrs) aiCNAMEs =
     (let src = TrimSuffix name ''.''; tgt = TrimSuffix target ''.''
      in if isAIDomain D src then cname_loop D rrs (aiCNAMEs(tgt \<mapsto> src))
         else case aiCNAMEs src of
           Some origin \<Rightarrow> cname_loop D rrs (aiCNAMEs(tgt \<mapsto> origin))
         | None \<Rightarrow> cname_loop D rrs aiCNAMEs)"
| "cname_loop D (_ # rrs) aiCNAMEs = cname_loop D rrs aiCNAMEs"

text \<open>The loop of \<^verbatim>\<open>writeDestination\<close> that copies the host name into the fixed-size field.\<close>

function copy_hostname :: "string \<Rightarrow> nat \<Rightarrow> bytes \<Rightarrow> bytes" where
  "copy_hostname hostname i field =
     (if i < length hostname \<and> i < length field
      then copy_hostname hostname (i + 1) (field[i := of_char (hostname ! i)])
      else field)"
  by pat_completeness auto
termination
  by (relation "measure (\<lambda>(h, i, f). length h - i)") auto

declare copy_hostname.simps [simp del]

definition writeDestination :: "'k agent_ops \<Rightarrow> bytes \<Rightarrow> string \<Rightarrow> u32 \<Rightarrow> 'k \<Rightarrow> 'k" where
  "writeDestination A ip4 hostname ttl k =
     (let key = the (NativeEndian_Uint32 ip4);
          info = \<lparr>info_hostname = copy_hostname hostname 0 (replicate 64 0),
            info_timestamp_ns = time_now A k, info_ttl_s = ttl\<rparr>
      in fst (update_ai_destinations A key info k))"

text \<open>
  The second loop. A Go map yields the empty string for a missing key, so the second case of the
  switch asks for a non-empty value.
\<close>

definition ai_hostname :: "string list \<Rightarrow> (string \<rightharpoonup> string) \<Rightarrow> string \<Rightarrow> string option" where
  "ai_hostname D aiCNAMEs name =
     (if isAIDomain D name then Some name
      else case aiCNAMEs name of
        Some origin \<Rightarrow> if origin \<noteq> '''' then Some origin else None
      | None \<Rightarrow> None)"

fun a_loop :: "'k agent_ops \<Rightarrow> string list \<Rightarrow> (string \<rightharpoonup> string) \<Rightarrow> rr list \<Rightarrow> 'k \<Rightarrow> 'k" where
  "a_loop A D aiCNAMEs [] k = k"
| "a_loop A D aiCNAMEs (RR_A name ttl ip # rrs) k =
     (case To4 ip of
        None \<Rightarrow> a_loop A D aiCNAMEs rrs k
      | Some ip4 \<Rightarrow>
        (case ai_hostname D aiCNAMEs (TrimSuffix name ''.'') of
           None \<Rightarrow> a_loop A D aiCNAMEs rrs k
         | Some aiHostname \<Rightarrow> a_loop A D aiCNAMEs rrs (writeDestination A ip4 aiHostname ttl k)))"
| "a_loop A D aiCNAMEs (_ # rrs) k = a_loop A D aiCNAMEs rrs k"

text \<open>The result says whether \<^verbatim>\<open>ProcessDNSEvent\<close> returned without an error.\<close>

definition ProcessDNSEvent ::
  "'k agent_ops \<Rightarrow> unpacker \<Rightarrow> string list \<Rightarrow> bytes \<Rightarrow> 'k \<Rightarrow> 'k \<times> bool" where
  "ProcessDNSEvent A unpack D rawMsg k = (case unpack rawMsg of
     None \<Rightarrow> (k, False)
   | Some answer \<Rightarrow> (a_loop A D (cname_loop D answer Map.empty) answer k, True))"

subsection \<open>Specification\<close>

text \<open>
  \<open>via_cname D answer host name\<close>: following CNAME records of the answer, in whatever order they
  stand there, leads from the AI host \<open>host\<close> to \<open>name\<close>.
\<close>

inductive via_cname :: "string list \<Rightarrow> rr list \<Rightarrow> string \<Rightarrow> string \<Rightarrow> bool" for D answer where
  via_start: "RR_CNAME name ttl target \<in> set answer \<Longrightarrow> isAIDomain D (TrimSuffix name ''.'') \<Longrightarrow>
     via_cname D answer (TrimSuffix name ''.'') (TrimSuffix target ''.'')"
| via_step: "via_cname D answer host (TrimSuffix name ''.'') \<Longrightarrow> RR_CNAME name ttl target \<in> set answer \<Longrightarrow>
     via_cname D answer host (TrimSuffix target ''.'')"

text \<open>The addresses an answer resolves AI host names to: address, host name and time to live.\<close>

inductive ai_resolution :: "string list \<Rightarrow> rr list \<Rightarrow> bytes \<Rightarrow> string \<Rightarrow> u32 \<Rightarrow> bool" for D answer where
  res_direct: "RR_A name ttl ip \<in> set answer \<Longrightarrow> To4 ip = Some ip4 \<Longrightarrow>
     isAIDomain D (TrimSuffix name ''.'') \<Longrightarrow> ai_resolution D answer ip4 (TrimSuffix name ''.'') ttl"
| res_alias: "RR_A name ttl ip \<in> set answer \<Longrightarrow> To4 ip = Some ip4 \<Longrightarrow>
     via_cname D answer host (TrimSuffix name ''.'') \<Longrightarrow> ai_resolution D answer ip4 host ttl"

text \<open>The addresses the code writes, in order.\<close>

fun bindings :: "string list \<Rightarrow> (string \<rightharpoonup> string) \<Rightarrow> rr list \<Rightarrow> (bytes \<times> string \<times> u32) list" where
  "bindings D m [] = []"
| "bindings D m (RR_A name ttl ip # rrs) =
     (case To4 ip of
        None \<Rightarrow> bindings D m rrs
      | Some ip4 \<Rightarrow>
        (case ai_hostname D m (TrimSuffix name ''.'') of
           None \<Rightarrow> bindings D m rrs
         | Some h \<Rightarrow> (ip4, h, ttl) # bindings D m rrs))"
| "bindings D m (_ # rrs) = bindings D m rrs"

definition answer_bindings :: "string list \<Rightarrow> rr list \<Rightarrow> (bytes \<times> string \<times> u32) list" where
  "answer_bindings D answer = bindings D (cname_loop D answer Map.empty) answer"

definition hostname_field :: "string \<Rightarrow> bytes" where
  "hostname_field h = take 64 (bytes_of h) @ replicate (64 - length h) 0"

subsection \<open>Lemmas\<close>

lemma isAIDomain_iff:
  "isAIDomain D h \<longleftrightarrow> (\<exists>s \<in> set D. h = s \<or> (\<exists>p. h = p @ ''.'' @ s))"
  by (induction D) (auto simp: HasSuffix_iff suffix_def)

lemma copy_hostname_nth:
  "length (copy_hostname h i f) = length f \<and>
   (\<forall>j < length f. copy_hostname h i f ! j = (if i \<le> j \<and> j < length h then of_char (h ! j) else f ! j))"
proof (induction h i f rule: copy_hostname.induct)
  case (1 h i f)
  show ?case
  proof (cases "i < length h \<and> i < length f")
    case True
    then show ?thesis using "1" by (auto simp: copy_hostname.simps [of h i f] nth_list_update)
  next
    case False
    then show ?thesis by (auto simp: copy_hostname.simps [of h i f])
  qed
qed

lemma length_hostname_field [simp]: "length (hostname_field h) = 64"
  by (simp add: hostname_field_def)

lemma copy_hostname_field: "copy_hostname h 0 (replicate 64 0) = hostname_field h"
proof (rule nth_equalityI)
  show "length (copy_hostname h 0 (replicate 64 0)) = length (hostname_field h)"
    by (simp add: copy_hostname_nth)
  fix j assume "j < length (copy_hostname h 0 (replicate 64 0))"
  then have "j < 64" by (simp add: copy_hostname_nth)
  then show "copy_hostname h 0 (replicate 64 0) ! j = hostname_field h ! j"
    using copy_hostname_nth [of h 0 "replicate 64 0"]
    by (auto simp: hostname_field_def nth_append bytes_of_def min_def)
qed

lemma via_cname_ai: "via_cname D answer h x \<Longrightarrow> isAIDomain D h"
  by (induction rule: via_cname.induct) auto

lemma cname_loop_sound:
  assumes "set rrs \<subseteq> set answer" and "\<And>x h. m x = Some h \<Longrightarrow> via_cname D answer h x"
    and "cname_loop D rrs m x = Some h"
  shows "via_cname D answer h x"
  using assms
proof (induction D rrs m rule: cname_loop.induct)
  case (2 D name ttl target rrs m)
  let ?s = "TrimSuffix name ''.''" and ?t = "TrimSuffix target ''.''"
  have mem: "RR_CNAME name ttl target \<in> set answer" using "2.prems"(1) by simp
  have sub: "set rrs \<subseteq> set answer" using "2.prems"(1) by simp
  consider (ai) "isAIDomain D ?s"
    | (chained) og where "\<not> isAIDomain D ?s" "m ?s = Some og"
    | (none) "\<not> isAIDomain D ?s" "m ?s = None"
    by (cases "m ?s") auto
  then show ?case
  proof cases
    case ai
    have "via_cname D answer ?s ?t" using mem ai by (rule via_start)
    then have inv: "\<And>y h. (m(?t \<mapsto> ?s)) y = Some h \<Longrightarrow> via_cname D answer h y"
      using "2.prems"(2) by (auto split: if_splits)
    show ?thesis using "2.IH"(1) [OF refl refl ai sub inv] "2.prems"(3) ai by (simp add: fun_upd_def)
  next
    case chained
    have "via_cname D answer og ?t" using "2.prems"(2) [OF chained(2)] mem by (rule via_step)
    then have inv: "\<And>y h. (m(?t \<mapsto> og)) y = Some h \<Longrightarrow> via_cname D answer h y"
      using "2.prems"(2) by (auto split: if_splits)
    show ?thesis using "2.IH"(3) [OF refl refl chained sub inv] "2.prems"(3) chained by (simp add: fun_upd_def)
  next
    case none
    with "2.IH"(2) "2.prems" sub show ?thesis by simp
  qed
qed auto

lemma cname_loop_dom: "dom m \<subseteq> dom (cname_loop D rrs m)"
proof (induction rrs arbitrary: m)
  case (Cons r rrs)
  have "dom m \<subseteq> dom (cname_loop D rrs (m(t \<mapsto> v)))" for t v
  proof -
    have "dom m \<subseteq> dom (m(t \<mapsto> v))" by auto
    also have "\<dots> \<subseteq> dom (cname_loop D rrs (m(t \<mapsto> v)))" by (rule Cons.IH)
    finally show ?thesis .
  qed
  with Cons.IH [of m] show ?case
    by (cases r) (auto simp: Let_def simp del: fun_upd_apply split: option.splits)
qed simp

text \<open>
  A chain in the order of the answer: \<open>linked s cs x\<close> follows the CNAME records \<open>cs\<close> one after
  the other from \<open>s\<close> to \<open>x\<close>.
\<close>

fun linked :: "string \<Rightarrow> rr list \<Rightarrow> string \<Rightarrow> bool" where
  "linked s [] x \<longleftrightarrow> s = x"
| "linked s (RR_CNAME name ttl target # cs) x \<longleftrightarrow>
     TrimSuffix name ''.'' = s \<and> linked (TrimSuffix target ''.'') cs x"
| "linked s (_ # cs) x \<longleftrightarrow> False"

lemma cname_loop_linked:
  "subseq cs rrs \<Longrightarrow> linked s cs x \<Longrightarrow> s \<in> dom m \<or> isAIDomain D s \<and> cs \<noteq> [] \<Longrightarrow>
   x \<in> dom (cname_loop D rrs m)"
proof (induction rrs arbitrary: cs s m)
  case Nil
  then have "cs = []" by simp
  with Nil show ?case by simp
next
  case (Cons r rrs)
  show ?case
  proof (cases cs)
    case Nil
    with Cons.prems show ?thesis using cname_loop_dom [of m D "r # rrs"] by auto
  next
    case cs: (Cons c cs')
    show ?thesis
    proof (cases "c = r \<and> subseq cs' rrs")
      case True
      with Cons.prems cs obtain name ttl target where r: "r = RR_CNAME name ttl target"
        and s: "TrimSuffix name ''.'' = s" and l: "linked (TrimSuffix target ''.'') cs' x"
        by (cases r) auto
      have "x \<in> dom (cname_loop D rrs (m(TrimSuffix target ''.'' \<mapsto> v)))" for v
        by (rule Cons.IH [OF _ l]) (use True in auto)
      then show ?thesis
        using Cons.prems(3) s unfolding domIff by (auto simp: r Let_def)
    next
      case False
      with Cons.prems cs have sub: "subseq cs rrs" by (auto simp: subseq_Cons2_iff split: if_splits)
      show ?thesis
      proof (cases r)
        case (RR_CNAME name ttl target)
        have "x \<in> dom (cname_loop D rrs (m(t \<mapsto> v)))" for t v
          by (rule Cons.IH [OF sub Cons.prems(2)]) (use Cons.prems(3) in \<open>auto split: if_splits\<close>)
        with Cons.IH [OF sub Cons.prems(2,3)] show ?thesis
          by (auto simp: RR_CNAME Let_def split: option.splits)
      qed (use Cons.IH [OF sub Cons.prems(2,3)] in auto)
    qed
  qed
qed

lemma a_loop_bindings:
  "a_loop A D m rrs k = fold (\<lambda>(ip, h, ttl). writeDestination A ip h ttl) (bindings D m rrs) k"
  by (induction A D m rrs k rule: a_loop.induct) (auto split: option.splits)

lemma bindings_iff:
  "(ip4, h, ttl) \<in> set (bindings D m rrs) \<longleftrightarrow>
   (\<exists>name ip. RR_A name ttl ip \<in> set rrs \<and> To4 ip = Some ip4 \<and>
     ai_hostname D m (TrimSuffix name ''.'') = Some h)"
  by (induction D m rrs rule: bindings.induct) (auto split: option.splits)

lemma answer_bindings_sound:
  assumes "(ip4, h, ttl) \<in> set (answer_bindings D answer)"
  shows "ai_resolution D answer ip4 h ttl"
proof -
  let ?m = "cname_loop D answer Map.empty"
  from assms obtain name ip where a: "RR_A name ttl ip \<in> set answer" "To4 ip = Some ip4"
    and h: "ai_hostname D ?m (TrimSuffix name ''.'') = Some h"
    by (auto simp: answer_bindings_def bindings_iff)
  show ?thesis
  proof (cases "isAIDomain D (TrimSuffix name ''.'')")
    case True
    then have "h = TrimSuffix name ''.''" using h by (simp add: ai_hostname_def)
    with a True show ?thesis by (simp add: res_direct)
  next
    case False
    with h have "?m (TrimSuffix name ''.'') = Some h"
      by (auto simp: ai_hostname_def split: option.splits if_splits)
    then have "via_cname D answer h (TrimSuffix name ''.'')"
      by (rule cname_loop_sound [OF subset_refl, rotated]) simp
    with a show ?thesis by (rule res_alias)
  qed
qed

lemma ai_resolution_length: "ai_resolution D answer ip4 h ttl \<Longrightarrow> length ip4 = 4"
  by (induction rule: ai_resolution.induct) (auto dest: To4_length)

text \<open>What a binding says of an entry of \<^verbatim>\<open>ai_destinations\<close>.\<close>

definition entry_for :: "bytes \<times> string \<times> u32 \<Rightarrow> u32 \<Rightarrow> ai_dest_info \<Rightarrow> bool" where
  "entry_for b a i \<longleftrightarrow> (case b of (ip4, h, ttl) \<Rightarrow>
     a = le_word ip4 \<and> info_hostname i = hostname_field h \<and> info_ttl_s i = ttl)"

text \<open>\<open>grows_by m m' P\<close>: every entry of \<open>m'\<close> was in \<open>m\<close> or is one that \<open>P\<close> describes.\<close>

definition grows_by ::
  "(u32 \<Rightarrow> ai_dest_info option) \<Rightarrow> (u32 \<Rightarrow> ai_dest_info option) \<Rightarrow> (u32 \<Rightarrow> ai_dest_info \<Rightarrow> bool) \<Rightarrow> bool" where
  "grows_by m m' P \<longleftrightarrow> (\<forall>a i. m' a = Some i \<longrightarrow> m a = Some i \<or> P a i)"

lemma grows_by_refl [simp]: "grows_by m m P"
  by (simp add: grows_by_def)

lemma grows_by_trans:
  "grows_by m1 m2 P \<Longrightarrow> grows_by m2 m3 Q \<Longrightarrow> grows_by m1 m3 (\<lambda>a i. P a i \<or> Q a i)"
  by (auto simp: grows_by_def)

lemma grows_by_mono: "grows_by m m' P \<Longrightarrow> (\<And>a i. P a i \<Longrightarrow> Q a i) \<Longrightarrow> grows_by m m' Q"
  by (auto simp: grows_by_def)

definition resolved_entry :: "string list \<Rightarrow> rr list \<Rightarrow> u32 \<Rightarrow> ai_dest_info \<Rightarrow> bool" where
  "resolved_entry D answer a i \<longleftrightarrow>
     (\<exists>ip4 h ttl. ai_resolution D answer ip4 h ttl \<and> entry_for (ip4, h, ttl) a i)"

lemma writeDestination_eq:
  "length ip4 = 4 \<Longrightarrow> writeDestination A ip4 h ttl k =
     fst (update_ai_destinations A (le_word ip4) \<lparr>info_hostname = hostname_field h,
       info_timestamp_ns = time_now A k, info_ttl_s = ttl\<rparr> k)"
  by (simp add: writeDestination_def Let_def NativeEndian_Uint32_def copy_hostname_field)

context agent_kernel
begin

lemma writeDestination_frame:
  assumes "length ip4 = 4"
  shows "pending r (writeDestination A ip4 h ttl k) = pending r k"
    "proxy (writeDestination A ip4 h ttl k) = proxy k"
  using update_frame by (simp_all add: writeDestination_eq [OF assms]) (metis prod.collapse)+

lemma writeDestination_dests:
  assumes ip: "length ip4 = 4"
  shows "grows_by (dests k) (dests (writeDestination A ip4 h ttl k)) (entry_for (ip4, h, ttl))"
proof -
  let ?i = "\<lparr>info_hostname = hostname_field h, info_timestamp_ns = time_now A k, info_ttl_s = ttl\<rparr>"
  obtain k' ok where u: "update_ai_destinations A (le_word ip4) ?i k = (k', ok)" by fastforce
  then have k': "writeDestination A ip4 h ttl k = k'" by (simp add: writeDestination_eq [OF ip])
  have "dests k a = Some i \<or> entry_for (ip4, h, ttl) a i" if d: "dests k' a = Some i" for a i
  proof (cases "a = le_word ip4")
    case True
    then show ?thesis
      using u d update_ok [of "le_word ip4" ?i k k'] update_failed [of "le_word ip4" ?i k k']
      by (cases ok) (auto simp: entry_for_def)
  next
    case False
    with update_others [OF u False] d show ?thesis by auto
  qed
  then show ?thesis by (simp add: grows_by_def k')
qed

lemma write_bindings:
  assumes "\<forall>b \<in> set bs. length (fst b) = 4"
  shows "let k' = fold (\<lambda>(ip, h, ttl). writeDestination A ip h ttl) bs k in
    (\<forall>r. pending r k' = pending r k) \<and> proxy k' = proxy k \<and>
    grows_by (dests k) (dests k') (\<lambda>a i. \<exists>b \<in> set bs. entry_for b a i)"
  using assms
proof (induction bs arbitrary: k)
  case (Cons b bs)
  obtain ip h ttl where b: "b = (ip, h, ttl)" by (cases b) auto
  have ip: "length ip = 4" using Cons.prems b by simp
  let ?k = "writeDestination A ip h ttl k"
  let ?k' = "fold (\<lambda>(ip, h, ttl). writeDestination A ip h ttl) bs ?k"
  have "grows_by (dests k) (dests ?k') (\<lambda>a i. entry_for b a i \<or> (\<exists>b \<in> set bs. entry_for b a i))"
    using grows_by_trans [OF writeDestination_dests [OF ip, of k h ttl]] Cons by (auto simp: Let_def b)
  with Cons show ?case
    using writeDestination_frame [OF ip] by (simp add: Let_def b)
qed simp

lemma answer_bindings_lengths: "\<forall>b \<in> set (answer_bindings D answer). length (fst b) = 4"
  by (auto dest!: answer_bindings_sound ai_resolution_length)

lemma ProcessDNSEvent_effect:
  assumes run: "ProcessDNSEvent A unpack D raw k = (k', ok)"
  shows "ok \<longleftrightarrow> unpack raw \<noteq> None" "pending r k' = pending r k" "proxy k' = proxy k"
    "grows_by (dests k) (dests k')
      (\<lambda>a i. \<exists>answer. unpack raw = Some answer \<and> resolved_entry D answer a i)"
proof -
  let ?Q = "\<lambda>a i. \<exists>answer. unpack raw = Some answer \<and> resolved_entry D answer a i"
  have "(ok \<longleftrightarrow> unpack raw \<noteq> None) \<and> (\<forall>r. pending r k' = pending r k) \<and> proxy k' = proxy k \<and>
    grows_by (dests k) (dests k') ?Q"
  proof (cases "unpack raw")
    case None
    with run show ?thesis by (simp add: ProcessDNSEvent_def)
  next
    case (Some answer)
    with run have "ok" and k': "k' = fold (\<lambda>(ip, h, ttl). writeDestination A ip h ttl)
        (answer_bindings D answer) k"
      by (simp_all add: ProcessDNSEvent_def a_loop_bindings answer_bindings_def)
    note w = write_bindings [OF answer_bindings_lengths [of D answer], of k, unfolded Let_def, folded k']
    have "grows_by (dests k) (dests k') ?Q"
      by (rule grows_by_mono [OF conjunct2 [OF conjunct2 [OF w]]])
        (auto simp: Some resolved_entry_def dest!: answer_bindings_sound)
    with w \<open>ok\<close> Some show ?thesis by simp
  qed
  then show "ok \<longleftrightarrow> unpack raw \<noteq> None" "pending r k' = pending r k" "proxy k' = proxy k"
    "grows_by (dests k) (dests k') ?Q" by blast+
qed

end

lemma ai_hostname_linked:
  assumes sub: "subseq cs answer" and link: "linked s cs x" and ai: "isAIDomain D s"
    and D: "'''' \<notin> set D"
  obtains h where "isAIDomain D h" "ai_hostname D (cname_loop D answer Map.empty) x = Some h"
proof (cases "isAIDomain D x")
  case True
  then show thesis by (rule that) (simp add: ai_hostname_def True)
next
  case False
  let ?m = "cname_loop D answer Map.empty"
  from False link ai have "cs \<noteq> []" by auto
  with cname_loop_linked [OF sub link, of Map.empty D] ai obtain h where h: "?m x = Some h" by auto
  have "via_cname D answer h x"
    by (rule cname_loop_sound [OF subset_refl _ h]) simp
  then have hai: "isAIDomain D h" by (rule via_cname_ai)
  have "h \<noteq> ''''" using hai D by (auto simp: isAIDomain_iff)
  with False h have "ai_hostname D ?m x = Some h" by (simp add: ai_hostname_def)
  with hai show thesis by (rule that)
qed

lemma ProcessDNSEvent_writes:
  "unpack raw = Some answer \<Longrightarrow> ProcessDNSEvent A unpack D raw k =
     (fold (\<lambda>(ip, h, ttl). writeDestination A ip h ttl) (answer_bindings D answer) k, True)"
  by (simp add: ProcessDNSEvent_def a_loop_bindings answer_bindings_def)

lemma bindings_append: "bindings D m (xs @ ys) = bindings D m xs @ bindings D m ys"
  by (induction D m xs rule: bindings.induct) (auto split: option.splits)

subsection \<open>Properties of the DNS service\<close>

definition example_answer :: "rr list" where
  "example_answer =
     [RR_CNAME ''api.openai.com.'' 60 ''edge.example.net.'',
      RR_CNAME ''edge.example.net.'' 60 ''pop.example.net.'',
      RR_A ''pop.example.net.'' 30 [104, 18, 33, 45]]"

definition example_unpack :: unpacker where
  "example_unpack raw = (if raw = [] then None else Some example_answer)"




text \<open>
  C21. Completeness on ordered answers: if CNAME records that stand in this order in the answer
  (possibly none, possibly with other records between them) lead from an AI host name to the owner
  of an A record, then \<^verbatim>\<open>ProcessDNSEvent\<close> writes the address of that record to the map with some
  AI host name.
\<close>

theorem cname_chain_in_order_complete:
  assumes "unpack rawMsg = Some answer" and "subseq cs answer" and "linked s cs (TrimSuffix name ''.'')"
    and "isAIDomain AIDomains s" and "RR_A name ttl ip \<in> set answer" and "To4 ip = Some ip4"
    and "'''' \<notin> set AIDomains"
  shows "\<exists>h before after. isAIDomain AIDomains h \<and>
    fst (ProcessDNSEvent A unpack AIDomains rawMsg k) =
      fold (\<lambda>(ip, h, ttl). writeDestination A ip h ttl) after
        (writeDestination A ip4 h ttl (fold (\<lambda>(ip, h, ttl). writeDestination A ip h ttl) before k))"
proof -
  obtain h where h: "isAIDomain AIDomains h"
    "ai_hostname AIDomains (cname_loop AIDomains answer Map.empty) (TrimSuffix name ''.'') = Some h"
    by (rule ai_hostname_linked [OF assms(2,3,4,7)])
  then have "(ip4, h, ttl) \<in> set (answer_bindings AIDomains answer)"
    using assms(5,6) by (auto simp: answer_bindings_def bindings_iff)
  then obtain before after where b: "answer_bindings AIDomains answer = before @ (ip4, h, ttl) # after"
    by (auto dest: split_list)
  show ?thesis
    by (rule exI [of _ h], rule exI [of _ before], rule exI [of _ after])
      (simp add: ProcessDNSEvent_writes [of unpack rawMsg answer, OF assms(1)] b h(1))
qed

theorem cname_chain_in_order_complete_witness:
  "\<exists>h before after. isAIDomain DefaultAIDomains h \<and>
    fst (ProcessDNSEvent ref_agent example_unpack DefaultAIDomains [1] ref_init) =
      fold (\<lambda>(ip, h, ttl). writeDestination ref_agent ip h ttl) after
        (writeDestination ref_agent [104, 18, 33, 45] h 30
          (fold (\<lambda>(ip, h, ttl). writeDestination ref_agent ip h ttl) before ref_init))"
proof -
  have u: "example_unpack [1] = Some example_answer" by (simp add: example_unpack_def)
  have sub: "subseq (take 2 example_answer) example_answer" by code_simp
  have link: "linked ''api.openai.com'' (take 2 example_answer) (TrimSuffix ''pop.example.net.'' ''.'')"
    by code_simp
  have ai: "isAIDomain DefaultAIDomains ''api.openai.com''" by code_simp
  have a: "RR_A ''pop.example.net.'' 30 [104, 18, 33, 45] \<in> set example_answer"
    by (simp add: example_answer_def)
  have ip: "To4 [104, 18, 33, 45] = Some [104, 18, 33, 45]" by code_simp
  have ne: "'''' \<notin> set DefaultAIDomains" by (simp add: DefaultAIDomains_def)
  show ?thesis by (rule cname_chain_in_order_complete
        [where unpack = example_unpack and rawMsg = "[1]", OF u sub link ai a ip ne])
qed


text \<open>
  Matching is case-sensitive, although DNS names are not: the same name in another case is not
  recognised, and an answer for it writes nothing.
\<close>

lemma isAIDomain_case_sensitive:
  "isAIDomain DefaultAIDomains ''api.openai.com'' \<and> \<not> isAIDomain DefaultAIDomains ''api.OpenAI.com'' \<and>
   ProcessDNSEvent A (\<lambda>_. Some [RR_A ''api.OpenAI.com.'' 30 [104, 18, 33, 45]]) DefaultAIDomains rawMsg k =
     (k, True)"
proof -
  have b: "answer_bindings DefaultAIDomains [RR_A ''api.OpenAI.com.'' 30 [104, 18, 33, 45]] = []" by code_simp
  have "isAIDomain DefaultAIDomains ''api.openai.com'' \<and> \<not> isAIDomain DefaultAIDomains ''api.OpenAI.com''"
    by code_simp
  moreover have "ProcessDNSEvent A (\<lambda>_. Some [RR_A ''api.OpenAI.com.'' 30 [104, 18, 33, 45]]) DefaultAIDomains
      rawMsg k = (k, True)"
    using b by (simp add: ProcessDNSEvent_def a_loop_bindings answer_bindings_def)
  ultimately show ?thesis by simp
qed

end
