(* ===== verification/Readers.thy ===== *)
theory Readers
  imports Dns_Filter Connect_Hook Dns_Service
begin

text \<open>
  The ring-buffer readers of the agent: \<^verbatim>\<open>src/src/internal/bpf/reader.go\<close> and the conversions of
  \<^verbatim>\<open>src/src/internal/bpf/utils.go\<close>. Each reader is modelled by one iteration of its loop, which
  reads one sample through the ring-buffer library and handles it; the loops run interleaved with
  the kernel programs in the system model. A Go panic is the value \<open>Panicked\<close>. On the 64-bit
  targets \<^verbatim>\<open>int\<close> has 64 bits, so \<^verbatim>\<open>int(msgSize)\<close> reads the unsigned size as two's complement.
\<close>

subsection \<open>constants.go, utils.go\<close>

definition dnsEventMsgOffset :: nat where "dnsEventMsgOffset = 8"

definition proxyConfigKey :: u32 where "proxyConfigKey = 0"

fun nullTermString :: "bytes \<Rightarrow> string" where
  "nullTermString [] = []"
| "nullTermString (c # b) = (if c = 0 then [] else char_of (unat c) # nullTermString b)"

text \<open>\<^verbatim>\<open>&s[0]\<close> panics on an empty slice: \<open>None\<close>.\<close>

definition int8SliceToString :: "bytes \<Rightarrow> string option" where
  "int8SliceToString s = (if s = [] then None else Some (nullTermString s))"

definition uint32ToIP :: "u32 \<Rightarrow> string" where
  "uint32ToIP n = IP_String4 (NativeEndian_PutUint32 n)"

subsection \<open>reader.go: DNS events\<close>

datatype status = Running | Returned | Panicked

text \<open>
  The body of the loop of \<^verbatim>\<open>ReadDNSEvents\<close> after a successful read. The slice expression panics
  when its upper bound is below its lower bound.
\<close>

definition handle_dns_sample ::
  "'k agent_ops \<Rightarrow> unpacker \<Rightarrow> string list \<Rightarrow> bytes \<Rightarrow> 'k \<Rightarrow> status \<times> 'k" where
  "handle_dns_sample A unpack D RawSample k =
     (if length RawSample \<le> dnsEventMsgOffset then (Running, k)
      else let msgSize = the (NativeEndian_Uint64 (take dnsEventMsgOffset RawSample));
               end' = sint (word_of_nat dnsEventMsgOffset + msgSize)
      in if msgSize = 0 \<or> int (length RawSample) < end' then (Running, k)
      else if end' < int dnsEventMsgOffset then (Panicked, k)
      else (Running, fst (ProcessDNSEvent A unpack D
             (take (nat end' - dnsEventMsgOffset) (drop dnsEventMsgOffset RawSample)) k)))"

definition ReadDNSEvents_iter ::
  "'k agent_ops \<Rightarrow> unpacker \<Rightarrow> string list \<Rightarrow> 'k \<Rightarrow> status \<times> 'k" where
  "ReadDNSEvents_iter A unpack D k = (case read_into A Dns_Events k of
     (k, Read_Closed) \<Rightarrow> (Returned, k)
   | (k, Read_Error) \<Rightarrow> (Running, k)
   | (k, Read_Record RawSample) \<Rightarrow> handle_dns_sample A unpack D RawSample k)"

subsection \<open>reader.go: redirect events\<close>

text \<open>A field of the Go struct \<^verbatim>\<open>*(*T)(unsafe.Pointer(&b[0]))\<close>.\<close>

definition go_field :: "gostruct \<Rightarrow> string \<Rightarrow> bytes \<Rightarrow> bytes" where
  "go_field g f b = (case go_locate g f 0 of Some (off, n) \<Rightarrow> read_at off n b | None \<Rightarrow> [])"

record go_redirect_event =
  Pid :: u32
  Tgid :: u32
  OriginalIp :: u32
  OriginalPort :: u16
  ProxyIp :: u32
  ProxyPort :: u16
  Hostname :: bytes
  Command :: bytes
  CommandlineLen :: u32
  Commandline :: bytes
  TimestampNs :: u64

definition ringbufCast :: "bytes \<Rightarrow> go_redirect_event option" where
  "ringbufCast b =
     (let f = (\<lambda>x. go_field AIInterceptorRedirectEventT x b) in
      if length b < go_sizeof AIInterceptorRedirectEventT then None
      else Some \<lparr>Pid = le_word (f ''Pid''), Tgid = le_word (f ''Tgid''),
        OriginalIp = le_word (f ''OriginalIp''), OriginalPort = le_word (f ''OriginalPort''),
        ProxyIp = le_word (f ''ProxyIp''), ProxyPort = le_word (f ''ProxyPort''),
        Hostname = f ''Hostname'', Command = f ''Command'',
        CommandlineLen = le_word (f ''CommandlineLen''), Commandline = f ''Commandline'',
        TimestampNs = le_word (f ''TimestampNs'')\<rparr>)"

text \<open>The fields of the log line \<^verbatim>\<open>ai_traffic_redirected\<close>.\<close>

record log_entry =
  log_pid :: u32
  log_process :: string
  log_original_host :: string
  log_original_ip :: string
  log_original_port :: u16
  log_proxy_ip :: string
  log_proxy_port :: u16

definition log_redirect :: "go_redirect_event \<Rightarrow> log_entry" where
  "log_redirect ev = \<lparr>
     log_pid = Pid ev,
     log_process = the (int8SliceToString (Command ev)),
     log_original_host = the (int8SliceToString (Hostname ev)),
     log_original_ip = uint32ToIP (OriginalIp ev),
     log_original_port = ntohs (OriginalPort ev),
     log_proxy_ip = uint32ToIP (ProxyIp ev),
     log_proxy_port = ntohs (ProxyPort ev)\<rparr>"

definition ReadRedirectEvents_iter :: "'k agent_ops \<Rightarrow> 'k \<Rightarrow> status \<times> log_entry option \<times> 'k" where
  "ReadRedirectEvents_iter A k = (case read_into A Redirect_Events k of
     (k, Read_Closed) \<Rightarrow> (Returned, None, k)
   | (k, Read_Error) \<Rightarrow> (Running, None, k)
   | (k, Read_Record RawSample) \<Rightarrow>
       (case ringbufCast RawSample of
          None \<Rightarrow> (Running, None, k)
        | Some ev \<Rightarrow> (Running, Some (log_redirect ev), k)))"

subsection \<open>Lemmas\<close>

lemma nullTermString_eq: "nullTermString b = string_of (takeWhile (\<lambda>c. c \<noteq> 0) b)"
  by (induction b) (auto simp: string_of_def)

lemma go_sizeof_redirect [simp]: "go_sizeof AIInterceptorRedirectEventT = 248"
  by code_simp

lemma go_field_redirect [simp]:
  "go_field AIInterceptorRedirectEventT ''Pid'' b = read_at 0 4 b"
  "go_field AIInterceptorRedirectEventT ''Tgid'' b = read_at 4 4 b"
  "go_field AIInterceptorRedirectEventT ''OriginalIp'' b = read_at 8 4 b"
  "go_field AIInterceptorRedirectEventT ''OriginalPort'' b = read_at 12 2 b"
  "go_field AIInterceptorRedirectEventT ''ProxyIp'' b = read_at 16 4 b"
  "go_field AIInterceptorRedirectEventT ''ProxyPort'' b = read_at 20 2 b"
  "go_field AIInterceptorRedirectEventT ''Hostname'' b = read_at 24 64 b"
  "go_field AIInterceptorRedirectEventT ''Command'' b = read_at 88 16 b"
  "go_field AIInterceptorRedirectEventT ''TimestampNs'' b = read_at 240 8 b"
  by (simp_all add: go_field_def AIInterceptorRedirectEventT_def align_up_def Let_def)

lemma ringbufCast_parse:
  assumes "length b = sizeof redirect_event_t"
  shows "ringbufCast b = Some \<lparr>
     Pid = re_pid (parse_redirect_event b), Tgid = re_tgid (parse_redirect_event b),
     OriginalIp = re_original_ip (parse_redirect_event b),
     OriginalPort = re_original_port (parse_redirect_event b),
     ProxyIp = re_proxy_ip (parse_redirect_event b),
     ProxyPort = re_proxy_port (parse_redirect_event b),
     Hostname = re_hostname (parse_redirect_event b),
     Command = re_command (parse_redirect_event b),
     CommandlineLen = le_word (go_field AIInterceptorRedirectEventT ''CommandlineLen'' b),
     Commandline = go_field AIInterceptorRedirectEventT ''Commandline'' b,
     TimestampNs = re_timestamp_ns (parse_redirect_event b)\<rparr>"
  using assms
  by (simp add: ringbufCast_def parse_redirect_event_def get_def Let_def)

lemma bytes_of_nonzero: "char_of (0 :: nat) \<notin> set h \<Longrightarrow> 0 \<notin> set (bytes_of h)"
proof
  assume h: "char_of (0 :: nat) \<notin> set h" and "0 \<in> set (bytes_of h)"
  then obtain c where "c \<in> set h" "(of_char c :: u8) = 0" by (auto simp: bytes_of_def)
  then have "of_char c = (0 :: nat)" by (metis unat_of_char unsigned_0)
  then have "c = char_of (0 :: nat)" by (metis char_of_char)
  with h \<open>c \<in> set h\<close> show False by simp
qed

lemma nullTermString_hostname_field:
  assumes "char_of (0 :: nat) \<notin> set h"
  shows "nullTermString (hostname_field h) = take 64 h"
proof -
  have z: "0 \<notin> set (take 64 (bytes_of h))"
    using bytes_of_nonzero [OF assms] by (metis in_set_takeD)
  have "takeWhile (\<lambda>c. c \<noteq> 0) (hostname_field h) = take 64 (bytes_of h)"
  proof (cases "length h < 64")
    case True
    then obtain n where "64 - length h = Suc n" by (metis Suc_diff_Suc)
    with z show ?thesis by (auto simp: hostname_field_def takeWhile_append)
  next
    case False
    with z show ?thesis by (auto simp: hostname_field_def takeWhile_eq_all_conv)
  qed
  moreover have "take 64 (bytes_of h) = bytes_of (take 64 h)"
    by (simp add: bytes_of_def take_map)
  ultimately show ?thesis
    by (simp add: nullTermString_eq string_of_bytes_of)
qed

lemma sint_u64:
  "sint (w :: u64) = (if unat w < 9223372036854775808 then int (unat w)
     else int (unat w) - 18446744073709551616)"
proof -
  let ?h = "9223372036854775808 :: int" and ?m = "18446744073709551616 :: int"
  have b: "uint w < ?m" "0 \<le> uint w" using unsigned_less [where w = w and 'a = int] by simp_all
  have u: "uint w = int (unat w)" by simp
  have s: "sint w = (uint w + ?h) mod ?m - ?h"
    by (simp add: sint_uint signed_take_bit_eq_take_bit_shift take_bit_eq_mod)
  show ?thesis
  proof (cases "unat w < 9223372036854775808")
    case True
    then have "uint w < ?h" unfolding u by linarith
    then have "(uint w + ?h) mod ?m = uint w + ?h" using b by simp
    with s True show ?thesis by simp
  next
    case False
    then have "?h \<le> uint w" unfolding u by linarith
    then have "(uint w + ?h - ?m) mod ?m = uint w + ?h - ?m"
      using b by (intro mod_pos_pos_trivial) simp_all
    then have "(uint w + ?h) mod ?m = uint w + ?h - ?m" by (simp only: minus_mod_self2)
    with s False show ?thesis by simp
  qed
qed

text \<open>The size field of a sample as the reader sees it.\<close>

lemma sample_size:
  assumes "8 < length raw"
  shows "NativeEndian_Uint64 (take 8 raw) = Some (word_of_nat (event_msg_size raw))"
    and "event_msg_size raw < 18446744073709551616"
proof -
  show "NativeEndian_Uint64 (take 8 raw) = Some (word_of_nat (event_msg_size raw))"
    using assms by (simp add: NativeEndian_Uint64_def le_word_def event_msg_size_def read_at_def)
  have "length (read_at 0 8 raw) = 8" using assms by (simp add: length_read_at)
  then show "event_msg_size raw < 18446744073709551616"
    using from_le_less [of "read_at 0 8 raw"] by (simp add: event_msg_size_def)
qed

lemma sint_end:
  assumes "n < 18446744073709551616"
  shows "sint (8 + word_of_nat n :: u64) =
    (if n < 9223372036854775800 then 8 + int n else 8 + int n - 18446744073709551616)"
proof -
  have "unat (8 + word_of_nat n :: u64) = (8 + n) mod 18446744073709551616"
    by (simp add: unat_word_ariths unat_of_nat mod_simps)
  also have "\<dots> = (if n < 18446744073709551608 then 8 + n else n + 8 - 18446744073709551616)"
    using assms by (simp add: mod_if)
  finally show ?thesis using assms by (simp add: sint_u64) arith
qed

lemma dns_event_slice:
  assumes ev: "dns_event_for m raw" and m: "m \<noteq> []"
  shows "dnsEventMsgOffset < length raw"
    "the (NativeEndian_Uint64 (take dnsEventMsgOffset raw)) = word_of_nat (length m)"
    "word_of_nat (length m) \<noteq> (0 :: u64)"
    "sint (word_of_nat dnsEventMsgOffset + word_of_nat (length m) :: u64) = int dnsEventMsgOffset + int (length m)"
    "dnsEventMsgOffset + length m \<le> length raw"
    "take (length m) (drop dnsEventMsgOffset raw) = m"
proof -
  have len: "length raw = 520" and sz: "event_msg_size raw = length m"
    and msg: "read_at 8 (length m) raw = m"
    using ev by (auto simp: dns_event_for_def event_msg_def)
  have le: "length m \<le> 512"
    using arg_cong [OF msg, of length] len by (simp add: read_at_def)
  then show "word_of_nat (length m) \<noteq> (0 :: u64)"
    using m dvd_imp_le [of 18446744073709551616 "length m"] by (auto simp: word_of_nat_eq_0_iff)
  show "dnsEventMsgOffset < length raw" "dnsEventMsgOffset + length m \<le> length raw"
    "take (length m) (drop dnsEventMsgOffset raw) = m"
    "the (NativeEndian_Uint64 (take dnsEventMsgOffset raw)) = word_of_nat (length m)"
    "sint (word_of_nat dnsEventMsgOffset + word_of_nat (length m) :: u64) = int dnsEventMsgOffset + int (length m)"
    using sample_size(1) [of raw] len sz msg le by (simp_all add: dnsEventMsgOffset_def sint_end read_at_def)
qed

lemma handle_dns_event:
  assumes "dns_event_for m raw" and "m \<noteq> []"
  shows "handle_dns_sample A unpack D raw k = (Running, fst (ProcessDNSEvent A unpack D m k))"
  using dns_event_slice [OF assms] by (simp add: handle_dns_sample_def Let_def nat_add_distrib)

lemma handle_dns_sample_panics:
  assumes "length raw < 9223372036854775808"
  shows "fst (handle_dns_sample A unpack D raw k) = Panicked \<longleftrightarrow>
    8 < length raw \<and> 9223372036854775800 \<le> event_msg_size raw"
proof (cases "8 < length raw")
  case True
  let ?n = "event_msg_size raw"
  have n: "?n < 18446744073709551616" by (rule sample_size(2) [OF True])
  have z: "word_of_nat ?n = (0 :: u64) \<longleftrightarrow> ?n = 0"
    using n by (auto simp: word_of_nat_eq_0_iff dest: nat_dvd_not_less)
  show ?thesis
    using True sample_size(1) [OF True] n assms
    by (auto simp: handle_dns_sample_def dnsEventMsgOffset_def sint_end [OF n] Let_def z split: if_splits)
qed (simp add: handle_dns_sample_def dnsEventMsgOffset_def)

lemma log_redirect_cast:
  assumes "length raw = sizeof redirect_event_t"
  shows "map_option log_redirect (ringbufCast raw) = Some \<lparr>
     log_pid = re_pid (parse_redirect_event raw),
     log_process = nullTermString (re_command (parse_redirect_event raw)),
     log_original_host = nullTermString (re_hostname (parse_redirect_event raw)),
     log_original_ip = IP_String4 (le_bytes (re_original_ip (parse_redirect_event raw))),
     log_original_port = ntohs (re_original_port (parse_redirect_event raw)),
     log_proxy_ip = IP_String4 (le_bytes (re_proxy_ip (parse_redirect_event raw))),
     log_proxy_port = ntohs (re_proxy_port (parse_redirect_event raw))\<rparr>"
proof -
  have "re_command (parse_redirect_event raw) \<noteq> []" "re_hostname (parse_redirect_event raw) \<noteq> []"
    using assms by (auto simp: parse_redirect_event_def get_def read_at_def)
  then show ?thesis
    by (simp add: ringbufCast_parse [OF assms] log_redirect_def int8SliceToString_def uint32ToIP_def
        NativeEndian_PutUint32_def)
qed

subsection \<open>Properties of the readers\<close>



text \<open>
  C13. Kernel to log: when the connect hook redirects a connect and queues an event, the agent's
  reader decodes that event through the generated Go struct and logs the original address and port
  and the proxy address and port, the ports in host order; the process id it logs is the low half of
  \<^verbatim>\<open>bpf_get_current_pid_tgid\<close>.
\<close>

theorem redirect_event_logged:
  assumes "bpf_kernel H pending dests proxy" and "cgroup_connect4 H ctx k = (r, ctx', k')"
    and "dests k (user_ip4 ctx) = Some info" and "length (info_hostname info) = MAX_HOSTNAME_LEN"
    and "pending Redirect_Events k' \<noteq> pending Redirect_Events k"
  shows "\<exists>ev k2 entry. pending Redirect_Events k' = pending Redirect_Events k @ [ev] \<and>
    map_option log_redirect (ringbufCast ev) = Some entry \<and>
    log_original_ip entry = IP_String4 (le_bytes (user_ip4 ctx)) \<and>
    log_original_port entry = ntohs (ucast (user_port ctx)) \<and>
    log_proxy_ip entry = IP_String4 (le_bytes (cfg_ip (proxy k))) \<and>
    log_proxy_port entry = ntohs (cfg_port (proxy k)) \<and>
    log_pid entry = ucast (get_current_pid_tgid H k2)"
proof -
  from bpf_kernel.cgroup_connect4_cases(6) [OF assms(1-3)] assms(5) obtain ev k2
    where len: "length ev = sizeof redirect_event_t"
      and app: "pending Redirect_Events k' = pending Redirect_Events k @
        [fill_redirect_event H (user_ip4 ctx) (ucast (user_port ctx)) info (proxy k) k2 ev]"
    by blast
  note fields = bpf_local.fill_redirect_event_fields [OF bpf_kernel.axioms(1) [OF assms(1)] len assms(4) refl,
      of "user_ip4 ctx" "ucast (user_port ctx)" "proxy k" k2]
  show ?thesis
    by (intro exI conjI, rule app, rule log_redirect_cast [OF fields(1)])
      (simp_all add: fields)
qed

theorem redirect_event_logged_witness:
  "\<exists>ev entry. rk_redirect (snd (snd (cgroup_connect4 ref_helpers (example_ctx 0x2D211268) example_ready))) = [ev] \<and>
    map_option log_redirect (ringbufCast ev) = Some entry \<and>
    log_original_ip entry = ''104.18.33.45'' \<and> log_original_port entry = 443 \<and>
    log_proxy_ip entry = ''10.0.0.5'' \<and> log_proxy_port entry = 8443"
proof -
  let ?run = "cgroup_connect4 ref_helpers (example_ctx 0x2D211268) example_ready"
  obtain r c k' where run: "?run = (r, c, k')" by (metis prod_cases3)
  have d: "ref_dests example_ready (user_ip4 (example_ctx 0x2D211268)) = Some example_info"
    by (simp add: example_ready_dests example_ctx_def)
  have h: "length (info_hostname example_info) = MAX_HOSTNAME_LEN" by code_simp
  have n: "ref_pending Redirect_Events k' \<noteq> ref_pending Redirect_Events example_ready"
    by (rule example_ready_event [OF run])
  have e: "rk_redirect example_ready = []"
    by (simp add: example_ready_def ref_init_def)
  have b: "le_bytes (0x2D211268 :: u32) = [104, 18, 33, 45]" "le_bytes (0x0500000A :: u32) = [10, 0, 0, 5]"
    by (simp_all add: le_bytes_def to_le_4)
  have s: "IP_String4 [104, 18, 33, 45] = ''104.18.33.45''" "IP_String4 [10, 0, 0, 5] = ''10.0.0.5''"
    by code_simp+
  have v: "ntohs 0xBB01 = 443" "ntohs 0xFB20 = 8443" "(ucast (0xBB01 :: u32) :: u16) = 0xBB01"
    by (simp_all add: ntohs_eq_bswap builtin_bswap_def be_word_def from_be_def le_bytes_def to_le_2)
  from redirect_event_logged [OF rk.bpf_kernel_axioms run d h n] run show ?thesis
    by (auto simp: e b s v example_ready_dests example_ctx_def)
qed



end
