(* ===== verification/Manager.thy ===== *)
theory Manager
  imports Readers
begin

text \<open>
  The manager of the agent: \<^verbatim>\<open>src/src/internal/bpf/manager.go\<close>, the handles of \<^verbatim>\<open>constants.go\<close>, the
  loading and closing of the generated bindings, the configuration record of
  \<^verbatim>\<open>src/src/internal/config/config.go\<close> and the start of \<^verbatim>\<open>src/src/cmd/ai-interceptor/main.go\<close>.
  The calls into the eBPF, link and netlink packages are fields of \<open>os_ops\<close>; the locale \<open>host_os\<close>
  states what the manager relies on, through three observations: the attachments that exist on the
  host, the objects the process holds open, and the element of \<^verbatim>\<open>proxy_config\<close>.
\<close>

subsection \<open>Data\<close>

definition tcClsactMajor :: u16 where "tcClsactMajor = 0xffff"
definition tcIngressMinor :: u16 where "tcIngressMinor = 0xfff2"
definition tcFilterHandle :: u16 where "tcFilterHandle = 1"
definition tcFilterPriority :: u16 where "tcFilterPriority = 1"

record config =
  ProxyIP :: string
  ProxyPort :: u16
  NetworkInterface :: string
  CgroupPath :: string
  AIDomains :: "string list"
  LogLevel :: string

datatype bpf_object =
  CgroupConnect4 | TcDnsObserver | AiDestinations | DnsEvents | ProxyConfig | RedirectEvents

record qdisc =
  q_LinkIndex :: nat
  q_Handle :: u32
  q_Parent :: u32
  q_QdiscType :: string

record bpf_filter =
  f_LinkIndex :: nat
  f_Parent :: u32
  f_Handle :: u32
  f_Protocol :: u16
  f_Priority :: u16
  f_Fd :: bpf_object
  f_Name :: string
  f_DirectAction :: bool

text \<open>The two kinds of \<^verbatim>\<open>io.Closer\<close> the manager collects.\<close>

datatype closer = Tc_Attachment bpf_filter | Cgroup_Link nat

record manager =
  m_AIDomains :: "string list"
  m_links :: "closer list"

datatype errno = EEXIST | Errno nat

datatype load_error = VerifierError | OtherLoadError

datatype mgr_error =
    Verifier_Rejected | Load_Failed | Invalid_Proxy_IP string | Update_Failed
  | Interface_Error string | Qdisc_Failed errno | Filter_Failed errno | Cgroup_Failed

record 'k os_ops =
  MakeHandle :: "u16 \<Rightarrow> u16 \<Rightarrow> u32"
  HANDLE_CLSACT :: u32
  ETH_P_ALL :: u16
  LoadCollectionSpec :: "'k \<Rightarrow> bool"
    \<comment> \<open>the embedded object file parses\<close>
  LoadAndAssign :: "'k \<Rightarrow> 'k \<times> load_error option"
  InterfaceByName :: "string \<Rightarrow> 'k \<Rightarrow> nat option"
  QdiscAdd :: "qdisc \<Rightarrow> 'k \<Rightarrow> 'k \<times> errno option"
  FilterAdd :: "bpf_filter \<Rightarrow> 'k \<Rightarrow> 'k \<times> errno option"
  FilterDel :: "bpf_filter \<Rightarrow> 'k \<Rightarrow> 'k \<times> errno option"
  AttachCgroup :: "string \<Rightarrow> bpf_object \<Rightarrow> 'k \<Rightarrow> 'k \<times> nat option"
  link_Close :: "nat \<Rightarrow> 'k \<Rightarrow> 'k \<times> bool"
  object_Close :: "bpf_object \<Rightarrow> 'k \<Rightarrow> 'k \<times> bool"
    \<comment> \<open>True: the error is nil\<close>

subsection \<open>The generated bindings\<close>

definition LoadAIInterceptorObjects :: "'k os_ops \<Rightarrow> 'k \<Rightarrow> 'k \<times> load_error option" where
  "LoadAIInterceptorObjects Op k =
     (if \<not> LoadCollectionSpec Op k then (k, Some OtherLoadError) else LoadAndAssign Op k)"

fun AIInterceptorClose :: "('k \<Rightarrow> 'k \<times> bool) list \<Rightarrow> 'k \<Rightarrow> 'k \<times> bool" where
  "AIInterceptorClose [] k = (k, True)"
| "AIInterceptorClose (c # closers) k =
     (case c k of (k, True) \<Rightarrow> AIInterceptorClose closers k | (k, False) \<Rightarrow> (k, False))"

definition programs_Close :: "'k os_ops \<Rightarrow> 'k \<Rightarrow> 'k \<times> bool" where
  "programs_Close Op = AIInterceptorClose [object_Close Op CgroupConnect4, object_Close Op TcDnsObserver]"

definition maps_Close :: "'k os_ops \<Rightarrow> 'k \<Rightarrow> 'k \<times> bool" where
  "maps_Close Op = AIInterceptorClose [object_Close Op AiDestinations, object_Close Op DnsEvents,
     object_Close Op ProxyConfig, object_Close Op RedirectEvents]"

definition objs_Close :: "'k os_ops \<Rightarrow> 'k \<Rightarrow> 'k \<times> bool" where
  "objs_Close Op = AIInterceptorClose [programs_Close Op, maps_Close Op]"

subsection \<open>manager.go\<close>

fun closer_Close :: "'k os_ops \<Rightarrow> closer \<Rightarrow> 'k \<Rightarrow> 'k \<times> bool" where
  "closer_Close Op (Tc_Attachment f) k = (case FilterDel Op f k of (k, e) \<Rightarrow> (k, e = None))"
| "closer_Close Op (Cgroup_Link l) k = link_Close Op l k"

text \<open>The loop of \<^verbatim>\<open>closeLinks\<close> ignores errors; afterwards the list of links is empty.\<close>

fun close_each :: "'k os_ops \<Rightarrow> closer list \<Rightarrow> 'k \<Rightarrow> 'k" where
  "close_each Op [] k = k"
| "close_each Op (l # ls) k = close_each Op ls (fst (closer_Close Op l k))"

definition closeLinks :: "'k os_ops \<Rightarrow> manager \<Rightarrow> 'k \<Rightarrow> manager \<times> 'k" where
  "closeLinks Op m k = (m\<lparr>m_links := []\<rparr>, close_each Op (m_links m) k)"

definition Close :: "'k os_ops \<Rightarrow> manager \<Rightarrow> 'k \<Rightarrow> manager \<times> 'k \<times> bool" where
  "Close Op m k = (case closeLinks Op m k of (m, k) \<Rightarrow>
     (case objs_Close Op k of (k, ok) \<Rightarrow> (m, k, ok)))"

definition writeProxyConfig :: "'k agent_ops \<Rightarrow> string \<Rightarrow> u16 \<Rightarrow> 'k \<Rightarrow> 'k \<times> mgr_error option" where
  "writeProxyConfig A proxyIP proxyPort k =
     (case Option.bind (ParseIP proxyIP) To4 of
        None \<Rightarrow> (k, Some (Invalid_Proxy_IP proxyIP))
      | Some ip \<Rightarrow>
        let cfg = \<lparr>cfg_ip = the (NativeEndian_Uint32 ip), cfg_port = ntohs proxyPort\<rparr>
        in case update_proxy_config A proxyConfigKey cfg k of
             (k, True) \<Rightarrow> (k, None)
           | (k, False) \<Rightarrow> (k, Some Update_Failed))"

definition attachTC ::
  "'k os_ops \<Rightarrow> nat \<Rightarrow> manager \<Rightarrow> 'k \<Rightarrow> manager \<times> 'k \<times> mgr_error option" where
  "attachTC Op index m k =
     (let qdisc = \<lparr>q_LinkIndex = index, q_Handle = MakeHandle Op tcClsactMajor 0,
            q_Parent = HANDLE_CLSACT Op, q_QdiscType = ''clsact''\<rparr>;
          filter = \<lparr>f_LinkIndex = index, f_Parent = MakeHandle Op tcClsactMajor tcIngressMinor,
            f_Handle = MakeHandle Op 0 tcFilterHandle, f_Protocol = ETH_P_ALL Op,
            f_Priority = tcFilterPriority, f_Fd = TcDnsObserver, f_Name = ''tc_dns_observer'',
            f_DirectAction = True\<rparr>;
          (k, e) = QdiscAdd Op qdisc k
      in if e \<noteq> None \<and> e \<noteq> Some EEXIST then (m, k, map_option Qdisc_Failed e)
         else case FilterAdd Op filter k of
           (k, Some e) \<Rightarrow> (m, k, Some (Filter_Failed e))
         | (k, None) \<Rightarrow> (m\<lparr>m_links := m_links m @ [Tc_Attachment filter]\<rparr>, k, None))"

definition attachCgroup ::
  "'k os_ops \<Rightarrow> string \<Rightarrow> manager \<Rightarrow> 'k \<Rightarrow> manager \<times> 'k \<times> mgr_error option" where
  "attachCgroup Op cgroupPath m k =
     (case AttachCgroup Op cgroupPath CgroupConnect4 k of
        (k, None) \<Rightarrow> (m, k, Some Cgroup_Failed)
      | (k, Some l) \<Rightarrow> (m\<lparr>m_links := m_links m @ [Cgroup_Link l]\<rparr>, k, None))"

definition NewManager ::
  "'k os_ops \<Rightarrow> 'k agent_ops \<Rightarrow> config \<Rightarrow> 'k \<Rightarrow> 'k \<times> (mgr_error + manager)" where
  "NewManager Op A cfg k =
     (case LoadAIInterceptorObjects Op k of
        (k, Some VerifierError) \<Rightarrow> (k, Inl Verifier_Rejected)
      | (k, Some OtherLoadError) \<Rightarrow> (k, Inl Load_Failed)
      | (k, None) \<Rightarrow>
        let m = \<lparr>m_AIDomains = AIDomains cfg, m_links = []\<rparr>
        in case writeProxyConfig A (ProxyIP cfg) (ProxyPort cfg) k of
             (k, Some e) \<Rightarrow> (fst (objs_Close Op k), Inl e)
           | (k, None) \<Rightarrow>
        (case InterfaceByName Op (NetworkInterface cfg) k of
           None \<Rightarrow> (fst (objs_Close Op k), Inl (Interface_Error (NetworkInterface cfg)))
         | Some index \<Rightarrow>
        (case attachTC Op index m k of
           (m, k, Some e) \<Rightarrow> (fst (objs_Close Op k), Inl e)
         | (m, k, None) \<Rightarrow>
        (case attachCgroup Op (CgroupPath cfg) m k of
           (m, k, Some e) \<Rightarrow> (case closeLinks Op m k of (m, k) \<Rightarrow> (fst (objs_Close Op k), Inl e))
         | (m, k, None) \<Rightarrow> (k, Inr m)))))"

subsection \<open>main.go\<close>

text \<open>
  The start of \<^verbatim>\<open>main\<close>: the configuration as loaded from the environment (\<open>None\<close>: an error), the
  logger's success, then the default domains and the manager.
\<close>

datatype start = Start_Panic | Start_Fatal mgr_error | Started manager

definition with_default_domains :: "config \<Rightarrow> config" where
  "with_default_domains cfg =
     (if length (AIDomains cfg) = 0 then cfg\<lparr>AIDomains := DefaultAIDomains\<rparr> else cfg)"

definition main_start ::
  "'k os_ops \<Rightarrow> 'k agent_ops \<Rightarrow> config option \<Rightarrow> (string \<Rightarrow> bool) \<Rightarrow> 'k \<Rightarrow> 'k \<times> start" where
  "main_start Op A loaded new_logger k =
     (case loaded of
        None \<Rightarrow> (k, Start_Panic)
      | Some cfg \<Rightarrow>
        if \<not> new_logger (LogLevel cfg) then (k, Start_Panic)
        else case NewManager Op A (with_default_domains cfg) k of
          (k, Inl e) \<Rightarrow> (k, Start_Fatal e)
        | (k, Inr m) \<Rightarrow> (k, Started m))"

subsection \<open>What the manager relies on\<close>

locale host_os =
  fixes Op :: "'k os_ops"
    and A :: "'k agent_ops"
    and proxy :: "'k \<Rightarrow> proxy_cfg"
    and attached :: "'k \<Rightarrow> closer set"
    and opened :: "'k \<Rightarrow> bpf_object set"
  assumes load_ok: "LoadAndAssign Op k = (k', None) \<Longrightarrow> opened k' = UNIV"
    and load_failed: "LoadAndAssign Op k = (k', Some err) \<Longrightarrow> opened k' = opened k"
    and load_attached: "LoadAndAssign Op k = (k', le) \<Longrightarrow> attached k' = attached k"
    and cfg_ok: "update_proxy_config A 0 c k = (k', True) \<Longrightarrow> proxy k' = c"
    and cfg_frame: "update_proxy_config A j c k = (k', ok) \<Longrightarrow>
        attached k' = attached k \<and> opened k' = opened k"
    and qdisc_frame: "QdiscAdd Op q k = (k', e') \<Longrightarrow>
        attached k' = attached k \<and> opened k' = opened k \<and> proxy k' = proxy k"
    and filter_add_ok: "FilterAdd Op f k = (k', None) \<Longrightarrow>
        Tc_Attachment f \<notin> attached k \<and> attached k' = insert (Tc_Attachment f) (attached k)"
    and filter_add_failed: "FilterAdd Op f k = (k', Some e) \<Longrightarrow> attached k' = attached k"
    and filter_add_frame: "FilterAdd Op f k = (k', e') \<Longrightarrow> opened k' = opened k \<and> proxy k' = proxy k"
    and filter_del_ok: "FilterDel Op f k = (k', None) \<Longrightarrow> attached k' = attached k - {Tc_Attachment f}"
    and filter_del_frame: "FilterDel Op f k = (k', e') \<Longrightarrow> opened k' = opened k \<and> proxy k' = proxy k"
    and cgroup_ok: "AttachCgroup Op p x k = (k', Some l) \<Longrightarrow>
        Cgroup_Link l \<notin> attached k \<and> attached k' = insert (Cgroup_Link l) (attached k)"
    and cgroup_failed: "AttachCgroup Op p x k = (k', None) \<Longrightarrow> attached k' = attached k"
    and cgroup_frame: "AttachCgroup Op p x k = (k', r) \<Longrightarrow> opened k' = opened k \<and> proxy k' = proxy k"
    and link_close_ok: "link_Close Op l k = (k', True) \<Longrightarrow> attached k' = attached k - {Cgroup_Link l}"
    and link_close_frame: "link_Close Op l k = (k', ok) \<Longrightarrow> opened k' = opened k \<and> proxy k' = proxy k"
    and object_close_ok: "object_Close Op b k = (k', True) \<Longrightarrow> opened k' = opened k - {b}"
    and object_close_failed: "object_Close Op b k = (k', False) \<Longrightarrow> opened k - {b} \<subseteq> opened k'"
    and object_close_frame: "object_Close Op b k = (k', ok) \<Longrightarrow> attached k' = attached k \<and> proxy k' = proxy k"
begin

lemma object_closers_frame:
  "AIInterceptorClose (map (object_Close Op) bs) k = (k', ok) \<Longrightarrow>
   attached k' = attached k \<and> proxy k' = proxy k \<and> opened k - set bs \<subseteq> opened k'"
proof (induction bs arbitrary: k)
  case (Cons b bs)
  obtain k1 ok1 where c: "object_Close Op b k = (k1, ok1)" by fastforce
  note f = object_close_frame [OF c]
  show ?case
  proof (cases ok1)
    case True
    with Cons.prems c have "AIInterceptorClose (map (object_Close Op) bs) k1 = (k', ok)" by simp
    from Cons.IH [OF this] f object_close_ok c True show ?thesis by auto
  next
    case False
    with Cons.prems c f object_close_failed [of b k k1] show ?thesis by auto
  qed
qed simp

lemma object_closers_ok:
  "AIInterceptorClose (map (object_Close Op) bs) k = (k', True) \<Longrightarrow> opened k' = opened k - set bs"
proof (induction bs arbitrary: k)
  case (Cons b bs)
  obtain k1 ok1 where c: "object_Close Op b k = (k1, ok1)" by fastforce
  with Cons.prems have ok1 and r: "AIInterceptorClose (map (object_Close Op) bs) k1 = (k', True)"
    by (auto split: bool.splits)
  with Cons.IH [OF r] object_close_ok [of b k k1] c show ?case by auto
qed simp

end

text \<open>The nesting of the generated \<^verbatim>\<open>Close\<close> methods is one pass over the six objects.\<close>

definition all_objects :: "bpf_object list" where
  "all_objects = [CgroupConnect4, TcDnsObserver, AiDestinations, DnsEvents, ProxyConfig, RedirectEvents]"

lemma set_all_objects [simp]: "set all_objects = UNIV"
  by (auto simp: all_objects_def) (metis bpf_object.exhaust)

lemma AIInterceptorClose_append:
  "AIInterceptorClose (cs @ ds) k =
     (case AIInterceptorClose cs k of (k, True) \<Rightarrow> AIInterceptorClose ds k | (k, False) \<Rightarrow> (k, False))"
  by (induction cs arbitrary: k) (auto split: prod.splits bool.splits)

lemma objs_Close_all: "objs_Close Op k = AIInterceptorClose (map (object_Close Op) all_objects) k"
proof -
  have "map (object_Close Op) all_objects =
    [object_Close Op CgroupConnect4, object_Close Op TcDnsObserver] @
    [object_Close Op AiDestinations, object_Close Op DnsEvents, object_Close Op ProxyConfig,
     object_Close Op RedirectEvents]" by (simp add: all_objects_def)
  then show ?thesis
    by (simp only: AIInterceptorClose_append) (auto simp: objs_Close_def programs_Close_def maps_Close_def
        split: prod.splits bool.splits)
qed

text \<open>Every call that closes something succeeds.\<close>

definition closes_succeed :: "'k os_ops \<Rightarrow> bool" where
  "closes_succeed Op \<longleftrightarrow> (\<forall>f k. snd (FilterDel Op f k) = None) \<and> (\<forall>l k. snd (link_Close Op l k)) \<and>
     (\<forall>b k. snd (object_Close Op b k))"

lemma objs_Close_succeeds:
  assumes "closes_succeed Op" shows "snd (objs_Close Op k)"
proof -
  have "snd (AIInterceptorClose (map (object_Close Op) bs) k)" for bs
    using assms by (induction bs arbitrary: k) (auto simp: closes_succeed_def split: prod.splits bool.splits, metis snd_conv)
  then show ?thesis by (simp add: objs_Close_all)
qed

context host_os
begin

lemma objs_Close_frame:
  "objs_Close Op k = (k', ok) \<Longrightarrow> attached k' = attached k \<and> proxy k' = proxy k"
  unfolding objs_Close_all by (drule object_closers_frame) simp

lemma objs_Close_clean: "closes_succeed Op \<Longrightarrow> opened (fst (objs_Close Op k)) = {}"
  using objs_Close_succeeds [of Op k] object_closers_ok [of all_objects k "fst (objs_Close Op k)"]
  by (simp add: objs_Close_all prod_eq_iff)

lemma objs_Close_attached: "attached (fst (objs_Close Op k)) = attached k"
  using objs_Close_frame [of k "fst (objs_Close Op k)"] by (simp add: prod_eq_iff)

lemma closer_Close_attached:
  assumes "closes_succeed Op"
  shows "attached (fst (closer_Close Op c k)) = attached k - {c}"
proof (cases c)
  case (Tc_Attachment f)
  obtain k' e where d: "FilterDel Op f k = (k', e)" by fastforce
  with assms have "e = None" unfolding closes_succeed_def by (metis snd_conv)
  with filter_del_ok [of f k k'] d Tc_Attachment show ?thesis by simp
next
  case (Cgroup_Link l)
  obtain k' ok where d: "link_Close Op l k = (k', ok)" by fastforce
  with assms have "ok = True" unfolding closes_succeed_def by (metis snd_conv)
  with link_close_ok [of l k k'] d Cgroup_Link show ?thesis by simp
qed

lemma close_each_attached:
  "closes_succeed Op \<Longrightarrow> attached (close_each Op ls k) = attached k - set ls"
  by (induction ls arbitrary: k) (auto simp: closer_Close_attached)

lemma writeProxyConfig_frame:
  "writeProxyConfig A ip port k = (k', e) \<Longrightarrow> attached k' = attached k \<and> opened k' = opened k"
  by (auto simp: writeProxyConfig_def Let_def split: option.splits prod.splits bool.splits dest: cfg_frame)

lemma writeProxyConfig_ok:
  assumes "writeProxyConfig A ip port k = (k', None)"
  obtains b where "Option.bind (ParseIP ip) To4 = Some b" "length b = 4"
    "proxy k' = \<lparr>cfg_ip = le_word b, cfg_port = ntohs port\<rparr>"
proof -
  from assms obtain b where b: "Option.bind (ParseIP ip) To4 = Some b"
    and u: "update_proxy_config A 0 \<lparr>cfg_ip = the (NativeEndian_Uint32 b), cfg_port = ntohs port\<rparr> k = (k', True)"
    by (auto simp: writeProxyConfig_def Let_def proxyConfigKey_def split: option.splits prod.splits bool.splits)
  have "length b = 4" using b by (auto simp: bind_eq_Some_conv dest: To4_length)
  with that b cfg_ok [OF u] show thesis by (simp add: NativeEndian_Uint32_def)
qed

lemma FilterAdd_effect:
  "FilterAdd Op f k = (k', e) \<Longrightarrow> opened k' = opened k \<and> proxy k' = proxy k \<and>
     (case e of None \<Rightarrow> Tc_Attachment f \<notin> attached k \<and> attached k' = insert (Tc_Attachment f) (attached k)
      | Some _ \<Rightarrow> attached k' = attached k)"
  using filter_add_ok filter_add_failed filter_add_frame by (auto split: option.splits)

lemma AttachCgroup_effect:
  "AttachCgroup Op p x k = (k', r) \<Longrightarrow> opened k' = opened k \<and> proxy k' = proxy k \<and>
     (case r of None \<Rightarrow> attached k' = attached k
      | Some l \<Rightarrow> Cgroup_Link l \<notin> attached k \<and> attached k' = insert (Cgroup_Link l) (attached k))"
  using cgroup_ok cgroup_failed cgroup_frame by (auto split: option.splits)

lemma attachTC_effect:
  assumes "attachTC Op index m k = (m', k', e)"
  shows "opened k' = opened k \<and> proxy k' = proxy k"
    "e \<noteq> None \<Longrightarrow> m' = m \<and> attached k' = attached k"
    "e = None \<Longrightarrow> \<exists>f. Tc_Attachment f \<notin> attached k \<and> attached k' = insert (Tc_Attachment f) (attached k) \<and>
       m' = m\<lparr>m_links := m_links m @ [Tc_Attachment f]\<rparr> \<and> f_LinkIndex f = index \<and>
       f_Parent f = MakeHandle Op tcClsactMajor tcIngressMinor \<and> f_Fd f = TcDnsObserver \<and> f_DirectAction f"
  using assms
  by (auto simp: attachTC_def Let_def split: prod.splits option.splits if_splits
      dest!: qdisc_frame FilterAdd_effect)

lemma attachCgroup_effect:
  assumes "attachCgroup Op path m k = (m', k', e)"
  shows "opened k' = opened k \<and> proxy k' = proxy k"
    "e \<noteq> None \<Longrightarrow> m' = m \<and> attached k' = attached k"
    "e = None \<Longrightarrow> \<exists>l. Cgroup_Link l \<notin> attached k \<and> attached k' = insert (Cgroup_Link l) (attached k) \<and>
       m' = m\<lparr>m_links := m_links m @ [Cgroup_Link l]\<rparr>"
  using assms
  by (auto simp: attachCgroup_def split: prod.splits option.splits
      dest!: AttachCgroup_effect)

lemma load_effect:
  "LoadAIInterceptorObjects Op k = (k', e) \<Longrightarrow> attached k' = attached k \<and>
     (if e = None then opened k' = UNIV else opened k' = opened k)"
  using load_ok load_failed load_attached
  by (auto simp: LoadAIInterceptorObjects_def split: if_splits)

lemma NewManager_failed:
  assumes run: "NewManager Op A cfg k = (k', Inl e)" and c: "closes_succeed Op"
  shows "attached k' = attached k \<and> (opened k = {} \<longrightarrow> opened k' = {})"
proof -
  obtain k1 e1 where l: "LoadAIInterceptorObjects Op k = (k1, e1)" by fastforce
  obtain k2 e2 where w: "writeProxyConfig A (ProxyIP cfg) (ProxyPort cfg) k1 = (k2, e2)" by fastforce
  let ?m = "\<lparr>m_AIDomains = AIDomains cfg, m_links = []\<rparr>"
  have *: "attached k2 = attached k" using load_effect [OF l] writeProxyConfig_frame [OF w] by simp
  note closing = objs_Close_clean [OF c] objs_Close_attached close_each_attached [OF c]
  show ?thesis
  proof (cases "e1 = None \<and> e2 = None \<and> InterfaceByName Op (NetworkInterface cfg) k2 \<noteq> None")
    case False
    then show ?thesis using run l w load_effect [OF l] *
      by (auto simp: NewManager_def Let_def closing split: option.splits load_error.splits)
  next
    case True
    then obtain index where i: "InterfaceByName Op (NetworkInterface cfg) k2 = Some index" by blast
    obtain m3 k3 e3 where t: "attachTC Op index ?m k2 = (m3, k3, e3)" by (metis prod_cases3)
    obtain m4 k4 e4 where g: "attachCgroup Op (CgroupPath cfg) m3 k3 = (m4, k4, e4)" by (metis prod_cases3)
    show ?thesis using run True l w i t g * attachTC_effect [OF t] attachCgroup_effect [OF g]
      by (cases e3; cases e4) (auto simp: NewManager_def Let_def closeLinks_def closing simp del: close_each.simps)
  qed
qed

lemma NewManager_ok:
  assumes run: "NewManager Op A cfg k = (k', Inr m)"
  obtains f l ip where "m_links m = [Tc_Attachment f, Cgroup_Link l]" "m_AIDomains m = AIDomains cfg"
    "f_Parent f = MakeHandle Op tcClsactMajor tcIngressMinor" "f_Fd f = TcDnsObserver" "f_DirectAction f"
    "Tc_Attachment f \<notin> attached k" "Cgroup_Link l \<notin> attached k"
    "attached k' = attached k \<union> set (m_links m)" "opened k' = UNIV"
    "Option.bind (ParseIP (ProxyIP cfg)) To4 = Some ip" "length ip = 4"
    "proxy k' = \<lparr>cfg_ip = le_word ip, cfg_port = ntohs (ProxyPort cfg)\<rparr>"
proof -
  let ?m = "\<lparr>m_AIDomains = AIDomains cfg, m_links = []\<rparr>"
  from run obtain k1 k2 index m3 k3 where l: "LoadAIInterceptorObjects Op k = (k1, None)"
    and w: "writeProxyConfig A (ProxyIP cfg) (ProxyPort cfg) k1 = (k2, None)"
    and i: "InterfaceByName Op (NetworkInterface cfg) k2 = Some index"
    and t: "attachTC Op index ?m k2 = (m3, k3, None)"
    and g: "attachCgroup Op (CgroupPath cfg) m3 k3 = (m, k', None)"
    by (auto simp: NewManager_def Let_def closeLinks_def split: prod.splits option.splits load_error.splits)
  obtain ip where ip: "Option.bind (ParseIP (ProxyIP cfg)) To4 = Some ip" "length ip = 4"
    "proxy k2 = \<lparr>cfg_ip = le_word ip, cfg_port = ntohs (ProxyPort cfg)\<rparr>"
    by (rule writeProxyConfig_ok [OF w])
  from attachTC_effect [OF t] attachCgroup_effect [OF g] load_effect [OF l] writeProxyConfig_frame [OF w]
  show thesis using that ip by fastforce
qed

lemma Close_clean:
  assumes "Close Op m k = (m', k', ok)" and c: "closes_succeed Op"
  shows "ok" "m_links m' = []" "attached k' = attached k - set (m_links m)" "opened k' = {}"
  using assms(1) objs_Close_succeeds [OF c, of "close_each Op (m_links m) k"]
    objs_Close_clean [OF c, of "close_each Op (m_links m) k"]
    objs_Close_attached [of "close_each Op (m_links m) k"] close_each_attached [OF c, of "m_links m" k]
  by (auto simp: Close_def closeLinks_def split: prod.splits)

end

subsection \<open>A reference host\<close>

text \<open>The reference kernel with network interfaces, cgroup directories, attachments and open objects.\<close>

record ref_host = ref_kernel +
  rh_interfaces :: "(string \<times> nat) list"
  rh_cgroups :: "string list"
  rh_attached :: "closer list"
  rh_opened :: "bpf_object list"

fun link_id :: "closer \<Rightarrow> nat" where
  "link_id (Tc_Attachment f) = 0"
| "link_id (Cgroup_Link l) = l"

definition fresh_link :: "closer list \<Rightarrow> nat" where
  "fresh_link cs = Suc (sum_list (map link_id cs))"

definition ref_os :: "ref_host os_ops" where
  "ref_os = \<lparr>
     MakeHandle = (\<lambda>major minor. push_bit 16 (ucast major) OR ucast minor),
     HANDLE_CLSACT = 0xFFFFFFF1,
     ETH_P_ALL = 3,
     LoadCollectionSpec = (\<lambda>k. True),
     LoadAndAssign = (\<lambda>k. (k\<lparr>rh_opened := all_objects, rk_dns := [], rk_redirect := [], rk_dests := [],
       rk_proxy := \<lparr>cfg_ip = 0, cfg_port = 0\<rparr>\<rparr>, None)),
     InterfaceByName = (\<lambda>n k. map_of (rh_interfaces k) n),
     QdiscAdd = (\<lambda>q k. (k, None)),
     FilterAdd = (\<lambda>f k. if Tc_Attachment f \<in> set (rh_attached k) then (k, Some EEXIST)
       else (k\<lparr>rh_attached := Tc_Attachment f # rh_attached k\<rparr>, None)),
     FilterDel = (\<lambda>f k. (k\<lparr>rh_attached := removeAll (Tc_Attachment f) (rh_attached k)\<rparr>, None)),
     AttachCgroup = (\<lambda>p x k. if p \<in> set (rh_cgroups k)
       then (k\<lparr>rh_attached := Cgroup_Link (fresh_link (rh_attached k)) # rh_attached k\<rparr>,
             Some (fresh_link (rh_attached k)))
       else (k, None)),
     link_Close = (\<lambda>l k. (k\<lparr>rh_attached := removeAll (Cgroup_Link l) (rh_attached k)\<rparr>, True)),
     object_Close = (\<lambda>b k. (k\<lparr>rh_opened := removeAll b (rh_opened k)\<rparr>, True))\<rparr>"

definition ref_attached :: "ref_host \<Rightarrow> closer set" where
  "ref_attached k = set (rh_attached k)"

definition ref_opened :: "ref_host \<Rightarrow> bpf_object set" where
  "ref_opened k = set (rh_opened k)"

lemma fresh_link_fresh: "Cgroup_Link (fresh_link cs) \<notin> set cs"
proof
  assume "Cgroup_Link (fresh_link cs) \<in> set cs"
  then have "fresh_link cs \<in> set (map link_id cs)" by force
  then show False using member_le_sum_list [of "fresh_link cs" "map link_id cs"] by (simp add: fresh_link_def)
qed

interpretation rh: host_os ref_os ref_agent rk_proxy ref_attached ref_opened
  by unfold_locales
    (auto simp: ref_os_def ref_agent_def ref_attached_def ref_opened_def fresh_link_fresh split: if_splits)

definition ref_host_init :: ref_host where
  "ref_host_init = \<lparr>rk_dns = [], rk_redirect = [], rk_dests = [], rk_proxy = \<lparr>cfg_ip = 0, cfg_port = 0\<rparr>,
     rk_pid_tgid = 0x0000002A0000002B, rk_ktime = 1000, rk_comm = bytes_of ''curl'', rk_now = 2000,
     rk_stale = 0xAA, rk_closed = False,
     rh_interfaces = [(''lo'', 1), (''eth0'', 2)], rh_cgroups = [''/sys/fs/cgroup''],
     rh_attached = [], rh_opened = []\<rparr>"

definition example_config :: config where
  "example_config = \<lparr>ProxyIP = ''10.0.0.5'', ProxyPort = 8443, NetworkInterface = ''eth0'',
     CgroupPath = ''/sys/fs/cgroup'', AIDomains = [], LogLevel = ''info''\<rparr>"

lemma example_proxy_ip: "Option.bind (ParseIP ''10.0.0.5'') To4 = Some [10, 0, 0, 5]"
  by code_simp

lemmas manager_run = NewManager_def LoadAIInterceptorObjects_def writeProxyConfig_def attachTC_def
  attachCgroup_def closeLinks_def Let_def example_config_def ref_host_init_def ref_os_def ref_agent_def
  example_proxy_ip proxyConfigKey_def NativeEndian_Uint32_def

lemma ref_os_closes [simp]: "closes_succeed ref_os"
  by (simp add: closes_succeed_def ref_os_def)

lemma be_word_ntohs: "be_word (le_bytes w) = ntohs w"
  by (simp add: ntohs_def NativeEndian_PutUint16_def BigEndian_Uint16_def)

subsection \<open>Properties of the manager\<close>





text \<open>
  C20. Round trip of the proxy configuration: for a proxy given in dotted form, what the connect
  hook reads from \<^verbatim>\<open>proxy_config\<close> and the agent later prints from an event is the configured
  address and port.
\<close>

theorem proxy_config_roundtrip:
  assumes "host_os Op A proxy attached opened" and "length ip = 4"
    and "writeProxyConfig A (IP_String4 ip) port k = (k', None)"
  shows "uint32ToIP (cfg_ip (proxy k')) = IP_String4 ip \<and> ntohs (cfg_port (proxy k')) = port \<and>
    le_bytes (cfg_ip (proxy k')) = ip"
proof -
  obtain b where "Option.bind (ParseIP (IP_String4 ip)) To4 = Some b" "length b = 4"
    "proxy k' = \<lparr>cfg_ip = le_word b, cfg_port = ntohs port\<rparr>"
    by (rule host_os.writeProxyConfig_ok [OF assms(1,3)])
  then show ?thesis
    using ParseIP_String4 [OF assms(2)]
    by (simp add: uint32ToIP_def NativeEndian_PutUint32_def le_bytes_le_word)
qed

theorem proxy_config_roundtrip_witness:
  "\<exists>k'. writeProxyConfig ref_agent (IP_String4 [10, 0, 0, 5]) 8443 ref_host_init = (k', None) \<and>
    uint32ToIP (cfg_ip (rk_proxy k')) = IP_String4 [10, 0, 0, 5] \<and> ntohs (cfg_port (rk_proxy k')) = 8443"
proof -
  have l: "length [10, 0, 0, 5 :: u8] = 4" by simp
  obtain k' where run: "writeProxyConfig ref_agent (IP_String4 [10, 0, 0, 5]) 8443 ref_host_init = (k', None)"
    by (simp add: writeProxyConfig_def ParseIP_String4 ref_agent_def proxyConfigKey_def Let_def)
  from proxy_config_roundtrip [OF rh.host_os_axioms l run] run show ?thesis by blast
qed

text \<open>
  An address that is not IPv4 is refused before anything is attached: \<^verbatim>\<open>NewManager\<close> returns the
  invalid-address error when the objects load.
\<close>

lemma new_manager_invalid_ip:
  assumes "host_os Op A proxy attached opened"
    and "LoadAIInterceptorObjects Op k = (k1, None)" and "Option.bind (ParseIP (ProxyIP cfg)) To4 = None"
  shows "snd (NewManager Op A cfg k) = Inl (Invalid_Proxy_IP (ProxyIP cfg)) \<and>
    attached (fst (NewManager Op A cfg k)) = attached k"
  using assms(2,3) host_os.load_effect [OF assms(1,2)] host_os.objs_Close_attached [OF assms(1)]
  by (simp add: NewManager_def writeProxyConfig_def Let_def)

text \<open>
  Closing a manager undoes its start: when the closing calls succeed, the host has the
  attachments it had before \<^verbatim>\<open>NewManager\<close> and no BPF object stays open.
\<close>

lemma manager_close_restores:
  assumes "host_os Op A proxy attached opened" and "closes_succeed Op"
    and "NewManager Op A cfg k = (k1, Inr m)" and "Close Op m k1 = (m', k2, ok)"
  shows "ok \<and> m_links m' = [] \<and> attached k2 = attached k \<and> opened k2 = {}"
proof -
  obtain f l where "m_links m = [Tc_Attachment f, Cgroup_Link l]"
    "Tc_Attachment f \<notin> attached k" "Cgroup_Link l \<notin> attached k"
    "attached k1 = attached k \<union> set (m_links m)"
    by (rule host_os.NewManager_ok [OF assms(1,3)])
  with host_os.Close_clean [OF assms(1,4,2)] show ?thesis by auto
qed

text \<open>
  The generated \<^verbatim>\<open>Close\<close> gives up at the first object that fails to close: when the first
  program does, every other object stays open.
\<close>

lemma objs_close_stops_at_error:
  assumes "host_os Op A proxy attached opened" and "object_Close Op CgroupConnect4 k = (k1, False)"
    and "opened k = UNIV"
  shows "objs_Close Op k = (k1, False) \<and> UNIV - {CgroupConnect4} \<subseteq> opened k1"
  using assms(2,3) host_os.object_close_failed [OF assms(1,2)]
  by (simp add: objs_Close_def programs_Close_def)

end
