(* ===== verification/System.thy ===== *)
theory System
  imports Manager
begin

text \<open>
  The running system: after \<^verbatim>\<open>main\<close> has started the two readers, packets arrive at the TC hook,
  processes connect, the readers take samples from the rings, and the rest of the kernel goes on.
  One step is one run of a hook or one iteration of a reader; any order of steps is possible. The
  state keeps, beside the kernel state and the status of the two readers, what has happened: the
  frames seen, the connects (before and after the hook) and the lines logged.
\<close>

subsection \<open>States and steps\<close>

record 'k sys =
  sys_k :: 'k
  sys_dns :: status
  sys_redirect :: status
  sys_frames :: "bytes list"
  sys_connects :: "(sock_addr \<times> sock_addr) list"
  sys_log :: "log_entry list"

text \<open>
  The rest of the kernel may change the clock and the current process and evict map entries, but
  not the ring buffers or the proxy configuration.
\<close>

definition env_change ::
  "(ring \<Rightarrow> 'k \<Rightarrow> bytes list) \<Rightarrow> ('k \<Rightarrow> u32 \<Rightarrow> ai_dest_info option) \<Rightarrow> ('k \<Rightarrow> proxy_cfg) \<Rightarrow> 'k \<Rightarrow> 'k \<Rightarrow> bool" where
  "env_change pending dests proxy k k' \<longleftrightarrow>
     (\<forall>r. pending r k' = pending r k) \<and> proxy k' = proxy k \<and>
     (\<forall>a. dests k' a = dests k a \<or> dests k' a = None)"

inductive sys_step ::
  "'k bpf_helpers \<Rightarrow> 'k agent_ops \<Rightarrow> unpacker \<Rightarrow> string list \<Rightarrow> ('k \<Rightarrow> 'k \<Rightarrow> bool) \<Rightarrow> 'k sys \<Rightarrow> 'k sys \<Rightarrow> bool"
  for H A unpack D env where
  packet: "skb_ok skb \<Longrightarrow> tc_dns_observer H skb (sys_k s) = (r, k') \<Longrightarrow>
     sys_step H A unpack D env s (s\<lparr>sys_k := k', sys_frames := sys_frames s @ [skb_data skb]\<rparr>)"
| connect: "cgroup_connect4 H ctx (sys_k s) = (r, ctx', k') \<Longrightarrow>
     sys_step H A unpack D env s (s\<lparr>sys_k := k', sys_connects := sys_connects s @ [(ctx, ctx')]\<rparr>)"
| dns_read: "sys_dns s = Running \<Longrightarrow> ReadDNSEvents_iter A unpack D (sys_k s) = (st, k') \<Longrightarrow>
     sys_step H A unpack D env s (s\<lparr>sys_k := k', sys_dns := st\<rparr>)"
| redirect_read: "sys_redirect s = Running \<Longrightarrow> ReadRedirectEvents_iter A (sys_k s) = (st, entry, k') \<Longrightarrow>
     sys_step H A unpack D env s (s\<lparr>sys_k := k', sys_redirect := st,
       sys_log := sys_log s @ (case entry of None \<Rightarrow> [] | Some e \<Rightarrow> [e])\<rparr>)"
| environment: "env (sys_k s) k' \<Longrightarrow> sys_step H A unpack D env s (s\<lparr>sys_k := k'\<rparr>)"

definition sys_start :: "'k \<Rightarrow> 'k sys" where
  "sys_start k = \<lparr>sys_k = k, sys_dns = Running, sys_redirect = Running, sys_frames = [],
     sys_connects = [], sys_log = []\<rparr>"

inductive reachable ::
  "'k bpf_helpers \<Rightarrow> 'k agent_ops \<Rightarrow> unpacker \<Rightarrow> string list \<Rightarrow> ('k \<Rightarrow> 'k \<Rightarrow> bool) \<Rightarrow> 'k \<Rightarrow> 'k sys \<Rightarrow> bool"
  for H A unpack D env k where
  start: "reachable H A unpack D env k (sys_start k)"
| step: "reachable H A unpack D env k s \<Longrightarrow> sys_step H A unpack D env s s' \<Longrightarrow> reachable H A unpack D env k s'"

inductive_cases sys_stepE: "sys_step H A unpack D env s s'"

subsection \<open>Invariant\<close>

text \<open>An address is justified by a frame that carried an AI resolution of it.\<close>

definition justified :: "unpacker \<Rightarrow> string list \<Rightarrow> bytes list \<Rightarrow> u32 \<Rightarrow> ai_dest_info \<Rightarrow> bool" where
  "justified unpack D frames a i \<longleftrightarrow>
     (\<exists>p \<in> set frames. \<exists>m answer. dns_capture p = Some m \<and> unpack m = Some answer \<and> resolved_entry D answer a i)"

definition dns_sample_ok :: "bytes list \<Rightarrow> bytes \<Rightarrow> bool" where
  "dns_sample_ok frames ev \<longleftrightarrow> (\<exists>p \<in> set frames. \<exists>m. dns_capture p = Some m \<and> dns_event_for m ev)"

text \<open>
  What a redirect sample and a log line say: the original destination of a redirected connect, the
  host name stored for it and the proxy.
\<close>

definition reports :: "proxy_cfg \<Rightarrow> sock_addr \<Rightarrow> bytes \<Rightarrow> bool" where
  "reports c ctx ev \<longleftrightarrow> length ev = sizeof redirect_event_t \<and>
     re_original_ip (parse_redirect_event ev) = user_ip4 ctx \<and>
     re_original_port (parse_redirect_event ev) = ucast (user_port ctx) \<and>
     re_proxy_ip (parse_redirect_event ev) = cfg_ip c \<and>
     re_proxy_port (parse_redirect_event ev) = cfg_port c"

definition logs :: "proxy_cfg \<Rightarrow> sock_addr \<Rightarrow> log_entry \<Rightarrow> bool" where
  "logs c ctx e \<longleftrightarrow>
     log_original_ip e = IP_String4 (le_bytes (user_ip4 ctx)) \<and>
     log_original_port e = ntohs (ucast (user_port ctx)) \<and>
     log_proxy_ip e = IP_String4 (le_bytes (cfg_ip c)) \<and>
     log_proxy_port e = ntohs (cfg_port c)"

definition redirected :: "proxy_cfg \<Rightarrow> (sock_addr \<times> sock_addr) list \<Rightarrow> sock_addr \<Rightarrow> bool" where
  "redirected c conns ctx \<longleftrightarrow> (ctx, redirect c ctx) \<in> set conns"

text \<open>The hook left a connect alone or sent it to the proxy for an address that is justified.\<close>

definition connect_ok :: "unpacker \<Rightarrow> string list \<Rightarrow> bytes list \<Rightarrow> proxy_cfg \<Rightarrow> sock_addr \<times> sock_addr \<Rightarrow> bool" where
  "connect_ok unpack D frames c x \<longleftrightarrow>
     snd x = fst x \<or>
     snd x = redirect c (fst x) \<and> (\<exists>i. justified unpack D frames (user_ip4 (fst x)) i)"

definition sys_inv ::
  "(ring \<Rightarrow> 'k \<Rightarrow> bytes list) \<Rightarrow> ('k \<Rightarrow> u32 \<Rightarrow> ai_dest_info option) \<Rightarrow> ('k \<Rightarrow> proxy_cfg) \<Rightarrow>
   unpacker \<Rightarrow> string list \<Rightarrow> proxy_cfg \<Rightarrow> 'k sys \<Rightarrow> bool" where
  "sys_inv pending dests proxy unpack D c s \<longleftrightarrow>
     proxy (sys_k s) = c \<and>
     sys_dns s \<noteq> Panicked \<and> sys_redirect s \<noteq> Panicked \<and>
     (\<forall>ev \<in> set (pending Dns_Events (sys_k s)). dns_sample_ok (sys_frames s) ev) \<and>
     (\<forall>a i. dests (sys_k s) a = Some i \<longrightarrow> justified unpack D (sys_frames s) a i) \<and>
     (\<forall>x \<in> set (sys_connects s). connect_ok unpack D (sys_frames s) c x) \<and>
     (\<forall>ev \<in> set (pending Redirect_Events (sys_k s)).
        \<exists>ctx. redirected c (sys_connects s) ctx \<and> reports c ctx ev) \<and>
     (\<forall>e \<in> set (sys_log s). \<exists>ctx. redirected c (sys_connects s) ctx \<and> logs c ctx e)"

lemma sys_invD:
  assumes "sys_inv pending dests proxy unpack D c s"
  shows "proxy (sys_k s) = c" "sys_dns s \<noteq> Panicked" "sys_redirect s \<noteq> Panicked"
    "ev \<in> set (pending Dns_Events (sys_k s)) \<Longrightarrow> dns_sample_ok (sys_frames s) ev"
    "dests (sys_k s) a = Some i \<Longrightarrow> justified unpack D (sys_frames s) a i"
    "x \<in> set (sys_connects s) \<Longrightarrow> connect_ok unpack D (sys_frames s) c x"
    "rv \<in> set (pending Redirect_Events (sys_k s)) \<Longrightarrow> \<exists>ctx. redirected c (sys_connects s) ctx \<and> reports c ctx rv"
    "e \<in> set (sys_log s) \<Longrightarrow> \<exists>ctx. redirected c (sys_connects s) ctx \<and> logs c ctx e"
  using assms unfolding sys_inv_def by blast+

lemma sys_invI:
  assumes "proxy (sys_k s) = c" "sys_dns s \<noteq> Panicked" "sys_redirect s \<noteq> Panicked"
    "\<And>ev. ev \<in> set (pending Dns_Events (sys_k s)) \<Longrightarrow> dns_sample_ok (sys_frames s) ev"
    "\<And>a i. dests (sys_k s) a = Some i \<Longrightarrow> justified unpack D (sys_frames s) a i"
    "\<And>x. x \<in> set (sys_connects s) \<Longrightarrow> connect_ok unpack D (sys_frames s) c x"
    "\<And>rv. rv \<in> set (pending Redirect_Events (sys_k s)) \<Longrightarrow>
       \<exists>ctx. redirected c (sys_connects s) ctx \<and> reports c ctx rv"
    "\<And>e. e \<in> set (sys_log s) \<Longrightarrow> \<exists>ctx. redirected c (sys_connects s) ctx \<and> logs c ctx e"
  shows "sys_inv pending dests proxy unpack D c s"
  using assms unfolding sys_inv_def by blast

subsection \<open>Preservation\<close>

lemma justified_mono: "justified unpack D fs a i \<Longrightarrow> set fs \<subseteq> set fs' \<Longrightarrow> justified unpack D fs' a i"
  unfolding justified_def by blast

lemma dns_sample_ok_mono: "dns_sample_ok fs ev \<Longrightarrow> set fs \<subseteq> set fs' \<Longrightarrow> dns_sample_ok fs' ev"
  unfolding dns_sample_ok_def by blast

lemma redirected_mono: "redirected c cs ctx \<Longrightarrow> set cs \<subseteq> set cs' \<Longrightarrow> redirected c cs' ctx"
  unfolding redirected_def by blast

lemma connect_ok_mono: "connect_ok unpack D fs c x \<Longrightarrow> set fs \<subseteq> set fs' \<Longrightarrow> connect_ok unpack D fs' c x"
  unfolding connect_ok_def by (blast intro: justified_mono)

lemma redirected_app: "redirected c cs ctx \<Longrightarrow> redirected c (cs @ ds) ctx"
  by (simp add: redirected_def)

lemma justified_hostname: "justified unpack D fs a i \<Longrightarrow> length (info_hostname i) = MAX_HOSTNAME_LEN"
  by (auto simp: justified_def resolved_entry_def entry_for_def c_consts)

lemma dns_capture_nonempty: "dns_capture p = Some m \<Longrightarrow> m \<noteq> []"
  by (auto simp: dns_capture_def Let_def is_response_def split: option.splits if_splits)

lemma reports_logged:
  assumes "reports c ctx ev"
  obtains e where "map_option log_redirect (ringbufCast ev) = Some e" "logs c ctx e"
  using assms that log_redirect_cast [of ev] by (auto simp: reports_def logs_def)

context agent_kernel
begin

lemma inv_packet:
  assumes inv: "sys_inv pending dests proxy unpack D c s" and ok: "skb_ok skb"
    and run: "tc_dns_observer H skb (sys_k s) = (r, k')"
  shows "sys_inv pending dests proxy unpack D c (s\<lparr>sys_k := k', sys_frames := sys_frames s @ [skb_data skb]\<rparr>)"
proof (rule sys_invI, goal_cases)
  case (4 ev)
  obtain k1 mem where res: "ringbuf_reserve H Dns_Events (sizeof dns_event_t) (sys_k s) = (k1, mem)"
    by fastforce
  have "ev \<in> set (pending Dns_Events (sys_k s)) \<or> (\<exists>m. dns_capture (skb_data skb) = Some m \<and> dns_event_for m ev)"
    using 4 tc_dns_observer_capture [OF ok run res] by (auto split: option.splits if_splits)
  then show ?case using sys_invD(4) [OF inv] by (fastforce simp: dns_sample_ok_def)
next
  case (5 a i)
  then have "justified unpack D (sys_frames s) a i"
    using tc_dns_observer_frame [OF run] sys_invD(5) [OF inv] by simp
  then show ?case by (rule justified_mono) auto
next
  case (6 x)
  then have "connect_ok unpack D (sys_frames s) c x" using sys_invD(6) [OF inv] by simp
  then show ?case by (rule connect_ok_mono) auto
qed (use tc_dns_observer_frame [OF run] sys_invD [OF inv] in simp_all)

lemma inv_connect:
  assumes inv: "sys_inv pending dests proxy unpack D c s"
    and run: "cgroup_connect4 H ctx (sys_k s) = (r, ctx', k')"
  shows "sys_inv pending dests proxy unpack D c (s\<lparr>sys_k := k', sys_connects := sys_connects s @ [(ctx, ctx')]\<rparr>)"
proof (rule sys_invI, goal_cases)
  note cs = cgroup_connect4_cases [OF run]
  have c: "proxy (sys_k s) = c" by (rule sys_invD(1) [OF inv])
  {
    case (6 x)
    have "connect_ok unpack D (sys_frames s) c (ctx, ctx')"
    proof (cases "dests (sys_k s) (user_ip4 ctx)")
      case None
      with cs(5) show ?thesis by (simp add: connect_ok_def)
    next
      case (Some info)
      with cs(6) sys_invD(5) [OF inv Some] show ?thesis by (auto simp: connect_ok_def c)
    qed
    moreover have "x = (ctx, ctx') \<or> x \<in> set (sys_connects s)" using 6 by simp
    ultimately show ?case using sys_invD(6) [OF inv] by fastforce
  next
    case (7 rv)
    show ?case
    proof (cases "rv \<in> set (pending Redirect_Events (sys_k s))")
      case True
      with sys_invD(7) [OF inv] show ?thesis by (fastforce intro: redirected_app)
    next
      case False
      then obtain info where i: "dests (sys_k s) (user_ip4 ctx) = Some info"
        using 7 cs(5) by (cases "dests (sys_k s) (user_ip4 ctx)") auto
      from cs(6) [OF i] 7 False obtain ev k2 where len: "length ev = sizeof redirect_event_t"
        and rv: "rv = fill_redirect_event H (user_ip4 ctx) (ucast (user_port ctx)) info c k2 ev"
        and x: "ctx' = redirect c ctx"
        by (auto simp: c simp del: sizeof_structs)
      have "reports c ctx rv"
        using fill_redirect_event_fields [OF len justified_hostname [OF sys_invD(5) [OF inv i]] rv]
        by (simp add: reports_def)
      with x show ?thesis by (auto simp: redirected_def)
    qed
  next
    case (8 e)
    with sys_invD(8) [OF inv] show ?case by (fastforce intro: redirected_app)
  }
qed (use cgroup_connect4_cases [OF run] sys_invD [OF inv] in simp_all)

lemma inv_dns_read:
  assumes inv: "sys_inv pending dests proxy unpack D c s"
    and run: "ReadDNSEvents_iter A unpack D (sys_k s) = (st, k')"
  shows "sys_inv pending dests proxy unpack D c (s\<lparr>sys_k := k', sys_dns := st\<rparr>)"
proof -
  obtain k1 x where rd: "read_into A Dns_Events (sys_k s) = (k1, x)" by fastforce
  note fr = read_pending [OF rd] read_frame [OF rd, of Redirect_Events] read_maps [OF rd]
  have "st \<noteq> Panicked \<and> pending Redirect_Events k' = pending Redirect_Events (sys_k s) \<and>
    proxy k' = proxy (sys_k s) \<and> set (pending Dns_Events k') \<subseteq> set (pending Dns_Events (sys_k s)) \<and>
    grows_by (dests (sys_k s)) (dests k') (justified unpack D (sys_frames s))"
  proof (cases x)
    case (Read_Record raw)
    then have "dns_sample_ok (sys_frames s) raw" using fr sys_invD(4) [OF inv, of raw] by simp
    then obtain p m where p: "p \<in> set (sys_frames s)" "dns_capture p = Some m" "dns_event_for m raw"
      by (auto simp: dns_sample_ok_def)
    have h: "handle_dns_sample A unpack D raw k1 = (Running, fst (ProcessDNSEvent A unpack D m k1))"
      by (rule handle_dns_event [OF p(3) dns_capture_nonempty [OF p(2)]])
    obtain ok where pr: "ProcessDNSEvent A unpack D m k1 = (k', ok)" and st: "st = Running"
      using run rd h Read_Record by (cases "ProcessDNSEvent A unpack D m k1") (simp add: ReadDNSEvents_iter_def)
    note eff = ProcessDNSEvent_effect [OF pr]
    have "grows_by (dests k1) (dests k') (justified unpack D (sys_frames s))"
      by (rule grows_by_mono [OF eff(4)]) (use p in \<open>auto simp: justified_def\<close>)
    with st eff fr Read_Record show ?thesis by auto
  qed (use run rd fr in \<open>auto simp: ReadDNSEvents_iter_def\<close>)
  then show ?thesis
    using sys_invD [OF inv] by (intro sys_invI) (auto simp: grows_by_def, blast)
qed

lemma inv_redirect_read:
  assumes inv: "sys_inv pending dests proxy unpack D c s"
    and run: "ReadRedirectEvents_iter A (sys_k s) = (st, entry, k')"
  shows "sys_inv pending dests proxy unpack D c (s\<lparr>sys_k := k', sys_redirect := st,
    sys_log := sys_log s @ (case entry of None \<Rightarrow> [] | Some e \<Rightarrow> [e])\<rparr>)"
proof -
  obtain k1 x where rd: "read_into A Redirect_Events (sys_k s) = (k1, x)" by fastforce
  note fr = read_pending [OF rd] read_frame [OF rd, of Dns_Events] read_maps [OF rd]
  have "st \<noteq> Panicked \<and> k' = k1 \<and>
    (\<forall>e. entry = Some e \<longrightarrow> (\<exists>ctx. redirected c (sys_connects s) ctx \<and> logs c ctx e))"
  proof (cases x)
    case (Read_Record raw)
    then obtain ctx where x: "redirected c (sys_connects s) ctx" "reports c ctx raw"
      using fr sys_invD(7) [OF inv, of raw] by auto
    obtain e where "map_option log_redirect (ringbufCast raw) = Some e" "logs c ctx e"
      by (rule reports_logged [OF x(2)])
    with x run rd Read_Record show ?thesis by (auto simp: ReadRedirectEvents_iter_def)
  qed (use run rd in \<open>auto simp: ReadRedirectEvents_iter_def\<close>)
  moreover have "set (pending Redirect_Events k1) \<subseteq> set (pending Redirect_Events (sys_k s))"
    using fr by (auto split: read_result.splits)
  ultimately show ?thesis
    using sys_invD [OF inv] fr by (intro sys_invI) (auto split: option.splits)
qed

lemma inv_environment:
  assumes inv: "sys_inv pending dests proxy unpack D c s"
    and env: "env_change pending dests proxy (sys_k s) k'"
  shows "sys_inv pending dests proxy unpack D c (s\<lparr>sys_k := k'\<rparr>)"
  using sys_invD [OF inv] env by (intro sys_invI) (auto simp: env_change_def, metis option.distinct(1))

lemma inv_step:
  assumes "sys_step H A unpack D (env_change pending dests proxy) s s'"
    and "sys_inv pending dests proxy unpack D c s"
  shows "sys_inv pending dests proxy unpack D c s'"
  using assms
  by (cases rule: sys_step.cases)
    (auto intro: inv_packet inv_connect inv_dns_read inv_redirect_read inv_environment)

lemma inv_start:
  assumes "\<And>r. pending r k = []" and "\<And>a. dests k a = None"
  shows "sys_inv pending dests proxy unpack D (proxy k) (sys_start k)"
  using assms by (simp add: sys_inv_def sys_start_def)

theorem inv_reachable:
  assumes "reachable H A unpack D (env_change pending dests proxy) k s"
    and "\<And>r. pending r k = []" and "\<And>a. dests k a = None"
  shows "sys_inv pending dests proxy unpack D (proxy k) s"
  using assms(1) by (induction rule: reachable.induct) (auto intro: inv_start inv_step assms(2,3))

end

subsection \<open>From a DNS answer to a redirected connect\<close>

context agent_kernel
begin

lemma writeDestination_present:
  assumes "length ip4 = 4" and "\<And>a i k. snd (update_ai_destinations A a i k)"
  shows "\<exists>i. dests (writeDestination A ip4 h ttl k) (le_word ip4) = Some i \<and> entry_for (ip4, h, ttl) (le_word ip4) i"
proof -
  let ?i = "\<lparr>info_hostname = hostname_field h, info_timestamp_ns = time_now A k, info_ttl_s = ttl\<rparr>"
  have "update_ai_destinations A (le_word ip4) ?i k = (writeDestination A ip4 h ttl k, True)"
    using assms(2) [of "le_word ip4" ?i k] by (simp add: writeDestination_eq [OF assms(1)] prod_eq_iff)
  from update_ok [OF this] show ?thesis by (simp add: entry_for_def)
qed

lemma ProcessDNSEvent_last:
  assumes u: "unpack raw = Some (rrs @ [RR_A name ttl ip])" and ip: "To4 ip = Some ip4"
    and ch: "subseq cs rrs" "linked s cs (TrimSuffix name ''.'')" "isAIDomain D s" "'''' \<notin> set D"
    and ok: "\<And>a i k. snd (update_ai_destinations A a i k)"
  obtains h i where "isAIDomain D h"
    "dests (fst (ProcessDNSEvent A unpack D raw k)) (le_word ip4) = Some i" "entry_for (ip4, h, ttl) (le_word ip4) i"
proof -
  let ?answer = "rrs @ [RR_A name ttl ip]"
  have sub: "subseq cs ?answer" using ch(1) by (rule list_emb_prefix)
  obtain h where h: "isAIDomain D h"
    "ai_hostname D (cname_loop D ?answer Map.empty) (TrimSuffix name ''.'') = Some h"
    by (rule ai_hostname_linked [OF sub ch(2-4)])
  have "answer_bindings D ?answer = bindings D (cname_loop D ?answer Map.empty) rrs @ [(ip4, h, ttl)]"
    using ip h by (simp add: answer_bindings_def bindings_append)
  then have "\<exists>k1. fst (ProcessDNSEvent A unpack D raw k) = writeDestination A ip4 h ttl k1"
    using ProcessDNSEvent_writes [of unpack raw ?answer, OF u, of A D k] by auto
  with writeDestination_present [OF To4_length [OF ip] ok] h(1) that show thesis by metis
qed

lemma answer_then_connect:
  assumes ok: "skb_ok skb" and tc: "tc_dns_observer H skb k = (r, k1)"
    and res: "ringbuf_reserve H Dns_Events (sizeof dns_event_t) k = (kr, Some mem)"
    and win: "dns_window (skb_data skb) = Some (off, n)" "n \<le> MAX_DNS_MSG_SIZE"
    and resp: "is_response (drop off (skb_data skb))" and empty: "pending Dns_Events k = []"
    and rd: "snd (read_into A Dns_Events k1) \<notin> {Read_Closed, Read_Error}"
    and it: "ReadDNSEvents_iter A unpack D k1 = (st, k2)"
    and u: "unpack (drop off (skb_data skb)) = Some (rrs @ [RR_A name ttl ip])" and ip: "To4 ip = Some ip4"
    and ch: "subseq cs rrs" "linked s cs (TrimSuffix name ''.'')" "isAIDomain D s" "'''' \<notin> set D"
    and upd: "\<And>a i k. snd (update_ai_destinations A a i k)"
    and con: "cgroup_connect4 H ctx k2 = (r', ctx', k3)" "user_ip4 ctx = le_word ip4"
  shows "st = Running \<and> ctx' = redirect (proxy k) ctx"
proof -
  let ?m = "drop off (skb_data skb)"
  have n: "n mod 1024 = n" "n \<le> 512" using win(2) by (simp_all add: c_consts)
  have "dns_capture (skb_data skb) = Some ?m"
    using dns_capture_read [OF win(1)] dns_window_bounds [OF win(1)] n resp by (simp add: read_at_def)
  then obtain ev where ev: "dns_event_for ?m ev" "pending Dns_Events k1 = [ev]"
    using tc_dns_observer_capture [OF ok tc res] empty by auto
  obtain k1' x where x: "read_into A Dns_Events k1 = (k1', x)" by fastforce
  then obtain raw where raw: "x = Read_Record raw" using rd by (cases x) auto
  have "raw = ev" using read_pending [OF x] raw ev(2) by simp
  moreover have "?m \<noteq> []" using dns_window_bounds [OF win(1)] by auto
  ultimately have st: "st = Running" and k2: "k2 = fst (ProcessDNSEvent A unpack D ?m k1')"
    using it x raw handle_dns_event [OF ev(1), of A unpack D k1'] by (simp_all add: ReadDNSEvents_iter_def)
  obtain h i where "dests k2 (le_word ip4) = Some i"
    using ProcessDNSEvent_last [where unpack = unpack, OF u ip ch upd] k2 by metis
  then have "ctx' = redirect (proxy k2) ctx" using cgroup_connect4_cases(6) [OF con(1)] con(2) by simp
  moreover have "proxy k2 = proxy k1'"
    using ProcessDNSEvent_effect(3) [of unpack D ?m k1' k2] k2 by (metis prod.collapse)
  moreover have "proxy k1' = proxy k"
    using read_maps [OF x] tc_dns_observer_frame(3) [OF tc] by simp
  ultimately show ?thesis using st by simp
qed

end

subsection \<open>A concrete run\<close>

text \<open>
  On the reference kernel: the DNS response arrives, the agent reads it, a process connects to the
  resolved address, and the agent logs the redirect.
\<close>

abbreviation ref_env :: "'z ref_kernel_scheme \<Rightarrow> 'z ref_kernel_scheme \<Rightarrow> bool" where
  "ref_env \<equiv> env_change ref_pending ref_dests rk_proxy"

lemma ref_reserve_empty:
  "ref_pending r k = [] \<Longrightarrow> n \<le> 1024 \<Longrightarrow>
   ringbuf_reserve ref_helpers r n k = (k, Some (replicate n (rk_stale k)))"
  by (cases r) (simp_all add: ref_helpers_def ref_reserve_def sample_space_def align_up_def dns_events_def
      redirect_events_def c_consts)

lemma ref_connect_event:
  assumes "cgroup_connect4 ref_helpers ctx k = (r, ctx', k')" and "ref_dests k (user_ip4 ctx) = Some info"
    and "ref_pending Redirect_Events k = []"
  shows "ref_pending Redirect_Events k' \<noteq> []"
  using assms ref_reserve_empty [of Redirect_Events "k\<lparr>rk_dests := ds\<rparr>" 248 for ds]
  by (auto simp: cgroup_connect4_def Let_def ref_dests_def ref_lookup_def ref_helpers_def)

lemma ref_set_pending_closed [simp]: "rk_closed (ref_set_pending r q k) = rk_closed k"
  by (cases r) simp_all

lemma ref_closed_kept:
  fixes k :: "'z ref_kernel_scheme"
  shows "rk_closed (snd (tc_dns_observer ref_helpers skb k)) = rk_closed k"
  "rk_closed (fst (ProcessDNSEvent ref_agent unpack D raw k)) = rk_closed k"
  "rk_closed (snd (snd (cgroup_connect4 ref_helpers ctx k))) = rk_closed k"
proof -
  show "rk_closed (snd (tc_dns_observer ref_helpers skb k)) = rk_closed k"
    by (auto simp: tc_dns_observer_def Let_def ref_helpers_def ref_reserve_def split: option.splits if_splits)
  show "rk_closed (snd (snd (cgroup_connect4 ref_helpers ctx k))) = rk_closed k"
    by (auto simp: cgroup_connect4_def Let_def ref_helpers_def ref_reserve_def ref_lookup_def split: option.splits if_splits)
  have w: "rk_closed (writeDestination ref_agent ip h ttl k) = rk_closed k" for ip h ttl and k :: "'z ref_kernel_scheme"
    by (simp add: writeDestination_def Let_def ref_agent_def ref_update_def)
  have "rk_closed (fold (\<lambda>(ip, h, ttl). writeDestination ref_agent ip h ttl) bs k) = rk_closed k"
    for bs and k :: "'z ref_kernel_scheme"
    by (induction bs arbitrary: k) (auto simp: w split: prod.splits)
  then show "rk_closed (fst (ProcessDNSEvent ref_agent unpack D raw k)) = rk_closed k"
    by (simp add: ProcessDNSEvent_def a_loop_bindings split: option.splits)
qed

lemma ref_read_open:
  "\<not> rk_closed k \<Longrightarrow> ref_pending r k = d # q \<Longrightarrow> read_into ref_agent r k = (ref_set_pending r q k, Read_Record d)"
  by (simp add: ref_agent_def ref_read_def)

text \<open>A response to the example query, captured and processed.\<close>

lemma example_answered:
  fixes k0 :: "'z ref_kernel_scheme"
  assumes k0: "\<And>r. ref_pending r k0 = []" "\<not> rk_closed k0"
  obtains r1 k1 k2 i where "tc_dns_observer ref_helpers (example_skb example_msg) k0 = (r1, k1)"
    "ReadDNSEvents_iter ref_agent example_unpack DefaultAIDomains k1 = (Running, k2)"
    "ref_dests k2 0x2D211268 = Some i" "ref_pending Redirect_Events k2 = []" "rk_proxy k2 = rk_proxy k0"
    "\<not> rk_closed k2"
proof -
  let ?skb = "example_skb example_msg" and ?D = DefaultAIDomains
  obtain r1 k1 where tc: "tc_dns_observer ref_helpers ?skb k0 = (r1, k1)" by fastforce
  have ok: "skb_ok ?skb" by code_simp
  have res: "ringbuf_reserve ref_helpers Dns_Events (sizeof dns_event_t) k0 = (k0, Some (replicate 520 (rk_stale k0)))"
    using k0 by (simp add: ref_reserve_empty)
  have cap: "dns_capture (skb_data ?skb) = Some example_msg" by code_simp
  obtain ev where ev: "dns_event_for example_msg ev" "ref_pending Dns_Events k1 = [ev]"
    using rk.tc_dns_observer_capture [OF ok tc res] cap k0 by auto
  have open1: "\<not> rk_closed k1" using ref_closed_kept(1) [of ?skb k0] tc k0 by simp
  let ?k1 = "ref_set_pending Dns_Events [] k1"
  note rd = ref_read_open [OF open1 ev(2)]
  define k2 where "k2 = fst (ProcessDNSEvent ref_agent example_unpack ?D example_msg ?k1)"
  have it: "ReadDNSEvents_iter ref_agent example_unpack ?D k1 = (Running, k2)"
    using rd handle_dns_event [OF ev(1), of ref_agent example_unpack ?D ?k1]
    by (simp add: ReadDNSEvents_iter_def example_msg_def k2_def)
  have open2: "\<not> rk_closed k2" using open1 by (simp add: k2_def ref_closed_kept)
  have u: "example_unpack example_msg = Some (take 2 example_answer @ [RR_A ''pop.example.net.'' 30 [104, 18, 33, 45]])"
    by (simp add: example_unpack_def example_msg_def example_answer_def)
  have ip: "To4 [104, 18, 33, 45] = Some [104, 18, 33, 45]" by code_simp
  have link: "linked ''api.openai.com'' (take 2 example_answer) (TrimSuffix ''pop.example.net.'' ''.'')" by code_simp
  have ai: "isAIDomain ?D ''api.openai.com''" by code_simp
  have ne: "'''' \<notin> set ?D" by (simp add: DefaultAIDomains_def)
  have upd: "snd (update_ai_destinations ref_agent a i k)" for a i and k :: "'z ref_kernel_scheme"
    by (simp add: ref_agent_def ref_update_def)
  have a: "le_word [104, 18, 33, 45] = (0x2D211268 :: u32)" by (simp add: le_word_def)
  obtain h i where i: "ref_dests k2 0x2D211268 = Some i"
    using rk.ProcessDNSEvent_last [where unpack = example_unpack, OF u ip subseq_order.order_refl link ai ne upd]
    unfolding k2_def a by metis
  obtain sent where pr: "ProcessDNSEvent ref_agent example_unpack ?D example_msg ?k1 = (k2, sent)"
    using k2_def by (metis prod.collapse)
  have p2: "ref_pending Redirect_Events k2 = []" "rk_proxy k2 = rk_proxy k0"
    using rk.ProcessDNSEvent_effect(2,3) [OF pr] rk.tc_dns_observer_frame(3,4) [OF tc] k0(1) [of Redirect_Events]
    by simp_all
  show thesis by (rule that [OF tc it i p2 open2])
qed

text \<open>The connect that follows, and its line in the log.\<close>

lemma example_run:
  fixes k0 :: "'z ref_kernel_scheme"
  assumes k0: "\<And>r. ref_pending r k0 = []" "\<And>a. ref_dests k0 a = None" "\<not> rk_closed k0"
  defines "ctx \<equiv> example_ctx 0x2D211268"
  obtains s e where
    "reachable ref_helpers ref_agent example_unpack DefaultAIDomains ref_env k0 s"
    "sys_connects s = [(ctx, redirect (rk_proxy k0) ctx)]" "sys_log s = [e]"
proof -
  let ?skb = "example_skb example_msg" and ?D = DefaultAIDomains
  let ?R = "reachable ref_helpers ref_agent example_unpack ?D ref_env k0"
  obtain r1 k1 k2 i where tc: "tc_dns_observer ref_helpers ?skb k0 = (r1, k1)"
    and it: "ReadDNSEvents_iter ref_agent example_unpack ?D k1 = (Running, k2)"
    and i: "ref_dests k2 0x2D211268 = Some i"
    and p2: "ref_pending Redirect_Events k2 = []" "rk_proxy k2 = rk_proxy k0" and open2: "\<not> rk_closed k2"
    using example_answered [of k0] k0 by blast
  obtain r3 ctx' k3 where con: "cgroup_connect4 ref_helpers ctx k2 = (r3, ctx', k3)" by (metis prod_cases3)
  obtain st4 e4 k4 where rr: "ReadRedirectEvents_iter ref_agent k3 = (st4, e4, k4)" by (metis prod_cases3)
  have ok: "skb_ok ?skb" by code_simp
  have c3: "ctx' = redirect (rk_proxy k0) ctx"
    using rk.cgroup_connect4_cases(6) [OF con, of i] i p2 by (simp add: ctx_def example_ctx_def)
  obtain rv q where rv: "ref_pending Redirect_Events k3 = rv # q"
    using ref_connect_event [OF con _ p2(1)] i by (auto simp: ctx_def example_ctx_def neq_Nil_conv)
  have open3: "\<not> rk_closed k3" using ref_closed_kept(3) [of ctx k2] con open2 by simp
  have rd4: "read_into ref_agent Redirect_Events k3 = (ref_set_pending Redirect_Events q k3, Read_Record rv)"
    by (rule ref_read_open [OF open3 rv])
  let ?s1 = "(sys_start k0)\<lparr>sys_k := k1, sys_frames := [skb_data ?skb]\<rparr>"
  let ?s2 = "?s1\<lparr>sys_k := k2, sys_dns := Running\<rparr>"
  let ?s3 = "?s2\<lparr>sys_k := k3, sys_connects := [(ctx, ctx')]\<rparr>"
  let ?s4 = "?s3\<lparr>sys_k := k4, sys_redirect := st4, sys_log := (case e4 of None \<Rightarrow> [] | Some e \<Rightarrow> [e])\<rparr>"
  have R1: "?R ?s1"
    using reachable.step [OF reachable.start sys_step.packet [where s = "sys_start k0", OF ok]] tc
    by (simp add: sys_start_def)
  have R2: "?R ?s2"
    by (rule reachable.step [OF R1 sys_step.dns_read]) (use it in \<open>simp_all add: sys_start_def\<close>)
  have R3: "?R ?s3"
    using reachable.step [OF R2 sys_step.connect [where s = ?s2]] con by (simp add: sys_start_def)
  have inv: "sys_inv ref_pending ref_dests rk_proxy example_unpack ?D (rk_proxy k0) ?s3"
    using rk.inv_reachable [OF R3] k0 by blast
  then obtain x e where "map_option log_redirect (ringbufCast rv) = Some e"
    using sys_invD(7) [OF inv, of rv] rv reports_logged by (fastforce simp: sys_start_def)
  then have e4: "e4 = Some e" using rr rd4 by (auto simp: ReadRedirectEvents_iter_def)
  have R4: "?R ?s4"
    using reachable.step [OF R3 sys_step.redirect_read [where s = ?s3]] rr by (simp add: sys_start_def)
  show thesis
    by (rule that [OF R4, of e]) (simp_all add: c3 e4)
qed

text \<open>A freshly loaded reference kernel with a configured proxy.\<close>

definition ref_proxied :: ref_kernel where
  "ref_proxied = ref_init\<lparr>rk_proxy := \<lparr>cfg_ip = 0x0500000A, cfg_port = 0xFB20\<rparr>\<rparr>"

lemma ref_proxied_fresh:
  "ref_pending r ref_proxied = []" "ref_dests ref_proxied a = None" "\<not> rk_closed ref_proxied"
  by (simp_all add: ref_proxied_def ref_init_def ref_dests_def) (cases r; simp)

lemma example_capture: "dns_capture (skb_data (example_skb example_msg)) = Some example_msg"
  by code_simp

end
