(* ===== verification/Startup.thy ===== *)
theory Startup
  imports Manager
begin

text \<open>
  The way from the environment to a started agent: the tags of the configuration struct and \<^verbatim>\<open>Load\<close>
  of \<^verbatim>\<open>src/src/internal/config/config.go\<close>, \<^verbatim>\<open>New\<close> of \<^verbatim>\<open>src/src/internal/logger/logger.go\<close>, and the
  first half of \<^verbatim>\<open>main\<close> over them. The packages cleanenv and zap are parameters; what is used of
  cleanenv's documented treatment of tags is the locale \<open>cleanenv\<close>.
\<close>

subsection \<open>config.go\<close>

record field_tag =
  ft_env :: string
  ft_required :: bool
  ft_default :: "string option"
  ft_separator :: "string option"

definition config_tags :: "field_tag list" where
  "config_tags =
     [\<lparr>ft_env = ''PROXY_IP'', ft_required = True, ft_default = None, ft_separator = None\<rparr>,
      \<lparr>ft_env = ''PROXY_PORT'', ft_required = False, ft_default = Some ''8443'', ft_separator = None\<rparr>,
      \<lparr>ft_env = ''NETWORK_INTERFACE'', ft_required = False, ft_default = Some ''eth0'', ft_separator = None\<rparr>,
      \<lparr>ft_env = ''CGROUP_PATH'', ft_required = False, ft_default = Some ''/sys/fs/cgroup'', ft_separator = None\<rparr>,
      \<lparr>ft_env = ''AI_DOMAINS'', ft_required = False, ft_default = None, ft_separator = Some '',''\<rparr>,
      \<lparr>ft_env = ''LOG_LEVEL'', ft_required = False, ft_default = Some ''info'', ft_separator = None\<rparr>]"

type_synonym environ = "string \<rightharpoonup> string"

text \<open>\<open>ReadEnv\<close> is \<^verbatim>\<open>cleanenv.ReadEnv\<close> on a struct with the given tags; \<open>None\<close> is its error.\<close>

definition Load :: "(field_tag list \<Rightarrow> environ \<Rightarrow> config option) \<Rightarrow> environ \<Rightarrow> config option" where
  "Load ReadEnv env = (case ReadEnv config_tags env of None \<Rightarrow> None | Some cfg \<Rightarrow> Some cfg)"

subsection \<open>logger.go\<close>

record ('l, 'c, 'g) zap_ops =
  ParseLevel :: "string \<Rightarrow> 'l option"
  NewProductionConfig :: 'c
  set_Level :: "'l \<Rightarrow> 'c \<Rightarrow> 'c"
  Build :: "'c \<Rightarrow> 'g option"

datatype logger_error = Invalid_Log_Level string | Build_Failed

definition New :: "('l, 'c, 'g) zap_ops \<Rightarrow> string \<Rightarrow> logger_error + 'g" where
  "New Z level = (case ParseLevel Z level of
     None \<Rightarrow> Inl (Invalid_Log_Level level)
   | Some lvl \<Rightarrow> (case Build Z (set_Level Z lvl (NewProductionConfig Z)) of
       None \<Rightarrow> Inl Build_Failed
     | Some g \<Rightarrow> Inr g))"

subsection \<open>main.go: the start\<close>

definition agent_start ::
  "(field_tag list \<Rightarrow> environ \<Rightarrow> config option) \<Rightarrow> ('l, 'c, 'g) zap_ops \<Rightarrow> 'k os_ops \<Rightarrow> 'k agent_ops \<Rightarrow>
   environ \<Rightarrow> 'k \<Rightarrow> 'k \<times> start" where
  "agent_start ReadEnv Z Op A env k =
     main_start Op A (Load ReadEnv env) (\<lambda>level. \<not> isl (New Z level)) k"

subsection \<open>What is used of cleanenv\<close>

lemma config_tags_distinct: "distinct (map ft_env config_tags)"
  by (simp add: config_tags_def)

lemma config_tags_default: "t \<in> set config_tags \<Longrightarrow> ft_default t = Some d \<Longrightarrow> \<not> ft_required t"
  by (auto simp: config_tags_def)

locale cleanenv =
  fixes ReadEnv :: "field_tag list \<Rightarrow> environ \<Rightarrow> config option"
  assumes required: "t \<in> set tags \<Longrightarrow> ft_required t \<Longrightarrow> env (ft_env t) = None \<Longrightarrow> ReadEnv tags env = None"
    and default: "distinct (map ft_env tags) \<Longrightarrow> t \<in> set tags \<Longrightarrow> \<not> ft_required t \<Longrightarrow> ft_default t = Some d \<Longrightarrow>
        env (ft_env t) = None \<Longrightarrow> ReadEnv tags env = ReadEnv tags (env(ft_env t \<mapsto> d))"
begin

lemma Load_required: "env ''PROXY_IP'' = None \<Longrightarrow> Load ReadEnv env = None"
  using required [of "hd config_tags" config_tags env] by (simp add: Load_def config_tags_def)

lemma Load_default:
  assumes t: "t \<in> set config_tags" "ft_default t = Some d" and "env (ft_env t) = None"
  shows "Load ReadEnv env = Load ReadEnv (env(ft_env t \<mapsto> d))"
  using default [where env = env, OF config_tags_distinct t(1) config_tags_default [OF t] t(2) assms(3)] by (simp add: Load_def)

end

subsection \<open>A reference reader\<close>

text \<open>Decimal ports and comma-separated lists, for concrete starts.\<close>

fun parse_dec :: "string \<Rightarrow> nat \<Rightarrow> nat option" where
  "parse_dec [] n = (if n < 65536 then Some n else None)"
| "parse_dec (c # s) n = (if is_digit c then parse_dec s (10 * n + (of_char c - 48)) else None)"

fun split_list :: "char \<Rightarrow> string \<Rightarrow> string \<Rightarrow> string list" where
  "split_list sep [] acc = [rev acc]"
| "split_list sep (c # s) acc = (if c = sep then rev acc # split_list sep s [] else split_list sep s (c # acc))"

definition tag_value :: "field_tag list \<Rightarrow> environ \<Rightarrow> string \<Rightarrow> string option" where
  "tag_value tags env x = (case find (\<lambda>t. ft_env t = x) tags of
     None \<Rightarrow> None
   | Some t \<Rightarrow> (case env x of Some v \<Rightarrow> Some v | None \<Rightarrow> ft_default t))"

definition tag_string :: "field_tag list \<Rightarrow> environ \<Rightarrow> string \<Rightarrow> string" where
  "tag_string tags env x = (case tag_value tags env x of None \<Rightarrow> [] | Some v \<Rightarrow> v)"

definition ref_ReadEnv :: "field_tag list \<Rightarrow> environ \<Rightarrow> config option" where
  "ref_ReadEnv tags env =
     (if list_ex (\<lambda>t. ft_required t \<and> env (ft_env t) = None) tags then None
      else map_option (\<lambda>p. \<lparr>ProxyIP = tag_string tags env ''PROXY_IP'', ProxyPort = word_of_nat p,
          NetworkInterface = tag_string tags env ''NETWORK_INTERFACE'',
          CgroupPath = tag_string tags env ''CGROUP_PATH'',
          AIDomains = (case tag_value tags env ''AI_DOMAINS'' of None \<Rightarrow> [] | Some v \<Rightarrow> split_list CHR '','' v []),
          LogLevel = tag_string tags env ''LOG_LEVEL''\<rparr>)
        (parse_dec (tag_string tags env ''PROXY_PORT'') 0))"

definition ref_zap :: "(string, string, string) zap_ops" where
  "ref_zap = \<lparr>ParseLevel = (\<lambda>s. if s \<in> {''debug'', ''info'', ''warn'', ''error''} then Some s else None),
     NewProductionConfig = ''info'', set_Level = (\<lambda>l c. l), Build = Some\<rparr>"

lemma tag_value_default:
  assumes "distinct (map ft_env tags)" and "t \<in> set tags" and "ft_default t = Some d" and "env (ft_env t) = None"
  shows "tag_value tags (env(ft_env t \<mapsto> d)) = tag_value tags env"
proof
  fix x
  have "find (\<lambda>u. ft_env u = ft_env t) tags = Some t"
    using assms(1,2) by (induction tags) auto
  then show "tag_value tags (env(ft_env t \<mapsto> d)) x = tag_value tags env x"
    using assms(3,4) by (auto simp: tag_value_def split: option.splits)
qed

interpretation re: cleanenv ref_ReadEnv
proof
  fix t :: field_tag and tags and env :: environ
  assume "t \<in> set tags" "ft_required t" "env (ft_env t) = None"
  then show "ref_ReadEnv tags env = None" by (auto simp: ref_ReadEnv_def list_ex_iff)
next
  fix tags and t :: field_tag and d and env :: environ
  assume a: "distinct (map ft_env tags)" "t \<in> set tags" "\<not> ft_required t" "ft_default t = Some d" "env (ft_env t) = None"
  have "u = t" if "u \<in> set tags" "ft_env u = ft_env t" for u
    using a(1,2) that by (metis distinct_map inj_onD)
  then have "list_ex (\<lambda>u. ft_required u \<and> (env(ft_env t \<mapsto> d)) (ft_env u) = None) tags =
    list_ex (\<lambda>u. ft_required u \<and> env (ft_env u) = None) tags"
    using a(3) by (auto simp: list_ex_iff)
  then show "ref_ReadEnv tags env = ref_ReadEnv tags (env(ft_env t \<mapsto> d))"
    using tag_value_default [where env = env, OF a(1,2,4,5)] by (simp add: ref_ReadEnv_def tag_string_def)
qed

subsection \<open>Lemmas on starting\<close>

lemma agent_start_cases:
  "agent_start ReadEnv Z Op A env k = (case Load ReadEnv env of
     None \<Rightarrow> (k, Start_Panic)
   | Some cfg \<Rightarrow> (case New Z (LogLevel cfg) of
       Inl e \<Rightarrow> (k, Start_Panic)
     | Inr g \<Rightarrow> (case NewManager Op A (with_default_domains cfg) k of
         (k', Inl e) \<Rightarrow> (k', Start_Fatal e)
       | (k', Inr m) \<Rightarrow> (k', Started m))))"
  by (auto simp: agent_start_def main_start_def split: option.splits sum.splits)

text \<open>A start that does not succeed leaves no attachment and no open object, on any of its paths.\<close>

lemma agent_start_failed:
  assumes "host_os Op A proxy attached opened" and "closes_succeed Op" and "opened k = {}"
    and "agent_start ReadEnv Z Op A env k = (k', r)" and "\<And>m. r \<noteq> Started m"
  shows "attached k' = attached k \<and> opened k' = {}"
  using assms(3-5) host_os.NewManager_failed [OF assms(1) _ assms(2)]
  by (auto simp: agent_start_cases split: option.splits sum.splits prod.splits)

text \<open>Only the proxy address has to be configured: the rest has defaults, the domain list in \<^verbatim>\<open>main\<close>.\<close>

definition example_environ :: environ where
  "example_environ = [''PROXY_IP'' \<mapsto> ''10.0.0.5'']"

lemma example_environ_config: "Load ref_ReadEnv example_environ = Some example_config"
  by (simp add: Load_def ref_ReadEnv_def config_tags_def tag_string_def tag_value_def example_environ_def
      example_config_def is_digit_def)

lemma example_level: "New ref_zap ''info'' = Inr ''info''" "New ref_zap ''loud'' = Inl (Invalid_Log_Level ''loud'')"
  by (simp_all add: New_def ref_zap_def)

subsection \<open>Properties of the start\<close>

text \<open>The defaults that the table of the README gives.\<close>

definition config_defaults :: "(string \<times> string) list" where
  "config_defaults = [(''PROXY_PORT'', ''8443''), (''NETWORK_INTERFACE'', ''eth0''),
     (''CGROUP_PATH'', ''/sys/fs/cgroup''), (''LOG_LEVEL'', ''info'')]"

lemma default_tag:
  "(x, d) \<in> set config_defaults \<Longrightarrow> \<exists>t \<in> set config_tags. ft_env t = x \<and> ft_default t = Some d"
  unfolding config_defaults_def list.set by (elim insertE) (simp_all add: config_tags_def)

text \<open>
  C19. Start and configuration: without a proxy address, and with a log level that zap does not know,
  the agent panics before it has touched the host; the port, the interface, the cgroup path and the
  log level may each be left out, and the start is then the one with the default of the README.
\<close>

theorem start_configuration:
  assumes "cleanenv ReadEnv"
  shows "(env ''PROXY_IP'' = None \<longrightarrow> agent_start ReadEnv Z Op A env k = (k, Start_Panic)) \<and>
    (\<forall>cfg. Load ReadEnv env = Some cfg \<and> ParseLevel Z (LogLevel cfg) = None \<longrightarrow>
       agent_start ReadEnv Z Op A env k = (k, Start_Panic)) \<and>
    (\<forall>(x, d) \<in> set config_defaults. env x = None \<longrightarrow>
       agent_start ReadEnv Z Op A env k = agent_start ReadEnv Z Op A (env(x \<mapsto> d)) k)"
proof -
  let ?start = "\<lambda>env. agent_start ReadEnv Z Op A env k"
  have d: "?start env = ?start (env(ft_env t \<mapsto> d))"
    if "t \<in> set config_tags" "ft_default t = Some d" "env (ft_env t) = None" for t d
    using cleanenv.Load_default [where env = env, OF assms that] by (simp add: agent_start_def)
  have "?start env = ?start (env(x \<mapsto> d))"
    if xd: "(x, d) \<in> set config_defaults" and un: "env x = None" for x d
  proof -
    obtain t where "t \<in> set config_tags" "ft_env t = x" "ft_default t = Some d" using default_tag [OF xd] by blast
    with d [of t d] un show ?thesis by simp
  qed
  moreover have "env ''PROXY_IP'' = None \<Longrightarrow> ?start env = (k, Start_Panic)"
    using cleanenv.Load_required [OF assms, of env] by (simp add: agent_start_cases)
  moreover have "Load ReadEnv env = Some cfg \<and> ParseLevel Z (LogLevel cfg) = None \<Longrightarrow> ?start env = (k, Start_Panic)" for cfg
    by (simp add: agent_start_cases New_def)
  ultimately show ?thesis by blast
qed

theorem start_configuration_witness:
  "agent_start ref_ReadEnv ref_zap ref_os ref_agent Map.empty ref_host_init = (ref_host_init, Start_Panic) \<and>
   agent_start ref_ReadEnv ref_zap ref_os ref_agent example_environ ref_host_init =
     agent_start ref_ReadEnv ref_zap ref_os ref_agent (example_environ(''NETWORK_INTERFACE'' \<mapsto> ''eth0'')) ref_host_init"
proof -
  have "example_environ ''NETWORK_INTERFACE'' = None" by (simp add: example_environ_def)
  moreover have "(''NETWORK_INTERFACE'', ''eth0'') \<in> set config_defaults" by (simp add: config_defaults_def)
  ultimately show ?thesis
    using start_configuration [OF re.cleanenv_axioms, of Map.empty ref_zap ref_os ref_agent ref_host_init]
      start_configuration [OF re.cleanenv_axioms, of example_environ ref_zap ref_os ref_agent ref_host_init]
    by auto
qed

end
