(* ===== verification/Lifecycle.thy ===== *)
theory Lifecycle
  imports Startup System
begin

text \<open>
  The life of the agent process after a successful start, as \<^verbatim>\<open>src/src/cmd/ai-interceptor/main.go\<close> and
  \<^verbatim>\<open>src/src/internal/bpf/reader.go\<close> lay it out: the main goroutine waits for a signal and then runs its
  deferred calls, last first; each reader opens its ring buffer (ending the process when that
  fails), starts a goroutine that closes it when the context is done, and loops until it is closed.
  Nothing waits for the readers. Steps of the goroutines, of the kernel and signals interleave.
\<close>

subsection \<open>States\<close>

record 'k proc_ops =
  NewReader :: "ring \<Rightarrow> 'k \<Rightarrow> 'k \<times> bool"
  process_exit :: "closer list \<Rightarrow> 'k \<Rightarrow> 'k"
    \<comment> \<open>the kernel closes the descriptors of a process that holds these links\<close>

datatype reader = Unopened | Opened | Reader_Closed

datatype deferred = D_cancel | D_close | D_sync

datatype exit_kind = Exit_Return | Exit_Fatal | Exit_Panic | Exit_Killed

datatype main_pc = Waiting | Unwinding "deferred list" | Exited exit_kind

record 'k agent =
  ag_sys :: "'k sys"
  ag_main :: main_pc
  ag_done :: bool
  ag_mgr :: manager
  ag_rd :: "ring \<Rightarrow> reader"

abbreviation ag_k :: "'k agent \<Rightarrow> 'k" where
  "ag_k s \<equiv> sys_k (ag_sys s)"

abbreviation set_k :: "'k \<Rightarrow> 'k agent \<Rightarrow> 'k agent" where
  "set_k k s \<equiv> s\<lparr>ag_sys := (ag_sys s)\<lparr>sys_k := k\<rparr>\<rparr>"

definition exited :: "'k agent \<Rightarrow> bool" where
  "exited s \<longleftrightarrow> (\<exists>x. ag_main s = Exited x)"

text \<open>What a closed reader answers.\<close>

definition reader_ops :: "reader \<Rightarrow> 'k agent_ops \<Rightarrow> 'k agent_ops" where
  "reader_ops rd A = (if rd = Reader_Closed then A\<lparr>read_into := (\<lambda>r k. (k, Read_Closed))\<rparr> else A)"

definition exit_process :: "'k proc_ops \<Rightarrow> exit_kind \<Rightarrow> 'k agent \<Rightarrow> 'k agent" where
  "exit_process P x s = (set_k (process_exit P (m_links (ag_mgr s)) (ag_k s)) s)\<lparr>ag_main := Exited x\<rparr>"

text \<open>The deferred calls of \<^verbatim>\<open>main\<close>, last deferred first.\<close>

definition main_defers :: "deferred list" where
  "main_defers = [D_cancel, D_close, D_sync]"

definition ag_start :: "'k \<Rightarrow> manager \<Rightarrow> 'k agent" where
  "ag_start k m = \<lparr>ag_sys = sys_start k, ag_main = Waiting, ag_done = False, ag_mgr = m, ag_rd = (\<lambda>r. Unopened)\<rparr>"

subsection \<open>Steps\<close>

datatype actor = By_Main | By_Reader | By_Kernel | By_Signal

inductive ag_step ::
  "'k bpf_helpers \<Rightarrow> 'k agent_ops \<Rightarrow> 'k os_ops \<Rightarrow> 'k proc_ops \<Rightarrow> ('k \<Rightarrow> closer set) \<Rightarrow> unpacker \<Rightarrow> ('k \<Rightarrow> 'k \<Rightarrow> bool) \<Rightarrow>
   actor \<Rightarrow> 'k agent \<Rightarrow> 'k agent \<Rightarrow> bool"
  for H A Op P attached unpack env where
  wake: "ag_main s = Waiting \<Longrightarrow> ag_done s \<Longrightarrow>
     ag_step H A Op P attached unpack env By_Main s (s\<lparr>ag_main := Unwinding main_defers\<rparr>)"
| cancel: "ag_main s = Unwinding (D_cancel # ds) \<Longrightarrow>
     ag_step H A Op P attached unpack env By_Main s (s\<lparr>ag_main := Unwinding ds, ag_done := True\<rparr>)"
| close: "ag_main s = Unwinding (D_close # ds) \<Longrightarrow> Close Op (ag_mgr s) (ag_k s) = (m', k', ok) \<Longrightarrow>
     ag_step H A Op P attached unpack env By_Main s (set_k k' s\<lparr>ag_main := Unwinding ds, ag_mgr := m'\<rparr>)"
| sync: "ag_main s = Unwinding (D_sync # ds) \<Longrightarrow>
     ag_step H A Op P attached unpack env By_Main s (s\<lparr>ag_main := Unwinding ds\<rparr>)"
| return: "ag_main s = Unwinding [] \<Longrightarrow>
     ag_step H A Op P attached unpack env By_Main s (exit_process P Exit_Return s)"
| open_ok: "\<not> exited s \<Longrightarrow> ag_rd s r = Unopened \<Longrightarrow> NewReader P r (ag_k s) = (k', True) \<Longrightarrow>
     ag_step H A Op P attached unpack env By_Reader s (set_k k' s\<lparr>ag_rd := (ag_rd s)(r := Opened)\<rparr>)"
| open_failed: "\<not> exited s \<Longrightarrow> ag_rd s r = Unopened \<Longrightarrow> NewReader P r (ag_k s) = (k', False) \<Longrightarrow>
     ag_step H A Op P attached unpack env By_Reader s (exit_process P Exit_Fatal (set_k k' s))"
| reader_close: "\<not> exited s \<Longrightarrow> ag_done s \<Longrightarrow> ag_rd s r = Opened \<Longrightarrow>
     ag_step H A Op P attached unpack env By_Reader s (s\<lparr>ag_rd := (ag_rd s)(r := Reader_Closed)\<rparr>)"
| dns_iter: "\<not> exited s \<Longrightarrow> ag_rd s Dns_Events \<noteq> Unopened \<Longrightarrow> sys_dns (ag_sys s) = Running \<Longrightarrow>
     ReadDNSEvents_iter (reader_ops (ag_rd s Dns_Events) A) unpack (m_AIDomains (ag_mgr s)) (ag_k s) = (st, k') \<Longrightarrow>
     s' = s\<lparr>ag_sys := (ag_sys s)\<lparr>sys_k := k', sys_dns := st\<rparr>\<rparr> \<Longrightarrow>
     ag_step H A Op P attached unpack env By_Reader s (if st = Panicked then exit_process P Exit_Panic s' else s')"
| redirect_iter: "\<not> exited s \<Longrightarrow> ag_rd s Redirect_Events \<noteq> Unopened \<Longrightarrow> sys_redirect (ag_sys s) = Running \<Longrightarrow>
     ReadRedirectEvents_iter (reader_ops (ag_rd s Redirect_Events) A) (ag_k s) = (st, entry, k') \<Longrightarrow>
     s' = s\<lparr>ag_sys := (ag_sys s)\<lparr>sys_k := k', sys_redirect := st,
       sys_log := sys_log (ag_sys s) @ (case entry of None \<Rightarrow> [] | Some e \<Rightarrow> [e])\<rparr>\<rparr> \<Longrightarrow>
     ag_step H A Op P attached unpack env By_Reader s (if st = Panicked then exit_process P Exit_Panic s' else s')"
| packet: "Tc_Attachment f \<in> attached (ag_k s) \<Longrightarrow> skb_ok skb \<Longrightarrow> tc_dns_observer H skb (ag_k s) = (r, k') \<Longrightarrow>
     ag_step H A Op P attached unpack env By_Kernel s
       (s\<lparr>ag_sys := (ag_sys s)\<lparr>sys_k := k', sys_frames := sys_frames (ag_sys s) @ [skb_data skb]\<rparr>\<rparr>)"
| connect: "Cgroup_Link l \<in> attached (ag_k s) \<Longrightarrow> cgroup_connect4 H ctx (ag_k s) = (r, ctx', k') \<Longrightarrow>
     ag_step H A Op P attached unpack env By_Kernel s
       (s\<lparr>ag_sys := (ag_sys s)\<lparr>sys_k := k', sys_connects := sys_connects (ag_sys s) @ [(ctx, ctx')]\<rparr>\<rparr>)"
| environment: "env (ag_k s) k' \<Longrightarrow> ag_step H A Op P attached unpack env By_Kernel s (set_k k' s)"
| signal: "\<not> exited s \<Longrightarrow> ag_step H A Op P attached unpack env By_Signal s (s\<lparr>ag_done := True\<rparr>)"
| kill: "\<not> exited s \<Longrightarrow> ag_step H A Op P attached unpack env By_Signal s (exit_process P Exit_Killed s)"

inductive ag_run ::
  "'k bpf_helpers \<Rightarrow> 'k agent_ops \<Rightarrow> 'k os_ops \<Rightarrow> 'k proc_ops \<Rightarrow> ('k \<Rightarrow> closer set) \<Rightarrow> unpacker \<Rightarrow> ('k \<Rightarrow> 'k \<Rightarrow> bool) \<Rightarrow>
   'k agent \<Rightarrow> actor list \<Rightarrow> 'k agent \<Rightarrow> bool"
  for H A Op P attached unpack env s where
  run_empty: "ag_run H A Op P attached unpack env s [] s"
| run_step: "ag_run H A Op P attached unpack env s us s' \<Longrightarrow> ag_step H A Op P attached unpack env u s' s'' \<Longrightarrow>
     ag_run H A Op P attached unpack env s (us @ [u]) s''"

inductive_cases ag_stepE: "ag_step H A Op P attached unpack env u s s'"

subsection \<open>Shutdown ends\<close>

text \<open>The number of steps the main goroutine still has to do once the context is done.\<close>

fun main_left :: "main_pc \<Rightarrow> nat" where
  "main_left Waiting = 5"
| "main_left (Unwinding ds) = Suc (length ds)"
| "main_left (Exited x) = 0"

lemma main_left_0 [simp]: "main_left (ag_main s) = 0 \<longleftrightarrow> exited s"
  by (cases "ag_main s") (simp_all add: exited_def)

lemma exit_process_simps [simp]:
  "ag_main (exit_process P x s) = Exited x" "ag_mgr (exit_process P x s) = ag_mgr s"
  "ag_done (exit_process P x s) = ag_done s" "ag_rd (exit_process P x s) = ag_rd s"
  "ag_k (exit_process P x s) = process_exit P (m_links (ag_mgr s)) (ag_k s)"
  by (simp_all add: exit_process_def)

lemma step_main_left:
  assumes "ag_step H A Op P attached unpack env u s s'"
  shows "main_left (ag_main s') + (if u = By_Main then 1 else 0) \<le> main_left (ag_main s)"
  using assms by (cases rule: ag_step.cases) (simp_all add: main_defers_def)

lemma run_main_left:
  assumes "ag_run H A Op P attached unpack env s us s'"
  shows "main_left (ag_main s') + count_list us By_Main \<le> main_left (ag_main s)"
  using assms
proof (induction rule: ag_run.induct)
  case (run_step us s' u s'')
  then show ?case using step_main_left [OF run_step(2)] by (auto split: if_splits)
qed simp

text \<open>Once the process has exited only the kernel goes on.\<close>

lemma exited_steps:
  assumes "ag_step H A Op P attached unpack env u s s'" and "exited s"
  shows "u = By_Kernel \<and> ag_main s' = ag_main s"
  using assms by (cases rule: ag_step.cases) (auto simp: exited_def)

text \<open>The main goroutine is never stuck after the signal.\<close>

lemma main_enabled:
  assumes "ag_done s" and "\<not> exited s"
  shows "\<exists>s'. ag_step H A Op P attached unpack env By_Main s s'"
proof (cases "ag_main s")
  case Waiting
  with assms(1) show ?thesis by (blast intro: ag_step.wake)
next
  case (Unwinding ds)
  then show ?thesis
  proof (cases ds)
    case (Cons d ds')
    obtain m' k' ok where "Close Op (ag_mgr s) (ag_k s) = (m', k', ok)" by (metis prod_cases3)
    with Unwinding Cons show ?thesis
      by (cases d) (blast intro: ag_step.cancel ag_step.close ag_step.sync)+
  qed (blast intro: ag_step.return)
qed (use assms(2) in \<open>simp add: exited_def\<close>)

text \<open>A reader that has been closed returns at its next iteration.\<close>

lemma closed_reader_returns:
  "ReadDNSEvents_iter (reader_ops Reader_Closed A) unpack D k = (Returned, k)"
  "ReadRedirectEvents_iter (reader_ops Reader_Closed A) k = (Returned, None, k)"
  by (simp_all add: ReadDNSEvents_iter_def ReadRedirectEvents_iter_def reader_ops_def)

subsection \<open>What the process leaves on the host\<close>

text \<open>
  The hooks, the readers and the map operations neither attach nor detach nor open nor close
  anything. When a process ends, the kernel detaches the cgroup links it holds and closes its
  objects; a TC filter belongs to the interface and stays.
\<close>

definition is_link :: "closer \<Rightarrow> bool" where
  "is_link c = (case c of Cgroup_Link l \<Rightarrow> True | Tc_Attachment f \<Rightarrow> False)"

definition same_host :: "('k \<Rightarrow> closer set) \<Rightarrow> ('k \<Rightarrow> bpf_object set) \<Rightarrow> 'k \<Rightarrow> 'k \<Rightarrow> bool" where
  "same_host attached opened k k' \<longleftrightarrow> attached k' = attached k \<and> opened k' = opened k"

locale agent_host = agent_kernel H pending dests proxy A + host_os Op A proxy attached opened
  for H :: "'k bpf_helpers" and pending dests proxy and A :: "'k agent_ops"
    and Op :: "'k os_ops" and attached opened +
  fixes P :: "'k proc_ops"
  assumes reserve_host: "ringbuf_reserve H r n k = (k', mem) \<Longrightarrow> same_host attached opened k k'"
    and submit_host: "same_host attached opened k (ringbuf_submit H r d k)"
    and discard_host: "same_host attached opened k (ringbuf_discard H r d k)"
    and lookup_dest_host: "lookup_ai_destinations H a k = (k', x) \<Longrightarrow> same_host attached opened k k'"
    and lookup_cfg_host: "lookup_proxy_config H j k = (k', y) \<Longrightarrow> same_host attached opened k k'"
    and update_host: "update_ai_destinations A a i k = (k', ok) \<Longrightarrow> same_host attached opened k k'"
    and read_host: "read_into A r k = (k', z) \<Longrightarrow> same_host attached opened k k'"
    and reader_host: "NewReader P r k = (k', ok) \<Longrightarrow> same_host attached opened k k'"
    and reader_frame: "NewReader P r k = (k', ok) \<Longrightarrow>
        pending q k' = pending q k \<and> dests k' = dests k \<and> proxy k' = proxy k"
    and exit_attached: "attached (process_exit P ls k) = attached k - {c \<in> set ls. is_link c}"
    and exit_opened: "opened (process_exit P ls k) = {}"
begin

lemma tc_host: "tc_dns_observer H skb k = (r, k') \<Longrightarrow> same_host attached opened k k'"
  by (auto simp: tc_dns_observer_def Let_def same_host_def split: option.splits prod.splits if_splits
      dest!: reserve_host simp: submit_host [unfolded same_host_def] discard_host [unfolded same_host_def])

lemma connect_host: "cgroup_connect4 H ctx k = (r, ctx', k') \<Longrightarrow> same_host attached opened k k'"
  by (auto simp: cgroup_connect4_def Let_def same_host_def split: option.splits prod.splits if_splits
      dest!: reserve_host lookup_dest_host lookup_cfg_host simp: submit_host [unfolded same_host_def])

lemma process_host: "same_host attached opened k (fst (ProcessDNSEvent A unpack D raw k))"
proof -
  have w: "same_host attached opened k (writeDestination A ip h ttl k)" for ip h ttl k
    by (simp add: writeDestination_def Let_def update_host [OF surjective_pairing])
  have "same_host attached opened k (fold (\<lambda>(ip, h, ttl). writeDestination A ip h ttl) bs k)" for bs k
    using w by (induction bs arbitrary: k) (auto simp: same_host_def split: prod.splits)
  then show ?thesis by (simp add: ProcessDNSEvent_def a_loop_bindings same_host_def split: option.splits)
qed

lemma dns_iter_host:
  assumes "ReadDNSEvents_iter (reader_ops rd A) unpack D k = (st, k')"
  shows "same_host attached opened k k'"
proof (cases "rd = Reader_Closed")
  case False
  obtain k1 x where rd: "read_into A Dns_Events k = (k1, x)" by fastforce
  have h: "handle_dns_sample A unpack D raw k1 = (st, k') \<Longrightarrow> same_host attached opened k1 k'" for raw
    using process_host by (auto simp: handle_dns_sample_def Let_def same_host_def split: if_splits)
  from assms False rd read_host [OF rd] show ?thesis
    by (cases x) (auto simp: ReadDNSEvents_iter_def reader_ops_def same_host_def dest!: h)
qed (use assms in \<open>simp add: closed_reader_returns same_host_def\<close>)

lemma redirect_iter_host:
  assumes "ReadRedirectEvents_iter (reader_ops rd A) k = (st, e, k')"
  shows "same_host attached opened k k'"
proof (cases "rd = Reader_Closed")
  case False
  obtain k1 x where rd: "read_into A Redirect_Events k = (k1, x)" by fastforce
  from assms False rd read_host [OF rd] show ?thesis
    by (cases x) (auto simp: ReadRedirectEvents_iter_def reader_ops_def split: option.splits)
qed (use assms in \<open>simp add: closed_reader_returns same_host_def\<close>)

end

text \<open>
  The invariant of a process that started on a host with the attachments \<open>att\<close> and got the manager
  \<open>m\<close>: until the deferred \<^verbatim>\<open>Close\<close> has run it holds everything \<open>m\<close> attached, afterwards nothing; and an
  exit without it leaves what is not a link.
\<close>

definition holds_all :: "('k \<Rightarrow> closer set) \<Rightarrow> closer set \<Rightarrow> manager \<Rightarrow> 'k agent \<Rightarrow> bool" where
  "holds_all attached att m s \<longleftrightarrow> ag_mgr s = m \<and> attached (ag_k s) = att \<union> set (m_links m)"

definition holds_none :: "('k \<Rightarrow> closer set) \<Rightarrow> ('k \<Rightarrow> bpf_object set) \<Rightarrow> closer set \<Rightarrow> 'k agent \<Rightarrow> bool" where
  "holds_none attached opened att s \<longleftrightarrow>
     m_links (ag_mgr s) = [] \<and> attached (ag_k s) = att \<and> opened (ag_k s) = {}"

definition host_inv ::
  "('k \<Rightarrow> closer set) \<Rightarrow> ('k \<Rightarrow> bpf_object set) \<Rightarrow> closer set \<Rightarrow> manager \<Rightarrow> 'k agent \<Rightarrow> bool" where
  "host_inv attached opened att m s \<longleftrightarrow> (case ag_main s of
     Waiting \<Rightarrow> holds_all attached att m s
   | Unwinding ds \<Rightarrow>
       (if D_close \<in> set ds then holds_all attached att m s else holds_none attached opened att s) \<and>
       ds \<in> {[D_cancel, D_close, D_sync], [D_close, D_sync], [D_sync], []}
   | Exited x \<Rightarrow> holds_none attached opened att s \<or>
       x \<noteq> Exit_Return \<and> ag_mgr s = m \<and> opened (ag_k s) = {} \<and>
       attached (ag_k s) = att \<union> {c \<in> set (m_links m). \<not> is_link c})"

context agent_host
begin

text \<open>The invariant looks at the host, the manager and the main goroutine only.\<close>

lemma host_inv_cong:
  assumes "host_inv attached opened att m s" and "same_host attached opened (ag_k s) (ag_k s')"
    and "ag_main s' = ag_main s" and "ag_mgr s' = ag_mgr s"
  shows "host_inv attached opened att m s'"
  using assms by (auto simp: host_inv_def holds_all_def holds_none_def same_host_def split: main_pc.splits if_splits)

lemma host_inv_exit:
  assumes "host_inv attached opened att m s" and "\<not> exited s" and "x \<noteq> Exit_Return" and "att \<inter> set (m_links m) = {}"
  shows "host_inv attached opened att m (exit_process P x s)"
proof (cases "holds_none attached opened att s")
  case True
  then show ?thesis by (simp add: host_inv_def holds_none_def exit_attached exit_opened)
next
  case False
  with assms(1,2) have "holds_all attached att m s"
    by (auto simp: host_inv_def exited_def split: main_pc.splits if_splits)
  with assms(3,4) show ?thesis
    by (auto simp: host_inv_def holds_all_def exit_attached exit_opened)
qed

lemma host_inv_main:
  assumes step: "ag_step H A Op P attached unpack env By_Main s s'" and inv: "host_inv attached opened att m s"
    and c: "closes_succeed Op" and d: "att \<inter> set (m_links m) = {}"
  shows "host_inv attached opened att m s'"
  using step
proof (cases rule: ag_step.cases)
  case wake
  with inv show ?thesis by (simp add: host_inv_def main_defers_def holds_all_def)
next
  case (cancel ds)
  with inv show ?thesis by (auto simp: host_inv_def holds_all_def)
next
  case (close ds m' k' ok)
  have ds: "ds = [D_sync]" and a: "holds_all attached att m s" using inv close(2) by (auto simp: host_inv_def)
  have "m_links m' = []" "opened k' = {}" "attached k' = att"
    using Close_clean [OF close(3) c] a d by (auto simp: holds_all_def)
  then show ?thesis using close ds by (simp add: host_inv_def holds_none_def)
next
  case (sync ds)
  with inv show ?thesis by (auto simp: host_inv_def holds_none_def)
next
  case return
  with inv show ?thesis by (auto simp: host_inv_def holds_none_def exit_attached exit_opened)
qed

lemma host_inv_reader:
  assumes step: "ag_step H A Op P attached unpack env By_Reader s s'" and inv: "host_inv attached opened att m s"
    and d: "att \<inter> set (m_links m) = {}"
  shows "host_inv attached opened att m s'"
  using step
proof (cases rule: ag_step.cases)
  case (open_ok r k')
  show ?thesis by (rule host_inv_cong [OF inv]) (use open_ok reader_host in auto)
next
  case (open_failed r k')
  have "host_inv attached opened att m (set_k k' s)"
    by (rule host_inv_cong [OF inv]) (use open_failed reader_host in auto)
  with open_failed(1,2) d show ?thesis by (auto intro!: host_inv_exit simp: exited_def)
next
  case (reader_close r)
  show ?thesis by (rule host_inv_cong [OF inv]) (use reader_close in \<open>auto simp: same_host_def\<close>)
next
  case (dns_iter st k' t)
  have t: "host_inv attached opened att m t"
    by (rule host_inv_cong [OF inv]) (use dns_iter dns_iter_host [OF dns_iter(5)] in auto)
  moreover have "\<not> exited t" using dns_iter(2,6) by (simp add: exited_def)
  ultimately show ?thesis using dns_iter(1) d by (auto intro!: host_inv_exit)
next
  case (redirect_iter st entry k' t)
  have t: "host_inv attached opened att m t"
    by (rule host_inv_cong [OF inv]) (use redirect_iter redirect_iter_host [OF redirect_iter(5)] in auto)
  moreover have "\<not> exited t" using redirect_iter(2,6) by (simp add: exited_def)
  ultimately show ?thesis using redirect_iter(1) d by (auto intro!: host_inv_exit)
qed

lemma host_inv_outside:
  assumes step: "ag_step H A Op P attached unpack env u s s'" and inv: "host_inv attached opened att m s"
    and u: "u = By_Kernel \<or> u = By_Signal" and d: "att \<inter> set (m_links m) = {}"
    and env: "\<And>k k'. env k k' \<Longrightarrow> same_host attached opened k k'"
  shows "host_inv attached opened att m s'"
  using step
proof (cases rule: ag_step.cases)
  case (packet f skb r k')
  show ?thesis by (rule host_inv_cong [OF inv]) (use packet tc_host in auto)
next
  case (connect l ctx r ctx' k')
  show ?thesis by (rule host_inv_cong [OF inv]) (use connect connect_host in auto)
next
  case (environment k')
  show ?thesis by (rule host_inv_cong [OF inv]) (use environment env in auto)
next
  case signal
  show ?thesis by (rule host_inv_cong [OF inv]) (use signal in \<open>auto simp: same_host_def\<close>)
next
  case kill
  with inv d show ?thesis by (auto intro: host_inv_exit)
qed (use u in simp_all)

lemma host_inv_step:
  assumes step: "ag_step H A Op P attached unpack env u s s'" and inv: "host_inv attached opened att m s"
    and c: "closes_succeed Op" and d: "att \<inter> set (m_links m) = {}"
    and env: "\<And>k k'. env k k' \<Longrightarrow> same_host attached opened k k'"
  shows "host_inv attached opened att m s'"
proof (cases u)
  case By_Main
  with step show ?thesis using host_inv_main inv c d by blast
next
  case By_Reader
  with step show ?thesis using host_inv_reader inv d by blast
qed (use host_inv_outside [OF step inv _ d env] in blast)+

lemma host_inv_run:
  assumes "ag_run H A Op P attached unpack env (ag_start k m) us s"
    and start: "attached k = att \<union> set (m_links m)" "att \<inter> set (m_links m) = {}"
    and c: "closes_succeed Op" and env: "\<And>k k'. env k k' \<Longrightarrow> same_host attached opened k k'"
  shows "host_inv attached opened att m s"
  using assms(1)
proof (induction rule: ag_run.induct)
  case run_empty
  show ?case using start by (simp add: host_inv_def ag_start_def holds_all_def sys_start_def)
next
  case (run_step us s' u s'')
  from run_step(2,3) show ?case by (rule host_inv_step [OF _ _ c start(2) env])
qed

end

subsection \<open>Starting again\<close>

text \<open>The filter that \<^verbatim>\<open>attachTC\<close> adds is a function of the index of the interface.\<close>

definition filter_at :: "'k os_ops \<Rightarrow> nat \<Rightarrow> bpf_filter" where
  "filter_at Op index = \<lparr>f_LinkIndex = index, f_Parent = MakeHandle Op tcClsactMajor tcIngressMinor,
     f_Handle = MakeHandle Op 0 tcFilterHandle, f_Protocol = ETH_P_ALL Op, f_Priority = tcFilterPriority,
     f_Fd = TcDnsObserver, f_Name = ''tc_dns_observer'', f_DirectAction = True\<rparr>"

lemma attachTC_links:
  "attachTC Op index m k = (m', k', None) \<Longrightarrow> m_links m' = m_links m @ [Tc_Attachment (filter_at Op index)]"
  by (auto simp: attachTC_def filter_at_def Let_def split: prod.splits option.splits if_splits)

lemma attachCgroup_links:
  "attachCgroup Op path m k = (m', k', None) \<Longrightarrow> \<exists>l. m_links m' = m_links m @ [Cgroup_Link l]"
  by (auto simp: attachCgroup_def split: prod.splits option.splits)

lemma NewManager_links:
  assumes "NewManager Op A cfg k = (k', Inr m)"
  obtains index l where "m_links m = [Tc_Attachment (filter_at Op index), Cgroup_Link l]"
  using assms that
  by (auto simp: NewManager_def Let_def closeLinks_def split: prod.splits option.splits load_error.splits
      dest!: attachTC_links attachCgroup_links)

lemma agent_start_manager:
  assumes "agent_start ReadEnv Z Op A environ k = (k', Started m)"
  obtains cfg where "Load ReadEnv environ = Some cfg" "NewManager Op A (with_default_domains cfg) k = (k', Inr m)"
  using assms that by (auto simp: agent_start_cases split: option.splits sum.splits prod.splits)

context host_os
begin

lemma agent_start_links:
  assumes "agent_start ReadEnv Z Op A environ k = (k', Started m)"
  obtains index l where "m_links m = [Tc_Attachment (filter_at Op index), Cgroup_Link l]"
    "attached k' = attached k \<union> set (m_links m)" "attached k \<inter> set (m_links m) = {}" "opened k' = UNIV"
proof -
  obtain cfg where n: "NewManager Op A (with_default_domains cfg) k = (k', Inr m)"
    by (rule agent_start_manager [OF assms])
  obtain f l where f: "m_links m = [Tc_Attachment f, Cgroup_Link l]" "Tc_Attachment f \<notin> attached k"
    "Cgroup_Link l \<notin> attached k" "attached k' = attached k \<union> set (m_links m)" "opened k' = UNIV"
    by (rule NewManager_ok [OF n])
  obtain index l' where "m_links m = [Tc_Attachment (filter_at Op index), Cgroup_Link l']"
    by (rule NewManager_links [OF n])
  with f that show thesis by auto
qed

end

subsection \<open>The reference process\<close>

definition ref_exit :: "closer list \<Rightarrow> ref_host \<Rightarrow> ref_host" where
  "ref_exit ls k = k\<lparr>rh_attached := filter (\<lambda>c. \<not> (c \<in> set ls \<and> is_link c)) (rh_attached k), rh_opened := []\<rparr>"

definition ref_proc :: "bool \<Rightarrow> ref_host proc_ops" where
  "ref_proc readable = \<lparr>NewReader = (\<lambda>r k. (k, readable)), process_exit = ref_exit\<rparr>"

lemma ref_set_pending_host [simp]: fixes k :: ref_host
  shows "rh_attached (ref_set_pending r q k) = rh_attached k" "rh_opened (ref_set_pending r q k) = rh_opened k"
  by (cases r; simp)+

interpretation rp: agent_host ref_helpers ref_pending ref_dests rk_proxy ref_agent ref_os ref_attached ref_opened
  "ref_proc readable" for readable
  by unfold_locales
    (auto simp: same_host_def ref_attached_def ref_opened_def ref_helpers_def ref_agent_def ref_reserve_def
      ref_lookup_def ref_update_def ref_read_def ref_proc_def ref_exit_def split: if_splits list.splits option.splits)

text \<open>
  An orderly life on the reference host: start, a signal, and the five steps of \<^verbatim>\<open>main\<close> up to its
  return, \<^verbatim>\<open>Close\<close> among them.
\<close>

abbreviation ref_run ::
  "bool \<Rightarrow> ref_host agent \<Rightarrow> actor list \<Rightarrow> ref_host agent \<Rightarrow> bool" where
  "ref_run readable \<equiv> ag_run ref_helpers ref_agent ref_os (ref_proc readable) ref_attached example_unpack
     (same_host ref_attached ref_opened)"

lemma example_start:
  obtains k m where "agent_start ref_ReadEnv ref_zap ref_os ref_agent example_environ ref_host_init = (k, Started m)"
    "rh_interfaces k = rh_interfaces ref_host_init" "m_links m = [Tc_Attachment (filter_at ref_os 2), Cgroup_Link 1]"
    "m_AIDomains m = DefaultAIDomains" "rk_dns k = []" "rk_redirect k = []" "rk_dests k = []" "\<not> rk_closed k"
proof -
  note ev = agent_start_cases example_environ_config example_level with_default_domains_def manager_run
    filter_at_def fresh_link_def
  obtain k m where st: "agent_start ref_ReadEnv ref_zap ref_os ref_agent example_environ ref_host_init = (k, Started m)"
    by (simp add: ev)
  show thesis by (rule that [OF st]) (use st in \<open>auto simp: ev\<close>)
qed

lemma example_restart:
  assumes "rh_interfaces k = rh_interfaces ref_host_init" and "Tc_Attachment (filter_at ref_os 2) \<in> set (rh_attached k)"
  shows "snd (agent_start ref_ReadEnv ref_zap ref_os ref_agent example_environ k) = Start_Fatal (Filter_Failed EEXIST)"
  using assms
  by (simp add: agent_start_cases example_environ_config example_level with_default_domains_def manager_run
      filter_at_def objs_Close_all split: prod.splits)

lemma example_shutdown:
  obtains s where "ref_run readable (ag_start k m) [By_Signal, By_Main, By_Main, By_Main, By_Main, By_Main] s"
    "ag_main s = Exited Exit_Return"
proof -
  let ?R = "ref_run readable (ag_start k m)"
  let ?s1 = "(ag_start k m)\<lparr>ag_done := True\<rparr>"
  let ?s2 = "?s1\<lparr>ag_main := Unwinding [D_cancel, D_close, D_sync]\<rparr>"
  let ?s3 = "?s2\<lparr>ag_main := Unwinding [D_close, D_sync], ag_done := True\<rparr>"
  obtain m' k' ok where cl: "Close ref_os (ag_mgr ?s3) (ag_k ?s3) = (m', k', ok)" by (metis prod_cases3)
  let ?s4 = "set_k k' ?s3\<lparr>ag_main := Unwinding [D_sync], ag_mgr := m'\<rparr>"
  let ?s5 = "?s4\<lparr>ag_main := Unwinding []\<rparr>"
  have "?R ([] @ [By_Signal]) ?s1"
    by (intro ag_run.run_step [OF ag_run.run_empty] ag_step.signal) (simp add: exited_def ag_start_def)
  then have "?R (([] @ [By_Signal]) @ [By_Main]) ?s2"
    by (rule ag_run.run_step) (use ag_step.wake [of ?s1] in \<open>simp add: ag_start_def main_defers_def\<close>)
  then have "?R ((([] @ [By_Signal]) @ [By_Main]) @ [By_Main]) ?s3"
    by (rule ag_run.run_step) (rule ag_step.cancel, simp)
  then have "?R (((([] @ [By_Signal]) @ [By_Main]) @ [By_Main]) @ [By_Main]) ?s4"
    by (rule ag_run.run_step) (rule ag_step.close [OF _ cl], simp)
  then have "?R ((((([] @ [By_Signal]) @ [By_Main]) @ [By_Main]) @ [By_Main]) @ [By_Main]) ?s5"
    by (rule ag_run.run_step) (rule ag_step.sync, simp)
  then have "?R (((((([] @ [By_Signal]) @ [By_Main]) @ [By_Main]) @ [By_Main]) @ [By_Main]) @ [By_Main])
      (exit_process (ref_proc readable) Exit_Return ?s5)"
    by (rule ag_run.run_step) (rule ag_step.return, simp)
  with that show thesis by simp
qed

lemma example_fatal:
  "ref_run False (ag_start k m) [By_Reader] (exit_process (ref_proc False) Exit_Fatal (ag_start k m))"
proof -
  have "ag_step ref_helpers ref_agent ref_os (ref_proc False) ref_attached example_unpack
      (same_host ref_attached ref_opened) By_Reader (ag_start k m) (exit_process (ref_proc False) Exit_Fatal (ag_start k m))"
    using ag_step.open_failed [where s = "ag_start k m" and r = Dns_Events and P = "ref_proc False" and k' = k]
    by (simp add: exited_def ag_start_def ref_proc_def sys_start_def)
  from ag_run.run_step [OF ag_run.run_empty this] show ?thesis by simp
qed

subsection \<open>Properties of the life of the agent\<close>





text \<open>
  C18. An exit that skips \<^verbatim>\<open>Close\<close>, as after \<^verbatim>\<open>log.Fatal\<close> in a reader, a panic or a kill, takes the
  connect hook off the host but leaves the TC filter, and from then on every start, with whatever
  configuration, that would attach to the same interface fails.
\<close>

theorem unclean_exit_blocks_restart:
  assumes "agent_host H pending dests proxy A Op attached opened P" and "closes_succeed Op"
    and "agent_start ReadEnv Z Op A environ k0 = (k, Started m)"
    and "ag_run H A Op P attached unpack (same_host attached opened) (ag_start k m) us s"
    and "exited s" and "m_links (ag_mgr s) \<noteq> []"
  shows "ag_main s \<noteq> Exited Exit_Return \<and>
    (\<exists>f. attached (ag_k s) = insert (Tc_Attachment f) (attached k0) \<and> Tc_Attachment f \<notin> attached k0 \<and>
       (\<forall>environ' k2 m2. agent_start ReadEnv Z Op A environ' (ag_k s) = (k2, Started m2) \<longrightarrow>
          (\<exists>f2. Tc_Attachment f2 \<in> set (m_links m2) \<and> f_LinkIndex f2 \<noteq> f_LinkIndex f)))"
proof -
  have h: "host_os Op A proxy attached opened" by (rule agent_host.axioms(2) [OF assms(1)])
  obtain index l where m: "m_links m = [Tc_Attachment (filter_at Op index), Cgroup_Link l]"
    and k: "attached k = attached k0 \<union> set (m_links m)" "attached k0 \<inter> set (m_links m) = {}"
    by (rule host_os.agent_start_links [OF h assms(3)])
  have inv: "host_inv attached opened (attached k0) m s"
    by (rule agent_host.host_inv_run [OF assms(1,4) k assms(2)])
  let ?f = "filter_at Op index"
  have s: "ag_main s \<noteq> Exited Exit_Return" "attached (ag_k s) = insert (Tc_Attachment ?f) (attached k0)"
    using inv assms(5,6) m by (auto simp: host_inv_def holds_none_def exited_def is_link_def)
  have "\<exists>f2. Tc_Attachment f2 \<in> set (m_links m2) \<and> f_LinkIndex f2 \<noteq> f_LinkIndex ?f"
    if r: "agent_start ReadEnv Z Op A environ' (ag_k s) = (k2, Started m2)" for environ' k2 m2
  proof -
    obtain index2 l2 where "m_links m2 = [Tc_Attachment (filter_at Op index2), Cgroup_Link l2]"
      "attached (ag_k s) \<inter> set (m_links m2) = {}"
      by (rule host_os.agent_start_links [OF h r])
    with s(2) show ?thesis by (auto simp: filter_at_def)
  qed
  moreover have "Tc_Attachment ?f \<notin> attached k0" using k(2) m by simp
  ultimately show ?thesis using s by blast
qed

theorem unclean_exit_blocks_restart_witness:
  "\<exists>k m s f. agent_start ref_ReadEnv ref_zap ref_os ref_agent example_environ ref_host_init = (k, Started m) \<and>
     ref_run False (ag_start k m) [By_Reader] s \<and> ag_main s = Exited Exit_Fatal \<and>
     ref_attached (ag_k s) = {Tc_Attachment f} \<and>
     snd (agent_start ref_ReadEnv ref_zap ref_os ref_agent example_environ (ag_k s)) = Start_Fatal (Filter_Failed EEXIST)"
proof -
  obtain k m where st: "agent_start ref_ReadEnv ref_zap ref_os ref_agent example_environ ref_host_init = (k, Started m)"
    and i: "rh_interfaces k = rh_interfaces ref_host_init"
    and l: "m_links m = [Tc_Attachment (filter_at ref_os 2), Cgroup_Link 1]"
    by (rule example_start)
  define s where "s = exit_process (ref_proc False) Exit_Fatal (ag_start k m)"
  have run: "ref_run False (ag_start k m) [By_Reader] s" unfolding s_def by (rule example_fatal)
  have ex: "exited s" "m_links (ag_mgr s) \<noteq> []" "ag_main s = Exited Exit_Fatal"
    by (simp_all add: s_def exited_def ag_start_def l)
  have a0: "ref_attached ref_host_init = {}" by (simp add: ref_host_init_def ref_attached_def)
  obtain f where f: "ref_attached (ag_k s) = {Tc_Attachment f}"
    using unclean_exit_blocks_restart [OF rp.agent_host_axioms ref_os_closes st run ex(1,2)]
    unfolding a0 by metis
  have "ref_attached k = ref_attached ref_host_init \<union> set (m_links m)" by (rule rh.agent_start_links [OF st])
  then have "Tc_Attachment (filter_at ref_os 2) \<in> set (rh_attached k)" by (simp add: l ref_attached_def)
  moreover have "ag_k s = ref_exit (m_links m) k"
    by (simp add: s_def ag_start_def ref_proc_def sys_start_def)
  ultimately have "snd (agent_start ref_ReadEnv ref_zap ref_os ref_agent example_environ (ag_k s)) = Start_Fatal (Filter_Failed EEXIST)"
    by (intro example_restart) (simp_all add: ref_exit_def is_link_def i)
  with st run ex(3) f show ?thesis by (intro exI conjI)
qed

end
