(* ===== verification/Interceptor_Spec.thy ===== *)
theory Interceptor_Spec
  imports System
begin

text \<open>
  What the agent promises, as a small state machine, and the proof that the running system refines
  it. The abstract interceptor knows a set of addresses; it learns them from the answers it has
  captured, in the order of their arrival, forgets any of them at any time, sends connects to known
  addresses to the proxy and all others on, and logs redirects in the order in which they happened.
  It may lose a frame or a report, as the code does when a ring buffer is full.
\<close>

subsection \<open>The abstract interceptor\<close>

record spec =
  sp_answers :: "bytes list"
  sp_known :: "u32 set"
  sp_reports :: "sock_addr list"
  sp_frames :: "bytes list"
  sp_connects :: "(sock_addr \<times> sock_addr) list"
  sp_log :: "log_entry list"

text \<open>The addresses that an answer gives to AI host names.\<close>

definition learned :: "unpacker \<Rightarrow> string list \<Rightarrow> bytes \<Rightarrow> u32 set" where
  "learned unpack D m = {le_word ip4 |ip4 h ttl answer. unpack m = Some answer \<and> ai_resolution D answer ip4 h ttl}"

inductive spec_step :: "unpacker \<Rightarrow> string list \<Rightarrow> proxy_cfg \<Rightarrow> spec \<Rightarrow> spec \<Rightarrow> bool"
  for unpack D c where
  capture: "dns_capture p = Some m \<Longrightarrow>
     spec_step unpack D c a (a\<lparr>sp_answers := sp_answers a @ [m], sp_frames := sp_frames a @ [p]\<rparr>)"
| ignore: "spec_step unpack D c a (a\<lparr>sp_frames := sp_frames a @ [p]\<rparr>)"
| learn: "sp_answers a = m # ms \<Longrightarrow> known \<subseteq> sp_known a \<union> learned unpack D m \<Longrightarrow>
     spec_step unpack D c a (a\<lparr>sp_answers := ms, sp_known := known\<rparr>)"
| forget: "known \<subseteq> sp_known a \<Longrightarrow> spec_step unpack D c a (a\<lparr>sp_known := known\<rparr>)"
| send_to_proxy: "user_ip4 ctx \<in> sp_known a \<Longrightarrow> rs \<in> {sp_reports a, sp_reports a @ [ctx]} \<Longrightarrow>
     spec_step unpack D c a (a\<lparr>sp_reports := rs, sp_connects := sp_connects a @ [(ctx, redirect c ctx)]\<rparr>)"
| let_through: "user_ip4 ctx \<notin> sp_known a \<Longrightarrow>
     spec_step unpack D c a (a\<lparr>sp_connects := sp_connects a @ [(ctx, ctx)]\<rparr>)"
| log: "sp_reports a = ctx # ctxs \<Longrightarrow> logs c ctx e \<Longrightarrow>
     spec_step unpack D c a (a\<lparr>sp_reports := ctxs, sp_log := sp_log a @ [e]\<rparr>)"

definition spec_start :: spec where
  "spec_start = \<lparr>sp_answers = [], sp_known = {}, sp_reports = [], sp_frames = [], sp_connects = [], sp_log = []\<rparr>"

inductive spec_reachable :: "unpacker \<Rightarrow> string list \<Rightarrow> proxy_cfg \<Rightarrow> spec \<Rightarrow> bool"
  for unpack D c where
  spec_reachable_start: "spec_reachable unpack D c spec_start"
| spec_reachable_step: "spec_reachable unpack D c a \<Longrightarrow> spec_step unpack D c a a' \<Longrightarrow> spec_reachable unpack D c a'"

inductive_cases spec_stepE: "spec_step unpack D c a a'"

subsection \<open>Order of the log\<close>

text \<open>The contexts that went to the proxy, in order.\<close>

definition sent :: "proxy_cfg \<Rightarrow> (sock_addr \<times> sock_addr) list \<Rightarrow> sock_addr list" where
  "sent c conns = map fst (filter (\<lambda>x. snd x = redirect c (fst x)) conns)"

lemma sent_append [simp]: "sent c (xs @ ys) = sent c xs @ sent c ys"
  by (simp add: sent_def)

lemma sent_one [simp]: "sent c [(ctx, redirect c ctx)] = [ctx]"
  by (simp add: sent_def)

text \<open>The connects already logged, followed by those still to be logged, are among those sent, in order.\<close>

definition log_ordered :: "proxy_cfg \<Rightarrow> spec \<Rightarrow> bool" where
  "log_ordered c a \<longleftrightarrow> (\<exists>ctxs. list_all2 (logs c) ctxs (sp_log a) \<and>
     subseq (ctxs @ sp_reports a) (sent c (sp_connects a)))"

lemma log_ordered_step:
  assumes "log_ordered c a" and "spec_step unpack D c a a'"
  shows "log_ordered c a'"
proof -
  obtain ctxs where l: "list_all2 (logs c) ctxs (sp_log a)"
    and s: "subseq (ctxs @ sp_reports a) (sent c (sp_connects a))"
    using assms(1) by (auto simp: log_ordered_def)
  from assms(2) show ?thesis
  proof (cases rule: spec_step.cases)
    case (send_to_proxy ctx rs)
    have "subseq (ctxs @ rs) (sent c (sp_connects a) @ [ctx])"
      using send_to_proxy(3) s list_emb_append_mono [OF s, of "[ctx]" "[ctx]"] by (auto intro: list_emb_prefix)
    with l send_to_proxy(1) show ?thesis by (auto simp: log_ordered_def)
  next
    case (let_through ctx)
    with l s show ?thesis by (auto simp: log_ordered_def intro!: exI [of _ ctxs] list_emb_prefix)
  next
    case (log ctx rest e)
    with l s have "list_all2 (logs c) (ctxs @ [ctx]) (sp_log a')"
      "subseq ((ctxs @ [ctx]) @ sp_reports a') (sent c (sp_connects a'))"
      by (auto intro: list_all2_appendI)
    then show ?thesis unfolding log_ordered_def by blast
  qed (use l s in \<open>auto simp: log_ordered_def\<close>)
qed

lemma log_ordered_reachable: "spec_reachable unpack D c a \<Longrightarrow> log_ordered c a"
proof (induction rule: spec_reachable.induct)
  case spec_reachable_start
  show ?case by (simp add: log_ordered_def spec_start_def)
qed (rule log_ordered_step)

subsection \<open>Simulation\<close>

text \<open>
  The relation between a system state and a state of the interceptor: equal histories, the waiting
  samples are the events of the waiting answers and reports, the known addresses are the keys of the
  map, and each entry has a host name field of full length.
\<close>

definition refines ::
  "(ring \<Rightarrow> 'k \<Rightarrow> bytes list) \<Rightarrow> ('k \<Rightarrow> u32 \<Rightarrow> ai_dest_info option) \<Rightarrow> ('k \<Rightarrow> proxy_cfg) \<Rightarrow> proxy_cfg \<Rightarrow>
   'k sys \<Rightarrow> spec \<Rightarrow> bool" where
  "refines pending dests proxy c s a \<longleftrightarrow>
     proxy (sys_k s) = c \<and>
     list_all2 (\<lambda>m ev. m \<noteq> [] \<and> dns_event_for m ev) (sp_answers a) (pending Dns_Events (sys_k s)) \<and>
     list_all2 (reports c) (sp_reports a) (pending Redirect_Events (sys_k s)) \<and>
     sp_known a = dom (dests (sys_k s)) \<and>
     (\<forall>x i. dests (sys_k s) x = Some i \<longrightarrow> length (info_hostname i) = MAX_HOSTNAME_LEN) \<and>
     sp_frames a = sys_frames s \<and> sp_connects a = sys_connects s \<and> sp_log a = sys_log s"

lemma refines_hostname:
  "refines pending dests proxy c s a \<Longrightarrow> dests (sys_k s) x = Some i \<Longrightarrow> length (info_hostname i) = MAX_HOSTNAME_LEN"
  by (simp add: refines_def)

lemma refines_start:
  assumes "\<And>r. pending r k = []" and "\<And>a. dests k a = None"
  shows "refines pending dests proxy (proxy k) (sys_start k) spec_start"
  using assms by (simp add: refines_def sys_start_def spec_start_def dom_def)

context agent_kernel
begin

lemma sim_packet:
  assumes R: "refines pending dests proxy c s a" and ok: "skb_ok skb"
    and run: "tc_dns_observer H skb (sys_k s) = (r, k')"
  shows "\<exists>a'. spec_step unpack D c a a' \<and>
    refines pending dests proxy c (s\<lparr>sys_k := k', sys_frames := sys_frames s @ [skb_data skb]\<rparr>) a'"
proof -
  obtain k1 mem where res: "ringbuf_reserve H Dns_Events (sizeof dns_event_t) (sys_k s) = (k1, mem)"
    by fastforce
  note fr = tc_dns_observer_frame [OF run]
  let ?p = "skb_data skb"
  consider "pending Dns_Events k' = pending Dns_Events (sys_k s)"
    | m ev where "dns_capture ?p = Some m" "dns_event_for m ev" "pending Dns_Events k' = pending Dns_Events (sys_k s) @ [ev]"
    using tc_dns_observer_capture [OF ok run res] by (auto split: option.splits if_splits)
  then show ?thesis
  proof cases
    case 1
    let ?a = "a\<lparr>sp_frames := sp_frames a @ [?p]\<rparr>"
    have "refines pending dests proxy c (s\<lparr>sys_k := k', sys_frames := sys_frames s @ [?p]\<rparr>) ?a"
      using 1 R fr by (simp add: refines_def)
    with spec_step.ignore show ?thesis by blast
  next
    case (2 m ev)
    let ?a = "a\<lparr>sp_answers := sp_answers a @ [m], sp_frames := sp_frames a @ [?p]\<rparr>"
    have "refines pending dests proxy c (s\<lparr>sys_k := k', sys_frames := sys_frames s @ [?p]\<rparr>) ?a"
      using 2 R fr dns_capture_nonempty [OF 2(1)] by (simp add: refines_def list_all2_appendI)
    with spec_step.capture [OF 2(1)] show ?thesis by blast
  qed
qed

lemma sim_connect:
  assumes R: "refines pending dests proxy c s a"
    and run: "cgroup_connect4 H ctx (sys_k s) = (r, ctx', k')"
  shows "\<exists>a'. spec_step unpack D c a a' \<and>
    refines pending dests proxy c (s\<lparr>sys_k := k', sys_connects := sys_connects s @ [(ctx, ctx')]\<rparr>) a'"
proof -
  note cs = cgroup_connect4_cases [OF run]
  show ?thesis
  proof (cases "dests (sys_k s) (user_ip4 ctx)")
    case None
    let ?a = "a\<lparr>sp_connects := sp_connects a @ [(ctx, ctx)]\<rparr>"
    have "user_ip4 ctx \<notin> sp_known a" using None R by (auto simp: refines_def)
    moreover have "refines pending dests proxy c (s\<lparr>sys_k := k', sys_connects := sys_connects s @ [(ctx, ctx')]\<rparr>) ?a"
      using None R cs(2-4) cs(5) [OF None] by (simp add: refines_def)
    ultimately show ?thesis using spec_step.let_through by blast
  next
    case (Some info)
    let ?q = "pending Redirect_Events (sys_k s)"
    have len: "length (info_hostname info) = MAX_HOSTNAME_LEN" and p: "proxy (sys_k s) = c"
      using R Some by (auto simp: refines_def)
    have "\<exists>rs \<in> {sp_reports a, sp_reports a @ [ctx]}. list_all2 (reports c) rs (pending Redirect_Events k')"
    proof (cases "pending Redirect_Events k' = ?q")
      case False
      then obtain ev k2 where ev: "length ev = sizeof redirect_event_t"
        and q: "pending Redirect_Events k' = ?q @ [fill_redirect_event H (user_ip4 ctx) (ucast (user_port ctx)) info c k2 ev]"
        using cs(6) [OF Some] by (auto simp: p simp del: sizeof_structs)
      have "reports c ctx (fill_redirect_event H (user_ip4 ctx) (ucast (user_port ctx)) info c k2 ev)"
        using fill_redirect_event_fields [OF ev len refl] by (simp add: reports_def)
      with R q show ?thesis by (auto simp: refines_def intro: list_all2_appendI)
    qed (use R in \<open>auto simp: refines_def\<close>)
    then obtain rs where rs: "rs \<in> {sp_reports a, sp_reports a @ [ctx]}"
      "list_all2 (reports c) rs (pending Redirect_Events k')" by blast
    let ?a = "a\<lparr>sp_reports := rs, sp_connects := sp_connects a @ [(ctx, redirect c ctx)]\<rparr>"
    have "user_ip4 ctx \<in> sp_known a" using R Some by (auto simp: refines_def)
    moreover have "refines pending dests proxy c (s\<lparr>sys_k := k', sys_connects := sys_connects s @ [(ctx, ctx')]\<rparr>) ?a"
      using R rs(2) cs(2-4) cs(6) [OF Some] by (simp add: refines_def)
    ultimately show ?thesis using spec_step.send_to_proxy [OF _ rs(1)] by blast
  qed
qed

lemma sim_dns_read:
  assumes R: "refines pending dests proxy c s a"
    and run: "ReadDNSEvents_iter A unpack D (sys_k s) = (st, k')"
  shows "\<exists>a'. (a' = a \<or> spec_step unpack D c a a') \<and>
    refines pending dests proxy c (s\<lparr>sys_k := k', sys_dns := st\<rparr>) a'"
proof -
  obtain k1 x where rd: "read_into A Dns_Events (sys_k s) = (k1, x)" by fastforce
  note fr = read_pending [OF rd] read_frame [OF rd, of Redirect_Events] read_maps [OF rd]
  show ?thesis
  proof (cases x)
    case (Read_Record raw)
    then obtain m ms where m: "sp_answers a = m # ms" "m \<noteq> []" "dns_event_for m raw"
      and ms: "list_all2 (\<lambda>m ev. m \<noteq> [] \<and> dns_event_for m ev) ms (pending Dns_Events k1)"
      using fr R by (auto simp: refines_def list_all2_Cons2)
    obtain ok where pr: "ProcessDNSEvent A unpack D m k1 = (k', ok)"
      using run rd handle_dns_event [OF m(3,2), of A unpack D k1] Read_Record
      by (cases "ProcessDNSEvent A unpack D m k1") (simp add: ReadDNSEvents_iter_def)
    note eff = ProcessDNSEvent_effect [OF pr]
    have "dom (dests k') \<subseteq> sp_known a \<union> learned unpack D m"
      using eff(4) R fr
      by (auto simp: grows_by_def refines_def learned_def resolved_entry_def entry_for_def dom_def) blast
    moreover have "length (info_hostname i) = MAX_HOSTNAME_LEN" if "dests k' x = Some i" for x i
    proof -
      have "dests (sys_k s) x = Some i \<or> (\<exists>h. info_hostname i = hostname_field h)"
        using eff(4) that fr by (auto simp: grows_by_def resolved_entry_def entry_for_def)
      then show ?thesis using refines_hostname [OF R] by (auto simp: c_consts)
    qed
    ultimately show ?thesis
      using spec_step.learn [OF m(1), of "dom (dests k')" unpack D c] R eff fr ms
      by (intro exI [of _ "a\<lparr>sp_answers := ms, sp_known := dom (dests k')\<rparr>"]) (simp add: refines_def)
  qed (use R run rd fr in \<open>auto simp: refines_def ReadDNSEvents_iter_def\<close>)
qed

lemma sim_redirect_read:
  assumes R: "refines pending dests proxy c s a"
    and run: "ReadRedirectEvents_iter A (sys_k s) = (st, entry, k')"
  shows "\<exists>a'. (a' = a \<or> spec_step unpack D c a a') \<and>
    refines pending dests proxy c (s\<lparr>sys_k := k', sys_redirect := st,
      sys_log := sys_log s @ (case entry of None \<Rightarrow> [] | Some e \<Rightarrow> [e])\<rparr>) a'"
proof -
  obtain k1 x where rd: "read_into A Redirect_Events (sys_k s) = (k1, x)" by fastforce
  note fr = read_pending [OF rd] read_frame [OF rd, of Dns_Events] read_maps [OF rd]
  show ?thesis
  proof (cases x)
    case (Read_Record raw)
    then obtain ctx ctxs where ctx: "sp_reports a = ctx # ctxs" "reports c ctx raw"
      and q: "list_all2 (reports c) ctxs (pending Redirect_Events k1)"
      using fr R by (auto simp: refines_def list_all2_Cons2)
    obtain e where e: "map_option log_redirect (ringbufCast raw) = Some e" "logs c ctx e"
      by (rule reports_logged [OF ctx(2)])
    then have "entry = Some e" "k' = k1"
      using run rd Read_Record by (auto simp: ReadRedirectEvents_iter_def)
    then show ?thesis
      using spec_step.log [OF ctx(1) e(2), of unpack D] R fr q
      by (intro exI [of _ "a\<lparr>sp_reports := ctxs, sp_log := sp_log a @ [e]\<rparr>"]) (simp add: refines_def)
  qed (use R run rd fr in \<open>auto simp: refines_def ReadRedirectEvents_iter_def\<close>)
qed

lemma sim_environment:
  assumes R: "refines pending dests proxy c s a" and env: "env_change pending dests proxy (sys_k s) k'"
  shows "\<exists>a'. spec_step unpack D c a a' \<and> refines pending dests proxy c (s\<lparr>sys_k := k'\<rparr>) a'"
proof -
  have d: "dests k' x = Some i \<Longrightarrow> dests (sys_k s) x = Some i" for x i
    using env by (auto simp: env_change_def) (metis option.distinct(1))
  then have "dom (dests k') \<subseteq> sp_known a" using R by (auto simp: refines_def)
  moreover have "refines pending dests proxy c (s\<lparr>sys_k := k'\<rparr>) (a\<lparr>sp_known := dom (dests k')\<rparr>)"
    using R env refines_hostname [OF R d] by (simp add: refines_def env_change_def)
  ultimately show ?thesis using spec_step.forget by blast
qed

text \<open>Every step of the system is a step of the interceptor or leaves it as it is.\<close>

lemma sim_step:
  assumes "sys_step H A unpack D (env_change pending dests proxy) s s'" and "refines pending dests proxy c s a"
  shows "\<exists>a'. (a' = a \<or> spec_step unpack D c a a') \<and> refines pending dests proxy c s' a'"
  using assms(1)
proof (cases rule: sys_step.cases)
  case (packet skb r k')
  show ?thesis unfolding packet(1) using sim_packet [OF assms(2) packet(2,3)] by metis
next
  case (connect ctx r ctx' k')
  show ?thesis unfolding connect(1) using sim_connect [OF assms(2) connect(2)] by metis
next
  case (dns_read st k')
  show ?thesis unfolding dns_read(1) by (rule sim_dns_read [OF assms(2) dns_read(3)])
next
  case (redirect_read st entry k')
  show ?thesis unfolding redirect_read(1) by (rule sim_redirect_read [OF assms(2) redirect_read(3)])
next
  case (environment k')
  show ?thesis unfolding environment(1) using sim_environment [OF assms(2) environment(2)] by metis
qed

theorem refinement:
  assumes "reachable H A unpack D (env_change pending dests proxy) k s"
    and "\<And>r. pending r k = []" and "\<And>a. dests k a = None"
  shows "\<exists>a. spec_reachable unpack D (proxy k) a \<and> refines pending dests proxy (proxy k) s a"
  using assms(1)
proof (induction rule: reachable.induct)
  case start
  show ?case using refines_start [of pending k dests proxy] assms(2,3) spec_reachable_start by blast
next
  case (step s s')
  then show ?case using sim_step spec_reachable_step by metis
qed

end

subsection \<open>The log\<close>

text \<open>
  C9. The log tells the truth, once and in order: its lines belong, one to one, to a subsequence of the
  connects that the hook redirected to the proxy, in the order of those connects, and each shows
  the original address and port of its connect and the address and port of the proxy.
\<close>

theorem log_in_connect_order:
  assumes "agent_kernel H pending dests proxy A"
    and "reachable H A unpack D (env_change pending dests proxy) k s"
    and "\<And>r. pending r k = []" and "\<And>a. dests k a = None"
  shows "\<exists>ctxs. subseq ctxs (map fst (filter (\<lambda>x. snd x = redirect (proxy k) (fst x)) (sys_connects s))) \<and>
    list_all2 (\<lambda>ctx e. log_original_ip e = IP_String4 (le_bytes (user_ip4 ctx)) \<and>
      log_original_port e = ntohs (ucast (user_port ctx)) \<and>
      log_proxy_ip e = IP_String4 (le_bytes (cfg_ip (proxy k))) \<and>
      log_proxy_port e = ntohs (cfg_port (proxy k))) ctxs (sys_log s)"
proof -
  obtain a where a: "spec_reachable unpack D (proxy k) a" "refines pending dests proxy (proxy k) s a"
    using agent_kernel.refinement [OF assms] by blast
  then obtain ctxs where l: "list_all2 (logs (proxy k)) ctxs (sys_log s)"
    and "subseq (ctxs @ sp_reports a) (sent (proxy k) (sys_connects s))"
    using log_ordered_reachable [OF a(1)] by (auto simp: log_ordered_def refines_def)
  moreover have "subseq ctxs (ctxs @ sp_reports a)" by (rule list_emb_prefix) simp
  ultimately have "subseq ctxs (sent (proxy k) (sys_connects s))" by (blast intro: subseq_order.order_trans)
  with l show ?thesis unfolding sent_def logs_def by (intro exI conjI)
qed

theorem log_in_connect_order_witness:
  "\<exists>s e. reachable ref_helpers ref_agent example_unpack DefaultAIDomains ref_env ref_proxied s \<and>
    sys_log s = [e] \<and> log_original_ip e = IP_String4 [104, 18, 33, 45] \<and> log_proxy_ip e = IP_String4 [10, 0, 0, 5]"
proof -
  let ?x = "example_ctx 0x2D211268" and ?c = "rk_proxy ref_proxied"
  obtain s e where R: "reachable ref_helpers ref_agent example_unpack DefaultAIDomains ref_env ref_proxied s"
    and c: "sys_connects s = [(?x, redirect ?c ?x)]" and l: "sys_log s = [e]"
    by (rule example_run [OF ref_proxied_fresh])
  from log_in_connect_order [OF rk.agent_kernel_axioms R ref_proxied_fresh(1,2)]
  obtain ctxs ctx where "subseq ctxs (map fst (filter (\<lambda>x. snd x = redirect ?c (fst x)) (sys_connects s)))"
    and "ctxs = [ctx]" and e: "log_original_ip e = IP_String4 (le_bytes (user_ip4 ctx))"
      "log_proxy_ip e = IP_String4 (le_bytes (cfg_ip ?c))"
    unfolding l list_all2_Cons2 list_all2_Nil2 by blast
  then have "ctx = ?x" by (simp add: c split: if_splits)
  moreover have "user_ip4 ?x = le_word [104, 18, 33, 45]" "cfg_ip ?c = le_word [10, 0, 0, 5]"
    by (simp_all add: le_word_def example_ctx_def ref_proxied_def)
  ultimately show ?thesis using R l e by (auto simp: le_bytes_le_word)
qed

end
