(* ===== verification/Agent_Refinement.thy ===== *)
theory Agent_Refinement
  imports Lifecycle Interceptor_Spec
begin

text \<open>
  The life of the agent process and the abstract interceptor: from the start until the deferred
  \<^verbatim>\<open>Close\<close> runs or the process ends, the hooks that are attached and the readers that are open
  together refine the interceptor, whatever the main goroutine and the signals do meanwhile.
\<close>

subsection \<open>The agent is live until it closes\<close>

definition live :: "'k agent \<Rightarrow> bool" where
  "live s \<longleftrightarrow> (case ag_main s of Waiting \<Rightarrow> True | Unwinding ds \<Rightarrow> D_close \<in> set ds | Exited x \<Rightarrow> False)"

lemma live_exit [simp]: "\<not> live (exit_process P x s)"
  by (simp add: live_def)

lemma live_cong: "ag_main s' = ag_main s \<Longrightarrow> live s' = live s"
  by (simp add: live_def)

text \<open>Each deferred call runs once.\<close>

lemma run_defers:
  assumes "ag_run H A Op P attached unpack env (ag_start k m) us s"
  shows "ag_main s = Unwinding ds \<Longrightarrow> distinct ds"
  using assms
proof (induction arbitrary: ds rule: ag_run.induct)
  case (run_step us s' u s'')
  from run_step(2) show ?case
    by (cases rule: ag_step.cases) (use run_step in \<open>auto simp: main_defers_def split: if_splits\<close>)
qed (simp add: ag_start_def)

lemma live_step:
  assumes "ag_step H A Op P attached unpack env u s s'" and "live s'"
    and "\<And>ds. ag_main s = Unwinding ds \<Longrightarrow> distinct ds"
  shows "live s" "ag_mgr s' = ag_mgr s"
  using assms by (cases rule: ag_step.cases; auto simp: live_def split: if_splits main_pc.splits)+

subsection \<open>Simulation\<close>

context agent_host
begin

lemma life_dns_iter:
  assumes R: "refines pending dests proxy c (ag_sys s) a"
    and run: "ReadDNSEvents_iter (reader_ops rd A) unpack D (ag_k s) = (st, k')"
  shows "\<exists>a'. (a' = a \<or> spec_step unpack D c a a') \<and>
    refines pending dests proxy c ((ag_sys s)\<lparr>sys_k := k', sys_dns := st\<rparr>) a'"
proof (cases "rd = Reader_Closed")
  case True
  with R run show ?thesis by (auto simp: closed_reader_returns refines_def)
next
  case False
  with run show ?thesis by (intro sim_dns_read [OF R]) (simp add: reader_ops_def)
qed

lemma life_redirect_iter:
  assumes R: "refines pending dests proxy c (ag_sys s) a"
    and run: "ReadRedirectEvents_iter (reader_ops rd A) (ag_k s) = (st, entry, k')"
  shows "\<exists>a'. (a' = a \<or> spec_step unpack D c a a') \<and>
    refines pending dests proxy c ((ag_sys s)\<lparr>sys_k := k', sys_redirect := st,
      sys_log := sys_log (ag_sys s) @ (case entry of None \<Rightarrow> [] | Some e \<Rightarrow> [e])\<rparr>) a'"
proof (cases "rd = Reader_Closed")
  case True
  with R run show ?thesis by (auto simp: closed_reader_returns refines_def)
next
  case False
  with run show ?thesis by (intro sim_redirect_read [OF R]) (simp add: reader_ops_def)
qed

text \<open>Every step to a live state is a step of the interceptor or leaves it as it is.\<close>

lemma life_sim_step:
  assumes step: "ag_step H A Op P attached unpack (env_change pending dests proxy) u s s'" and live: "live s'"
    and once: "\<And>ds. ag_main s = Unwinding ds \<Longrightarrow> distinct ds"
    and R: "refines pending dests proxy c (ag_sys s) a"
  shows "\<exists>a'. (a' = a \<or> spec_step unpack (m_AIDomains (ag_mgr s)) c a a') \<and> refines pending dests proxy c (ag_sys s') a'"
  using step
proof (cases rule: ag_step.cases)
  case (close ds m' k' ok)
  then show ?thesis using live once by (auto simp: live_def)
next
  case (open_ok r k')
  with R reader_frame [OF open_ok(5)] show ?thesis by (intro exI [of _ a]) (simp add: refines_def)
next
  case (dns_iter st k' t)
  then have "ag_sys s' = (ag_sys s)\<lparr>sys_k := k', sys_dns := st\<rparr>" using live by (auto split: if_splits)
  with life_dns_iter [OF R dns_iter(6)] show ?thesis by simp
next
  case (redirect_iter st entry k' t)
  then have "ag_sys s' = (ag_sys s)\<lparr>sys_k := k', sys_redirect := st,
      sys_log := sys_log (ag_sys s) @ (case entry of None \<Rightarrow> [] | Some e \<Rightarrow> [e])\<rparr>" using live by (auto split: if_splits)
  with life_redirect_iter [OF R redirect_iter(6)] show ?thesis by simp
next
  case (packet f skb r k')
  with sim_packet [OF R packet(4,5)] show ?thesis by fastforce
next
  case (connect l ctx r ctx' k')
  with sim_connect [OF R connect(4)] show ?thesis by fastforce
next
  case (environment k')
  with sim_environment [OF R environment(3)] show ?thesis by fastforce
qed (use R live in \<open>auto intro: exI [of _ a]\<close>)

lemma life_refinement:
  assumes "ag_run H A Op P attached unpack (env_change pending dests proxy) (ag_start k m) us s" and "live s"
    and "\<And>r. pending r k = []" and "\<And>x. dests k x = None"
  shows "ag_mgr s = m \<and> (\<exists>a. spec_reachable unpack (m_AIDomains m) (proxy k) a \<and>
    refines pending dests proxy (proxy k) (ag_sys s) a)"
  using assms(1,2)
proof (induction rule: ag_run.induct)
  case run_empty
  show ?case
    using refines_start [of pending k dests proxy] assms(3,4) spec_reachable_start [of unpack "m_AIDomains m" "proxy k"]
    by (simp add: ag_start_def) blast
next
  case (run_step us s' u s'')
  note once = run_defers [OF run_step(1)]
  note l = live_step [OF run_step(2,4) once]
  from run_step(3) [OF l(1)] obtain a where m: "ag_mgr s' = m"
    and a: "spec_reachable unpack (m_AIDomains m) (proxy k) a" "refines pending dests proxy (proxy k) (ag_sys s') a" by blast
  from life_sim_step [OF run_step(2,4) once a(2)] show ?case
    using l(2) m a(1) spec_reachable_step by metis
qed

end

subsection \<open>A life with an interception\<close>

text \<open>
  On the reference host: the agent starts from the environment, opens the DNS ring, captures and
  processes the example response, and a connect to the resolved address meets the hook.
\<close>

lemma one_interception:
  assumes at: "Tc_Attachment f \<in> ref_attached k" "Cgroup_Link l \<in> ref_attached k" and ok: "skb_ok skb"
    and tc: "tc_dns_observer ref_helpers skb k = (r1, k1)"
    and it: "ReadDNSEvents_iter ref_agent unpack (m_AIDomains m) k1 = (Running, k2)"
    and con: "cgroup_connect4 ref_helpers ctx k2 = (r3, ctx', k3)"
  obtains us s where
    "ag_run ref_helpers ref_agent ref_os (ref_proc True) ref_attached unpack ref_env (ag_start k m) us s"
    "live s" "sys_connects (ag_sys s) = [(ctx, ctx')]"
proof -
  let ?R = "ag_run ref_helpers ref_agent ref_os (ref_proc True) ref_attached unpack ref_env (ag_start k m)"
  let ?S = "ag_step ref_helpers ref_agent ref_os (ref_proc True) ref_attached unpack ref_env"
  let ?s1 = "(ag_start k m)\<lparr>ag_rd := (\<lambda>r. Unopened)(Dns_Events := Opened)\<rparr>"
  let ?s2 = "?s1\<lparr>ag_sys := (sys_start k)\<lparr>sys_k := k1, sys_frames := [skb_data skb]\<rparr>\<rparr>"
  let ?s3 = "?s1\<lparr>ag_sys := (sys_start k)\<lparr>sys_k := k2, sys_frames := [skb_data skb]\<rparr>\<rparr>"
  let ?s4 = "?s1\<lparr>ag_sys := (sys_start k)\<lparr>sys_k := k3, sys_frames := [skb_data skb], sys_connects := [(ctx, ctx')]\<rparr>\<rparr>"
  have "ref_attached k2 = ref_attached k"
    using rp.tc_host [OF tc] rp.dns_iter_host [where rd = Opened and unpack = unpack and D = "m_AIDomains m" and k = k1] it
    by (simp add: same_host_def reader_ops_def)
  note at2 = at [folded this]
  have o: "?S By_Reader (ag_start k m) ?s1"
    using ag_step.open_ok [where s = "ag_start k m" and r = Dns_Events and k' = k and P = "ref_proc True"]
    by (simp add: exited_def ag_start_def ref_proc_def sys_start_def)
  have p: "?S By_Kernel ?s1 ?s2"
    using ag_step.packet [where s = ?s1 and skb = skb and k' = k1 and f = f and attached = ref_attached, OF _ ok] tc at
    by (simp add: ag_start_def sys_start_def)
  have r: "?S By_Reader ?s2 ?s3"
    using ag_step.dns_iter [where s = ?s2 and st = Running and k' = k2, OF _ _ _ _ refl] it
    by (simp add: ag_start_def exited_def reader_ops_def sys_start_def)
  have c: "?S By_Kernel ?s3 ?s4"
    using ag_step.connect [where s = ?s3 and ctx = ctx and l = l and attached = ref_attached] con at2
    by (simp add: ag_start_def sys_start_def)
  show thesis
    by (rule that [OF ag_run.run_step [OF ag_run.run_step [OF ag_run.run_step [OF ag_run.run_step [OF ag_run.run_empty o] p] r] c]])
      (simp_all add: live_def ag_start_def sys_start_def)
qed

lemma example_response_ok: "skb_ok (example_skb example_msg)"
  by code_simp

lemma example_life:
  defines "ctx \<equiv> example_ctx 0x2D211268"
  obtains k m us s where
    "agent_start ref_ReadEnv ref_zap ref_os ref_agent example_environ ref_host_init = (k, Started m)"
    "\<And>r. ref_pending r k = []" "\<And>a. ref_dests k a = None" "m_AIDomains m = DefaultAIDomains"
    "ag_run ref_helpers ref_agent ref_os (ref_proc True) ref_attached example_unpack ref_env (ag_start k m) us s"
    "live s" "sys_connects (ag_sys s) = [(ctx, redirect (rk_proxy k) ctx)]"
proof -
  obtain k m where st: "agent_start ref_ReadEnv ref_zap ref_os ref_agent example_environ ref_host_init = (k, Started m)"
    and l: "m_links m = [Tc_Attachment (filter_at ref_os 2), Cgroup_Link 1]"
    and d: "m_AIDomains m = DefaultAIDomains"
    and fresh: "rk_dns k = []" "rk_redirect k = []" "rk_dests k = []" "\<not> rk_closed k"
    by (rule example_start)
  have p: "ref_pending r k = []" for r using fresh by (cases r) simp_all
  have q: "ref_dests k a = None" for a using fresh by (simp add: ref_dests_def)
  have "ref_attached k = ref_attached ref_host_init \<union> set (m_links m)" by (rule rh.agent_start_links [OF st])
  then have at: "Tc_Attachment (filter_at ref_os 2) \<in> ref_attached k" "Cgroup_Link 1 \<in> ref_attached k" by (simp_all add: l)
  obtain r1 k1 k2 i where tc: "tc_dns_observer ref_helpers (example_skb example_msg) k = (r1, k1)"
    and it: "ReadDNSEvents_iter ref_agent example_unpack (m_AIDomains m) k1 = (Running, k2)"
    and i: "ref_dests k2 0x2D211268 = Some i" and p2: "rk_proxy k2 = rk_proxy k"
    unfolding d by (rule example_answered [of k, OF p fresh(4)])
  obtain r3 ctx' k3 where con: "cgroup_connect4 ref_helpers ctx k2 = (r3, ctx', k3)" by (metis prod_cases3)
  have "ctx' = redirect (rk_proxy k) ctx"
    using rk.cgroup_connect4_cases(6) [OF con, of i] i p2 by (simp add: ctx_def example_ctx_def)
  with one_interception [OF at example_response_ok tc it con] that [OF st p q d] show thesis by metis
qed

subsection \<open>The agent implements the interceptor\<close>

text \<open>
  C3. From the environment to the behaviour: when the agent starts with empty maps, then at every
  moment of its life until it closes its hooks or exits, for all interleavings of hooks, readers,
  main goroutine, signals and evictions, what has happened (frames, connects, log lines and known
  addresses) is a history of the abstract interceptor for the configured domains (or the default
  ones) and the configured proxy.
\<close>

theorem agent_refines_interceptor:
  assumes "agent_host H pending dests proxy A Op attached opened P"
    and "agent_start ReadEnv Z Op A environ k0 = (k, Started m)"
    and "\<And>r. pending r k = []" and "\<And>x. dests k x = None"
    and "ag_run H A Op P attached unpack (env_change pending dests proxy) (ag_start k m) us s" and "live s"
  shows "\<exists>cfg ip a. Load ReadEnv environ = Some cfg \<and> Option.bind (ParseIP (ProxyIP cfg)) To4 = Some ip \<and>
    spec_reachable unpack (AIDomains (with_default_domains cfg))
      \<lparr>cfg_ip = le_word ip, cfg_port = ntohs (ProxyPort cfg)\<rparr> a \<and>
    sp_frames a = sys_frames (ag_sys s) \<and> sp_connects a = sys_connects (ag_sys s) \<and>
    sp_log a = sys_log (ag_sys s) \<and> sp_known a = dom (dests (ag_k s))"
proof -
  have h: "host_os Op A proxy attached opened" by (rule agent_host.axioms(2) [OF assms(1)])
  obtain cfg where l: "Load ReadEnv environ = Some cfg"
    and n: "NewManager Op A (with_default_domains cfg) k0 = (k, Inr m)"
    by (rule agent_start_manager [OF assms(2)])
  have w: "ProxyIP (with_default_domains cfg) = ProxyIP cfg" "ProxyPort (with_default_domains cfg) = ProxyPort cfg"
    by (simp_all add: with_default_domains_def)
  obtain ip where ip: "m_AIDomains m = AIDomains (with_default_domains cfg)"
    "Option.bind (ParseIP (ProxyIP cfg)) To4 = Some ip"
    "proxy k = \<lparr>cfg_ip = le_word ip, cfg_port = ntohs (ProxyPort cfg)\<rparr>"
    by (rule host_os.NewManager_ok [OF h n]) (simp add: w)
  obtain a where a: "spec_reachable unpack (m_AIDomains m) (proxy k) a"
    and r: "refines pending dests proxy (proxy k) (ag_sys s) a"
    using agent_host.life_refinement [OF assms(1,5,6,3,4)] by blast
  from r have "sp_frames a = sys_frames (ag_sys s)" "sp_connects a = sys_connects (ag_sys s)"
    "sp_log a = sys_log (ag_sys s)" "sp_known a = dom (dests (ag_k s))"
    by (simp_all add: refines_def)
  with l ip(2) a [unfolded ip(1,3)] show ?thesis by (intro exI conjI)
qed

theorem agent_refines_interceptor_witness:
  "\<exists>k m us s a c. agent_start ref_ReadEnv ref_zap ref_os ref_agent example_environ ref_host_init = (k, Started m) \<and>
    ag_run ref_helpers ref_agent ref_os (ref_proc True) ref_attached example_unpack ref_env (ag_start k m) us s \<and>
    spec_reachable example_unpack DefaultAIDomains c a \<and> sp_connects a = sys_connects (ag_sys s) \<and>
    length (sys_connects (ag_sys s)) = 1"
proof -
  obtain k m us s where st: "agent_start ref_ReadEnv ref_zap ref_os ref_agent example_environ ref_host_init = (k, Started m)"
    and f: "\<And>r. ref_pending r k = []" "\<And>a. ref_dests k a = None" and d: "m_AIDomains m = DefaultAIDomains"
    and run: "ag_run ref_helpers ref_agent ref_os (ref_proc True) ref_attached example_unpack ref_env (ag_start k m) us s"
      "live s" and c: "length (sys_connects (ag_sys s)) = 1"
    by (rule example_life) simp
  have e: "AIDomains (with_default_domains example_config) = DefaultAIDomains"
    by (simp add: with_default_domains_def example_config_def)
  from agent_refines_interceptor [OF rp.agent_host_axioms st f run] obtain a c where
    "spec_reachable example_unpack DefaultAIDomains c a" "sp_connects a = sys_connects (ag_sys s)"
    by (auto simp: example_environ_config e)
  with st run(1) c show ?thesis by (intro exI conjI)
qed

end
