(* ===== verification/Concurrency.thy ===== *)
theory Concurrency
  imports System "HOL-Library.Multiset"
begin

text \<open>
  The system at the grain of single calls into the kernel. On a machine with several CPUs any number
  of runs of the two hooks are under way at once, an interrupt may put one between two calls of
  another, and the DNS reader writes the addresses of one answer one after the other. Here a hook in
  flight is the point it has reached in \<^verbatim>\<open>src/bpf/ai_interceptor.c\<close> with its local variables, and one
  step is one helper call on a map or a ring, or the filling of the event, whose helpers only read. The ring buffers promise less than before: a reader
  gets each submitted sample once, in no particular order. Run alone, the hooks and the reader are the
  functions of the theories before.
\<close>

subsection \<open>ai\_interceptor.c, call by call\<close>

datatype hook =
    Tc_Reserve skb u16 u32
  | Tc_Fill skb u16 u32 bytes
  | Con_Lookup sock_addr
  | Con_Proxy sock_addr ai_dest_info
  | Con_Reserve sock_addr ai_dest_info proxy_cfg
  | Con_Fill sock_addr ai_dest_info proxy_cfg bytes
  | Con_Submit sock_addr proxy_cfg bytes
  | Con_Rewrite sock_addr proxy_cfg

text \<open>A connect returns with the context it was called with, its return value and the new context.\<close>

datatype outcome = Goes hook | Tc_Ret int | Con_Ret sock_addr int sock_addr

text \<open>The TC hook up to its first call on shared state reads the packet only.\<close>

definition tc_enter :: "'k bpf_helpers \<Rightarrow> skb \<Rightarrow> outcome" where
  "tc_enter H skb = (case tc_dns_locate H skb of
     None \<Rightarrow> Tc_Ret TC_ACT_OK
   | Some (payload_offset, payload_len) \<Rightarrow> Goes (Tc_Reserve skb payload_offset payload_len))"

fun hook_step :: "'k bpf_helpers \<Rightarrow> hook \<Rightarrow> 'k \<Rightarrow> outcome \<times> 'k" where
  "hook_step H (Tc_Reserve skb payload_offset payload_len) k =
     (case ringbuf_reserve H Dns_Events (sizeof dns_event_t) k of
        (k, None) \<Rightarrow> (Tc_Ret TC_ACT_OK, k)
      | (k, Some ev) \<Rightarrow> (Goes (Tc_Fill skb payload_offset payload_len ev), k))"
| "hook_step H (Tc_Fill skb payload_offset payload_len ev) k =
     (let ev = write_at (offsetof dns_event_t ''msg_size'') (le_bytes (ucast payload_len :: u64)) ev
      in case skb_load_bytes H skb (ucast payload_offset) payload_len of
        None \<Rightarrow> (Tc_Ret TC_ACT_OK, ringbuf_discard H Dns_Events ev k)
      | Some msg \<Rightarrow>
        let ev = write_at (offsetof dns_event_t ''msg'') msg ev
        in if \<not> is_valid_dns_response (drop (offsetof dns_event_t ''msg'') ev) payload_len
           then (Tc_Ret TC_ACT_OK, ringbuf_discard H Dns_Events ev k)
           else (Tc_Ret TC_ACT_OK, ringbuf_submit H Dns_Events ev k))"
| "hook_step H (Con_Lookup ctx) k =
     (case lookup_ai_destinations H (user_ip4 ctx) k of
        (k, None) \<Rightarrow> (Con_Ret ctx 1 ctx, k)
      | (k, Some info) \<Rightarrow> (Goes (Con_Proxy ctx info), k))"
| "hook_step H (Con_Proxy ctx info) k =
     (case lookup_proxy_config H 0 k of
        (k, None) \<Rightarrow> (Con_Ret ctx 1 ctx, k)
      | (k, Some proxy) \<Rightarrow> (Goes (Con_Reserve ctx info proxy), k))"
| "hook_step H (Con_Reserve ctx info proxy) k =
     (case ringbuf_reserve H Redirect_Events (sizeof redirect_event_t) k of
        (k, None) \<Rightarrow> (Goes (Con_Rewrite ctx proxy), k)
      | (k, Some ev) \<Rightarrow> (Goes (Con_Fill ctx info proxy ev), k))"
| "hook_step H (Con_Fill ctx info proxy ev) k =
     (Goes (Con_Submit ctx proxy
        (fill_redirect_event H (user_ip4 ctx) (ucast (user_port ctx)) info proxy k ev)), k)"
| "hook_step H (Con_Submit ctx proxy ev) k =
     (Goes (Con_Rewrite ctx proxy), ringbuf_submit H Redirect_Events ev k)"
| "hook_step H (Con_Rewrite ctx proxy) k =
     (Con_Ret ctx 1 (ctx\<lparr>user_ip4 := cfg_ip proxy, user_port := ucast (cfg_port proxy)\<rparr>), k)"

text \<open>The steps a hook has left at most; there is no loop in either of them.\<close>

fun steps_left :: "hook \<Rightarrow> nat" where
  "steps_left (Tc_Reserve skb off n) = 2"
| "steps_left (Tc_Fill skb off n ev) = 1"
| "steps_left (Con_Lookup ctx) = 6"
| "steps_left (Con_Proxy ctx info) = 5"
| "steps_left (Con_Reserve ctx info c) = 4"
| "steps_left (Con_Fill ctx info c ev) = 3"
| "steps_left (Con_Submit ctx c ev) = 2"
| "steps_left (Con_Rewrite ctx c) = 1"

fun outcome_left :: "outcome \<Rightarrow> nat" where
  "outcome_left (Goes h) = steps_left h"
| "outcome_left _ = 0"

lemma hook_step_left: "hook_step H h k = (r, k') \<Longrightarrow> outcome_left r < steps_left h"
  by (cases h) (auto simp: Let_def split: prod.splits option.splits if_splits)

text \<open>A hook that no other step interrupts.\<close>

function run_hook :: "'k bpf_helpers \<Rightarrow> outcome \<Rightarrow> 'k \<Rightarrow> outcome \<times> 'k" where
  "run_hook H (Goes h) k = (case hook_step H h k of (r, k) \<Rightarrow> run_hook H r k)"
| "run_hook H (Tc_Ret r) k = (Tc_Ret r, k)"
| "run_hook H (Con_Ret ctx r ctx') k = (Con_Ret ctx r ctx', k)"
  by pat_completeness auto
termination
  by (relation "measure (\<lambda>(H, r, k). outcome_left r)") (auto dest: hook_step_left split: prod.splits)

lemma run_hook_tc: "run_hook H (tc_enter H skb) k = apfst Tc_Ret (tc_dns_observer H skb k)"
  by (auto simp: tc_enter_def tc_dns_observer_def Let_def split: option.splits prod.splits)

lemma run_hook_connect:
  "run_hook H (Goes (Con_Lookup ctx)) k = (case cgroup_connect4 H ctx k of (r, ctx', k') \<Rightarrow> (Con_Ret ctx r ctx', k'))"
  by (auto simp: cgroup_connect4_def Let_def split: option.splits prod.splits)

subsection \<open>reader.go and service.go, write by write\<close>

datatype reader_pc = Reading | Writing "(bytes \<times> string \<times> u32) list"

text \<open>The addresses that the reader is going to write for a sample; \<open>None\<close>: it panics.\<close>

definition sample_writes :: "unpacker \<Rightarrow> string list \<Rightarrow> bytes \<Rightarrow> (bytes \<times> string \<times> u32) list option" where
  "sample_writes unpack D RawSample =
     (if length RawSample \<le> dnsEventMsgOffset then Some []
      else let msgSize = the (NativeEndian_Uint64 (take dnsEventMsgOffset RawSample));
               end' = sint (word_of_nat dnsEventMsgOffset + msgSize)
      in if msgSize = 0 \<or> int (length RawSample) < end' then Some []
      else if end' < int dnsEventMsgOffset then None
      else case unpack (take (nat end' - dnsEventMsgOffset) (drop dnsEventMsgOffset RawSample)) of
        None \<Rightarrow> Some []
      | Some answer \<Rightarrow> Some (answer_bindings D answer))"

fun dns_reader_step ::
  "'k agent_ops \<Rightarrow> unpacker \<Rightarrow> string list \<Rightarrow> reader_pc \<Rightarrow> 'k \<Rightarrow> status \<times> reader_pc \<times> 'k" where
  "dns_reader_step A unpack D Reading k = (case read_into A Dns_Events k of
     (k, Read_Closed) \<Rightarrow> (Returned, Reading, k)
   | (k, Read_Error) \<Rightarrow> (Running, Reading, k)
   | (k, Read_Record RawSample) \<Rightarrow> (case sample_writes unpack D RawSample of
       None \<Rightarrow> (Panicked, Reading, k)
     | Some bs \<Rightarrow> (Running, Writing bs, k)))"
| "dns_reader_step A unpack D (Writing []) k = (Running, Reading, k)"
| "dns_reader_step A unpack D (Writing ((ip4, aiHostname, ttl) # bs)) k =
     (Running, Writing bs, writeDestination A ip4 aiHostname ttl k)"

text \<open>The writes that are left, without interruption.\<close>

fun pc_left :: "reader_pc \<Rightarrow> nat" where
  "pc_left Reading = 0"
| "pc_left (Writing bs) = Suc (length bs)"

lemma dns_reader_step_left:
  "dns_reader_step A unpack D (Writing bs) k = (st, pc, k') \<Longrightarrow> pc_left pc < Suc (length bs)"
  by (cases bs) auto

function run_writes :: "'k agent_ops \<Rightarrow> unpacker \<Rightarrow> string list \<Rightarrow> status \<times> reader_pc \<times> 'k \<Rightarrow> status \<times> 'k" where
  "run_writes A unpack D (st, Reading, k) = (st, k)"
| "run_writes A unpack D (st, Writing bs, k) = run_writes A unpack D (dns_reader_step A unpack D (Writing bs) k)"
  by (metis prod_cases3 reader_pc.exhaust prod_cases4) auto
termination
  by (relation "measure (\<lambda>(A, unpack, D, st, pc, k). pc_left pc)") (auto dest: dns_reader_step_left split: prod.splits)

lemma run_writes_fold:
  "run_writes A unpack D (Running, Writing bs, k) = (Running, fold (\<lambda>(ip, h, ttl). writeDestination A ip h ttl) bs k)"
  by (induction bs arbitrary: k) auto

lemma handle_dns_sample_writes:
  "handle_dns_sample A unpack D raw k = (case sample_writes unpack D raw of
     None \<Rightarrow> (Panicked, k)
   | Some bs \<Rightarrow> (Running, fold (\<lambda>(ip, h, ttl). writeDestination A ip h ttl) bs k))"
  by (auto simp: handle_dns_sample_def sample_writes_def Let_def ProcessDNSEvent_def a_loop_bindings
      answer_bindings_def split: option.splits)

lemma run_reader:
  "run_writes A unpack D (dns_reader_step A unpack D Reading k) = ReadDNSEvents_iter A unpack D k"
  by (auto simp: ReadDNSEvents_iter_def handle_dns_sample_writes run_writes_fold
      simp del: run_writes.simps(2) split: prod.splits read_result.splits option.splits)

subsection \<open>What the steps rely on\<close>

text \<open>
  The shared state as several programs at once may use it: a ring buffer is a bag of samples.
\<close>

locale shared_kernel = bpf_local H
  for H :: "'k bpf_helpers" +
  fixes waiting :: "ring \<Rightarrow> 'k \<Rightarrow> bytes multiset"
    and dests :: "'k \<Rightarrow> u32 \<Rightarrow> ai_dest_info option"
    and proxy :: "'k \<Rightarrow> proxy_cfg"
    and A :: "'k agent_ops"
  assumes reserve_shared: "ringbuf_reserve H r sz k = (k', mem) \<Longrightarrow>
      waiting r' k' = waiting r' k \<and> dests k' = dests k \<and> proxy k' = proxy k"
    and submit_shared: "waiting r' (ringbuf_submit H r d k) =
        (if r' = r then add_mset d (waiting r k) else waiting r' k)"
      "dests (ringbuf_submit H r d k) = dests k" "proxy (ringbuf_submit H r d k) = proxy k"
    and discard_shared: "waiting r' (ringbuf_discard H r d k) = waiting r' k"
      "dests (ringbuf_discard H r d k) = dests k" "proxy (ringbuf_discard H r d k) = proxy k"
    and lookup_shared: "lookup_ai_destinations H a k = (k', info) \<Longrightarrow>
        info = dests k a \<and> waiting r k' = waiting r k \<and> dests k' = dests k \<and> proxy k' = proxy k"
    and config_shared: "lookup_proxy_config H j k = (k', cfg) \<Longrightarrow>
        cfg = (if j = 0 then Some (proxy k) else None) \<and>
        waiting r k' = waiting r k \<and> dests k' = dests k \<and> proxy k' = proxy k"
    and update_shared: "update_ai_destinations A a i k = (k', ok) \<Longrightarrow>
        waiting r k' = waiting r k \<and> proxy k' = proxy k \<and>
        (\<forall>b. dests k' b = dests k b \<or> dests k' b = None \<or> b = a \<and> dests k' b = Some i)"
    and read_shared: "read_into A r k = (k', x) \<Longrightarrow>
        waiting r k = (case x of Read_Record d \<Rightarrow> add_mset d (waiting r k') | _ \<Rightarrow> waiting r k') \<and>
        (r' \<noteq> r \<longrightarrow> waiting r' k' = waiting r' k) \<and> dests k' = dests k \<and> proxy k' = proxy k"

text \<open>A kernel that keeps the order of the samples is one.\<close>

sublocale agent_kernel \<subseteq> shared: shared_kernel H "\<lambda>r k. mset (pending r k)" dests proxy A
proof (unfold_locales, goal_cases)
  case (1 r sz k k' mem r')
  then show ?case using reserve_pending [OF 1] reserve_dests [OF 1] reserve_proxy [OF 1] by simp
next
  case (8 a k k' info r)
  then show ?case using lookup_dest [OF 8] lookup_dest_frame [OF 8] by simp
next
  case (9 j k k' cfg r)
  then show ?case using lookup_cfg [OF 9] lookup_cfg_frame [OF 9] by simp
next
  case (10 a i k k' ok r)
  then show ?case using update_ok [of a i k k'] update_failed [of a i k k'] update_others [OF 10] update_frame [OF 10]
    by (cases ok) metis+
next
  case (11 r k k' x r')
  then show ?case using read_pending [OF 11] read_frame [OF 11] read_maps [OF 11] by (auto split: read_result.splits)
qed (simp_all add: submit_pending submit_dests submit_proxy discard_pending discard_dests discard_proxy)

subsection \<open>All of it at once\<close>

record 'k csys =
  cs_k :: 'k
  cs_hooks :: "hook list"
  cs_pc :: reader_pc
  cs_dns :: status
  cs_redirect :: status
  cs_frames :: "bytes list"
  cs_returned :: "(sock_addr \<times> sock_addr) list"
  cs_log :: "log_entry list"

fun flying :: "outcome \<Rightarrow> hook list" where
  "flying (Goes h) = [h]"
| "flying (Tc_Ret r) = []"
| "flying (Con_Ret ctx r ctx') = []"

fun returns :: "outcome \<Rightarrow> (sock_addr \<times> sock_addr) list" where
  "returns (Goes h) = []"
| "returns (Tc_Ret r) = []"
| "returns (Con_Ret ctx r ctx') = [(ctx, ctx')]"

text \<open>
  The hook keeps a pointer into the map entry and reads the host name through it; the memory of an
  evicted or replaced entry may be used for another one meanwhile (\<open>reused\<close>).
\<close>

inductive cstep ::
  "'k bpf_helpers \<Rightarrow> 'k agent_ops \<Rightarrow> unpacker \<Rightarrow> string list \<Rightarrow> ('k \<Rightarrow> 'k \<Rightarrow> bool) \<Rightarrow> 'k csys \<Rightarrow> 'k csys \<Rightarrow> bool"
  for H A unpack D env where
  packet_arrives: "skb_ok skb \<Longrightarrow>
     cstep H A unpack D env s (s\<lparr>cs_hooks := cs_hooks s @ flying (tc_enter H skb),
       cs_frames := cs_frames s @ [skb_data skb]\<rparr>)"
| connect_called: "cstep H A unpack D env s (s\<lparr>cs_hooks := cs_hooks s @ [Con_Lookup ctx]\<rparr>)"
| hook_runs: "cs_hooks s = hs @ h # hs' \<Longrightarrow> hook_step H h (cs_k s) = (r, k') \<Longrightarrow>
     cstep H A unpack D env s (s\<lparr>cs_k := k', cs_hooks := hs @ flying r @ hs', cs_returned := cs_returned s @ returns r\<rparr>)"
| reused: "cs_hooks s = hs @ Con_Fill ctx info c ev # hs' \<Longrightarrow> length (info_hostname info') = MAX_HOSTNAME_LEN \<Longrightarrow>
     cstep H A unpack D env s (s\<lparr>cs_hooks := hs @ Con_Fill ctx info' c ev # hs'\<rparr>)"
| dns_reader: "cs_dns s = Running \<Longrightarrow> dns_reader_step A unpack D (cs_pc s) (cs_k s) = (st, pc', k') \<Longrightarrow>
     cstep H A unpack D env s (s\<lparr>cs_k := k', cs_pc := pc', cs_dns := st\<rparr>)"
| redirect_reader: "cs_redirect s = Running \<Longrightarrow> ReadRedirectEvents_iter A (cs_k s) = (st, entry, k') \<Longrightarrow>
     cstep H A unpack D env s (s\<lparr>cs_k := k', cs_redirect := st,
       cs_log := cs_log s @ (case entry of None \<Rightarrow> [] | Some e \<Rightarrow> [e])\<rparr>)"
| elsewhere: "env (cs_k s) k' \<Longrightarrow> cstep H A unpack D env s (s\<lparr>cs_k := k'\<rparr>)"

definition cs_start :: "'k \<Rightarrow> 'k csys" where
  "cs_start k = \<lparr>cs_k = k, cs_hooks = [], cs_pc = Reading, cs_dns = Running, cs_redirect = Running,
     cs_frames = [], cs_returned = [], cs_log = []\<rparr>"

inductive creachable ::
  "'k bpf_helpers \<Rightarrow> 'k agent_ops \<Rightarrow> unpacker \<Rightarrow> string list \<Rightarrow> ('k \<Rightarrow> 'k \<Rightarrow> bool) \<Rightarrow> 'k \<Rightarrow> 'k csys \<Rightarrow> bool"
  for H A unpack D env k where
  cstart: "creachable H A unpack D env k (cs_start k)"
| cnext: "creachable H A unpack D env k s \<Longrightarrow> cstep H A unpack D env s s' \<Longrightarrow> creachable H A unpack D env k s'"

subsection \<open>The invariant\<close>

definition shared_env ::
  "(ring \<Rightarrow> 'k \<Rightarrow> bytes multiset) \<Rightarrow> ('k \<Rightarrow> u32 \<Rightarrow> ai_dest_info option) \<Rightarrow> ('k \<Rightarrow> proxy_cfg) \<Rightarrow> 'k \<Rightarrow> 'k \<Rightarrow> bool" where
  "shared_env waiting dests proxy k k' \<longleftrightarrow>
     (\<forall>r. waiting r k' = waiting r k) \<and> proxy k' = proxy k \<and> (\<forall>a. dests k' a = dests k a \<or> dests k' a = None)"

text \<open>The address of a connect that is on its way to the proxy.\<close>

definition aimed :: "unpacker \<Rightarrow> string list \<Rightarrow> bytes list \<Rightarrow> sock_addr \<Rightarrow> bool" where
  "aimed unpack D frames ctx \<longleftrightarrow> (\<exists>i. justified unpack D frames (user_ip4 ctx) i)"

text \<open>What holds of the local variables of a hook at each of its points.\<close>

fun hook_ok :: "'k bpf_helpers \<Rightarrow> unpacker \<Rightarrow> string list \<Rightarrow> bytes list \<Rightarrow> proxy_cfg \<Rightarrow> hook \<Rightarrow> bool" where
  "hook_ok H unpack D frames c (Tc_Reserve skb off n) \<longleftrightarrow>
     skb_ok skb \<and> tc_dns_locate H skb = Some (off, n) \<and> skb_data skb \<in> set frames"
| "hook_ok H unpack D frames c (Tc_Fill skb off n ev) \<longleftrightarrow>
     skb_ok skb \<and> tc_dns_locate H skb = Some (off, n) \<and> skb_data skb \<in> set frames \<and> length ev = sizeof dns_event_t"
| "hook_ok H unpack D frames c (Con_Lookup ctx) \<longleftrightarrow> True"
| "hook_ok H unpack D frames c (Con_Proxy ctx info) \<longleftrightarrow>
     aimed unpack D frames ctx \<and> length (info_hostname info) = MAX_HOSTNAME_LEN"
| "hook_ok H unpack D frames c (Con_Reserve ctx info p) \<longleftrightarrow>
     aimed unpack D frames ctx \<and> length (info_hostname info) = MAX_HOSTNAME_LEN \<and> p = c"
| "hook_ok H unpack D frames c (Con_Fill ctx info p ev) \<longleftrightarrow>
     aimed unpack D frames ctx \<and> length (info_hostname info) = MAX_HOSTNAME_LEN \<and> p = c \<and>
     length ev = sizeof redirect_event_t"
| "hook_ok H unpack D frames c (Con_Submit ctx p ev) \<longleftrightarrow> aimed unpack D frames ctx \<and> p = c \<and> reports c ctx ev"
| "hook_ok H unpack D frames c (Con_Rewrite ctx p) \<longleftrightarrow> aimed unpack D frames ctx \<and> p = c"

text \<open>The connects that have been sent to the proxy, and those whose hook is about to rewrite them.\<close>

fun rewriting :: "hook \<Rightarrow> sock_addr list" where
  "rewriting (Con_Rewrite ctx c) = [ctx]"
| "rewriting _ = []"

definition to_proxy :: "proxy_cfg \<Rightarrow> 'k csys \<Rightarrow> sock_addr multiset" where
  "to_proxy c s = mset (map fst (filter (\<lambda>x. snd x = redirect c (fst x)) (cs_returned s))) +
     mset (concat (map rewriting (cs_hooks s)))"

text \<open>
  Every waiting report and every log line belongs to a connect of its own among them.
\<close>

definition accounted :: "proxy_cfg \<Rightarrow> sock_addr multiset \<Rightarrow> bytes multiset \<Rightarrow> log_entry list \<Rightarrow> bool" where
  "accounted c T W log \<longleftrightarrow> (\<exists>M ctxs. image_mset snd M = W \<and> (\<forall>(ctx, ev) \<in># M. reports c ctx ev) \<and>
     list_all2 (logs c) ctxs log \<and> image_mset fst M + mset ctxs \<subseteq># T)"

definition writes_ok :: "unpacker \<Rightarrow> string list \<Rightarrow> bytes list \<Rightarrow> reader_pc \<Rightarrow> bool" where
  "writes_ok unpack D frames pc \<longleftrightarrow> (case pc of
     Reading \<Rightarrow> True
   | Writing bs \<Rightarrow> \<forall>(ip4, h, ttl) \<in> set bs. length ip4 = 4 \<and>
       (\<forall>i. entry_for (ip4, h, ttl) (le_word ip4) i \<longrightarrow> justified unpack D frames (le_word ip4) i))"

definition cinv ::
  "'k bpf_helpers \<Rightarrow> (ring \<Rightarrow> 'k \<Rightarrow> bytes multiset) \<Rightarrow> ('k \<Rightarrow> u32 \<Rightarrow> ai_dest_info option) \<Rightarrow> ('k \<Rightarrow> proxy_cfg) \<Rightarrow>
   unpacker \<Rightarrow> string list \<Rightarrow> proxy_cfg \<Rightarrow> 'k csys \<Rightarrow> bool" where
  "cinv H waiting dests proxy unpack D c s \<longleftrightarrow>
     proxy (cs_k s) = c \<and> cs_dns s \<noteq> Panicked \<and> cs_redirect s \<noteq> Panicked \<and>
     (\<forall>ev \<in># waiting Dns_Events (cs_k s). dns_sample_ok (cs_frames s) ev) \<and>
     (\<forall>a i. dests (cs_k s) a = Some i \<longrightarrow> justified unpack D (cs_frames s) a i) \<and>
     writes_ok unpack D (cs_frames s) (cs_pc s) \<and>
     (\<forall>h \<in> set (cs_hooks s). hook_ok H unpack D (cs_frames s) c h) \<and>
     (\<forall>x \<in> set (cs_returned s). connect_ok unpack D (cs_frames s) c x) \<and>
     accounted c (to_proxy c s) (waiting Redirect_Events (cs_k s)) (cs_log s)"

lemma cinvD:
  assumes "cinv H waiting dests proxy unpack D c s"
  shows "proxy (cs_k s) = c" "cs_dns s \<noteq> Panicked" "cs_redirect s \<noteq> Panicked"
    "ev \<in># waiting Dns_Events (cs_k s) \<Longrightarrow> dns_sample_ok (cs_frames s) ev"
    "dests (cs_k s) a = Some i \<Longrightarrow> justified unpack D (cs_frames s) a i"
    "writes_ok unpack D (cs_frames s) (cs_pc s)"
    "h \<in> set (cs_hooks s) \<Longrightarrow> hook_ok H unpack D (cs_frames s) c h"
    "x \<in> set (cs_returned s) \<Longrightarrow> connect_ok unpack D (cs_frames s) c x"
    "accounted c (to_proxy c s) (waiting Redirect_Events (cs_k s)) (cs_log s)"
  using assms unfolding cinv_def by blast+

lemma cinvI:
  assumes "proxy (cs_k s) = c" "cs_dns s \<noteq> Panicked" "cs_redirect s \<noteq> Panicked"
    "\<And>ev. ev \<in># waiting Dns_Events (cs_k s) \<Longrightarrow> dns_sample_ok (cs_frames s) ev"
    "\<And>a i. dests (cs_k s) a = Some i \<Longrightarrow> justified unpack D (cs_frames s) a i"
    "writes_ok unpack D (cs_frames s) (cs_pc s)"
    "\<And>h. h \<in> set (cs_hooks s) \<Longrightarrow> hook_ok H unpack D (cs_frames s) c h"
    "\<And>x. x \<in> set (cs_returned s) \<Longrightarrow> connect_ok unpack D (cs_frames s) c x"
    "accounted c (to_proxy c s) (waiting Redirect_Events (cs_k s)) (cs_log s)"
  shows "cinv H waiting dests proxy unpack D c s"
  using assms unfolding cinv_def by blast

subsection \<open>Preservation\<close>

lemma aimed_mono: "aimed unpack D fs ctx \<Longrightarrow> set fs \<subseteq> set fs' \<Longrightarrow> aimed unpack D fs' ctx"
  unfolding aimed_def by (blast intro: justified_mono)

lemma hook_ok_mono: "hook_ok H unpack D fs c h \<Longrightarrow> set fs \<subseteq> set fs' \<Longrightarrow> hook_ok H unpack D fs' c h"
  by (cases h) (auto intro: aimed_mono)

lemma writes_ok_mono: "writes_ok unpack D fs pc \<Longrightarrow> set fs \<subseteq> set fs' \<Longrightarrow> writes_ok unpack D fs' pc"
  by (fastforce simp: writes_ok_def intro: justified_mono split: reader_pc.splits)

lemma accounted_mono: "accounted c T W log \<Longrightarrow> T \<subseteq># T' \<Longrightarrow> accounted c T' W log"
  unfolding accounted_def by (blast intro: subset_mset.order_trans)

lemma accounted_submit:
  assumes "accounted c T W log" and "reports c ctx ev"
  shows "accounted c (add_mset ctx T) (add_mset ev W) log"
proof -
  obtain M ctxs where M: "image_mset snd M = W" "\<forall>(ctx, ev) \<in># M. reports c ctx ev" "list_all2 (logs c) ctxs log"
    "image_mset fst M + mset ctxs \<subseteq># T" using assms(1) unfolding accounted_def by blast
  then show ?thesis unfolding accounted_def
    using assms(2) by (intro exI [of _ "add_mset (ctx, ev) M"] exI [of _ ctxs]) auto
qed

lemma accounted_log:
  assumes "accounted c T (add_mset ev W) log"
  obtains e where "map_option log_redirect (ringbufCast ev) = Some e" "accounted c T W (log @ [e])"
proof -
  obtain M ctxs where M: "image_mset snd M = add_mset ev W" "\<forall>(ctx, ev) \<in># M. reports c ctx ev"
    "list_all2 (logs c) ctxs log" "image_mset fst M + mset ctxs \<subseteq># T"
    using assms unfolding accounted_def by blast
  obtain N p where N: "M = add_mset p N" "snd p = ev" "image_mset snd N = W"
    using msed_map_invR [OF M(1)] by blast
  then have "reports c (fst p) ev" using M(2) by auto
  then obtain e where e: "map_option log_redirect (ringbufCast ev) = Some e" "logs c (fst p) e" by (rule reports_logged)
  have "accounted c T W (log @ [e])" unfolding accounted_def
    using M N e(2) by (intro exI [of _ N] exI [of _ "ctxs @ [fst p]"]) (auto intro: list_all2_appendI)
  with e(1) that show thesis by blast
qed

text \<open>What one step of a hook does to the shared state and leaves in its place.\<close>

definition sent_by :: "proxy_cfg \<Rightarrow> outcome \<Rightarrow> sock_addr multiset" where
  "sent_by c r = mset (map fst (filter (\<lambda>x. snd x = redirect c (fst x)) (returns r))) +
     mset (concat (map rewriting (flying r)))"

definition hook_effect ::
  "'k bpf_helpers \<Rightarrow> (ring \<Rightarrow> 'k \<Rightarrow> bytes multiset) \<Rightarrow> ('k \<Rightarrow> u32 \<Rightarrow> ai_dest_info option) \<Rightarrow> ('k \<Rightarrow> proxy_cfg) \<Rightarrow>
   unpacker \<Rightarrow> string list \<Rightarrow> bytes list \<Rightarrow> proxy_cfg \<Rightarrow> hook \<Rightarrow> outcome \<Rightarrow> 'k \<Rightarrow> 'k \<Rightarrow> bool" where
  "hook_effect H waiting dests proxy unpack D frames c h r k k' \<longleftrightarrow>
     proxy k' = proxy k \<and> dests k' = dests k \<and>
     (waiting Dns_Events k' = waiting Dns_Events k \<or>
      (\<exists>ev. dns_sample_ok frames ev \<and> waiting Dns_Events k' = add_mset ev (waiting Dns_Events k))) \<and>
     (\<forall>h' \<in> set (flying r). hook_ok H unpack D frames c h') \<and>
     (\<forall>x \<in> set (returns r). connect_ok unpack D frames c x) \<and>
     (\<forall>T log. accounted c (T + mset (rewriting h)) (waiting Redirect_Events k) log \<longrightarrow>
        accounted c (T + sent_by c r) (waiting Redirect_Events k') log)"

lemma redirect_alt: "ctx\<lparr>user_ip4 := cfg_ip c, user_port := ucast (cfg_port c)\<rparr> = redirect c ctx"
  by (simp add: redirect_def)

context shared_kernel
begin

lemma tc_fill_effect:
  assumes ok: "hook_ok H unpack D frames c (Tc_Fill skb off n ev)"
    and step: "hook_step H (Tc_Fill skb off n ev) k = (r, k')"
  shows "hook_effect H waiting dests proxy unpack D frames c (Tc_Fill skb off n ev) r k k'"
proof -
  from ok have sk: "skb_ok skb" and loc: "tc_dns_locate H skb = Some (off, n)"
    and fr: "skb_data skb \<in> set frames" and len: "length ev = 520" by simp_all
  from sk loc obtain o' n' m where pl: "unat n = length m" and le: "length m \<le> 512"
    and ld: "skb_load_bytes H skb (ucast off) n = Some m"
    and cap: "dns_capture (skb_data skb) = (if is_response m then Some m else None)"
    by (rule tc_locate_Some)
  let ?e = "write_at 8 m (write_at 0 (le_bytes (ucast n :: u64)) ev)"
  note wr = dns_event_written [OF len le pl]
  have "length ?e = 520" using wr(1) by (simp add: dns_event_for_def)
  then have v: "is_valid_dns_response (drop 8 ?e) n = is_response m"
    using wr(2) pl le by (subst is_valid_dns_response_spec) simp_all
  have s: "is_response m \<Longrightarrow> dns_sample_ok frames ?e"
    using cap wr(1) fr by (auto simp: dns_sample_ok_def)
  show ?thesis using step ld v s
    by (auto simp: hook_effect_def Let_def discard_shared submit_shared sent_by_def split: if_splits)
qed

lemma connect_lookup_effect:
  assumes just: "\<And>a i. dests k a = Some i \<Longrightarrow> justified unpack D frames a i"
    and step: "hook_step H (Con_Lookup ctx) k = (r, k')"
  shows "hook_effect H waiting dests proxy unpack D frames c (Con_Lookup ctx) r k k'"
proof -
  obtain k1 info where l: "lookup_ai_destinations H (user_ip4 ctx) k = (k1, info)" by fastforce
  have f: "waiting r k1 = waiting r k" "dests k1 = dests k" "proxy k1 = proxy k" "info = dests k (user_ip4 ctx)" for r
    using lookup_shared [OF l] by blast+
  show ?thesis
  proof (cases info)
    case None
    then show ?thesis using step l f by (auto simp: hook_effect_def sent_by_def connect_ok_def elim: accounted_mono)
  next
    case (Some i)
    then have "justified unpack D frames (user_ip4 ctx) i" using just f(4) by simp
    then have "aimed unpack D frames ctx" "length (info_hostname i) = MAX_HOSTNAME_LEN"
      by (auto simp: aimed_def justified_hostname)
    with Some step l f show ?thesis by (auto simp: hook_effect_def sent_by_def)
  qed
qed

lemma hook_step_effect:
  assumes ok: "hook_ok H unpack D frames c h" and c: "proxy k = c"
    and just: "\<And>a i. dests k a = Some i \<Longrightarrow> justified unpack D frames a i"
    and step: "hook_step H h k = (r, k')"
  shows "hook_effect H waiting dests proxy unpack D frames c h r k k'"
proof (cases h)
  case (Tc_Reserve skb off n)
  obtain k1 mem where l: "ringbuf_reserve H Dns_Events (sizeof dns_event_t) k = (k1, mem)" by fastforce
  have "waiting r k1 = waiting r k" "dests k1 = dests k" "proxy k1 = proxy k" for r using reserve_shared [OF l] by blast+
  with ok step Tc_Reserve l show ?thesis
    by (cases mem) (auto simp: hook_effect_def sent_by_def simp del: sizeof_structs dest: reserve_size)
next
  case (Con_Proxy ctx info)
  obtain k1 p where l: "lookup_proxy_config H 0 k = (k1, p)" by fastforce
  have "waiting r k1 = waiting r k" "dests k1 = dests k" "proxy k1 = proxy k" "p = Some c" for r
    using config_shared [OF l] c by auto
  with ok step Con_Proxy l show ?thesis by (auto simp: hook_effect_def sent_by_def)
next
  case (Con_Reserve ctx info p)
  obtain k1 mem where l: "ringbuf_reserve H Redirect_Events (sizeof redirect_event_t) k = (k1, mem)" by fastforce
  have "waiting r k1 = waiting r k" "dests k1 = dests k" "proxy k1 = proxy k" for r using reserve_shared [OF l] by blast+
  with ok step Con_Reserve l show ?thesis
    by (cases mem) (auto simp: hook_effect_def sent_by_def simp del: sizeof_structs dest: reserve_size elim: accounted_mono)
next
  case (Con_Fill ctx info p ev)
  then have "reports c ctx (fill_redirect_event H (user_ip4 ctx) (ucast (user_port ctx)) info p k ev)"
    using ok fill_redirect_event_fields [of ev info _ "user_ip4 ctx" "ucast (user_port ctx)" p k]
    by (simp add: reports_def)
  with ok step Con_Fill show ?thesis by (auto simp: hook_effect_def sent_by_def)
next
  case (Con_Submit ctx p ev)
  with ok step show ?thesis
    by (auto simp: hook_effect_def sent_by_def submit_shared intro: accounted_submit)
next
  case (Con_Rewrite ctx p)
  with ok step show ?thesis
    by (auto simp: hook_effect_def sent_by_def redirect_alt connect_ok_def aimed_def)
next
  case (Tc_Fill skb off n ev)
  show ?thesis unfolding Tc_Fill by (rule tc_fill_effect [OF ok [unfolded Tc_Fill] step [unfolded Tc_Fill]])
next
  case (Con_Lookup ctx)
  show ?thesis unfolding Con_Lookup by (rule connect_lookup_effect [OF just step [unfolded Con_Lookup]])
qed

end

lemma sample_writes_event:
  assumes "dns_event_for m raw" and "m \<noteq> []"
  shows "sample_writes unpack D raw = Some (case unpack m of None \<Rightarrow> [] | Some answer \<Rightarrow> answer_bindings D answer)"
  using dns_event_slice [OF assms] by (simp add: sample_writes_def Let_def nat_add_distrib split: option.splits)

lemma sample_writes_ok:
  assumes "dns_sample_ok frames raw"
  obtains bs where "sample_writes unpack D raw = Some bs" "writes_ok unpack D frames (Writing bs)"
proof -
  obtain p m where p: "p \<in> set frames" "dns_capture p = Some m" "dns_event_for m raw"
    using assms by (auto simp: dns_sample_ok_def)
  have w: "sample_writes unpack D raw = Some (case unpack m of None \<Rightarrow> [] | Some answer \<Rightarrow> answer_bindings D answer)"
    by (rule sample_writes_event [OF p(3) dns_capture_nonempty [OF p(2)]])
  have "length ip4 = 4 \<and> (\<forall>i. entry_for (ip4, h, ttl) (le_word ip4) i \<longrightarrow> justified unpack D frames (le_word ip4) i)"
    if "unpack m = Some answer" "(ip4, h, ttl) \<in> set (answer_bindings D answer)" for answer ip4 h ttl
    using p(1,2) that(1) answer_bindings_sound [OF that(2)] ai_resolution_length
    unfolding justified_def resolved_entry_def by blast
  then have "writes_ok unpack D frames (Writing (case unpack m of None \<Rightarrow> [] | Some answer \<Rightarrow> answer_bindings D answer))"
    by (cases "unpack m") (auto simp: writes_ok_def)
  with w show thesis by (rule that)
qed

lemma to_proxy_hooks:
  "to_proxy c (s\<lparr>cs_k := k', cs_hooks := hs @ flying r @ hs', cs_returned := cs_returned s @ returns r\<rparr>) =
     to_proxy c (s\<lparr>cs_hooks := hs @ hs'\<rparr>) + sent_by c r"
  by (simp add: to_proxy_def sent_by_def)

lemma to_proxy_split:
  "cs_hooks s = hs @ h # hs' \<Longrightarrow> to_proxy c s = to_proxy c (s\<lparr>cs_hooks := hs @ hs'\<rparr>) + mset (rewriting h)"
  by (simp add: to_proxy_def)

context shared_kernel
begin

lemma inv_packet_arrives:
  assumes inv: "cinv H waiting dests proxy unpack D c s" and ok: "skb_ok skb"
  shows "cinv H waiting dests proxy unpack D c (s\<lparr>cs_hooks := cs_hooks s @ flying (tc_enter H skb), cs_frames := cs_frames s @ [skb_data skb]\<rparr>)"
proof (rule cinvI, goal_cases)
  case (7 h)
  have "h \<in> set (flying (tc_enter H skb)) \<Longrightarrow> hook_ok H unpack D (cs_frames s @ [skb_data skb]) c h"
    using ok by (auto simp: tc_enter_def split: option.splits)
  moreover have "h \<in> set (cs_hooks s) \<Longrightarrow> hook_ok H unpack D (cs_frames s @ [skb_data skb]) c h"
    by (rule hook_ok_mono [OF cinvD(7) [OF inv]]) auto
  ultimately show ?case using 7 by auto
next
  case 9
  have "to_proxy c s \<subseteq># to_proxy c (s\<lparr>cs_hooks := cs_hooks s @ flying (tc_enter H skb), cs_frames := cs_frames s @ [skb_data skb]\<rparr>)"
    by (simp add: to_proxy_def)
  with cinvD(9) [OF inv] show ?case by (simp add: accounted_mono)
next
  case (4 ev)
  show ?case by (rule dns_sample_ok_mono [OF cinvD(4) [OF inv]]) (use 4 in auto)
next
  case (5 a i)
  show ?case by (rule justified_mono [OF cinvD(5) [OF inv]]) (use 5 in auto)
next
  case 6
  show ?case by (rule writes_ok_mono) (use cinvD(6) [OF inv] in auto)
next
  case (8 x)
  show ?case by (rule connect_ok_mono [OF cinvD(8) [OF inv]]) (use 8 in auto)
qed (use cinvD [OF inv] in simp_all)

lemma inv_connect_called:
  assumes "cinv H waiting dests proxy unpack D c s"
  shows "cinv H waiting dests proxy unpack D c (s\<lparr>cs_hooks := cs_hooks s @ [Con_Lookup ctx]\<rparr>)"
  using assms by (auto simp: cinv_def to_proxy_def)

lemma inv_hook_runs:
  assumes inv: "cinv H waiting dests proxy unpack D c s" and h: "cs_hooks s = hs @ h # hs'" and step: "hook_step H h (cs_k s) = (r, k')"
  shows "cinv H waiting dests proxy unpack D c (s\<lparr>cs_k := k', cs_hooks := hs @ flying r @ hs', cs_returned := cs_returned s @ returns r\<rparr>)"
proof -
  have "hook_ok H unpack D (cs_frames s) c h" by (rule cinvD(7) [OF inv]) (simp add: h)
  then have e: "hook_effect H waiting dests proxy unpack D (cs_frames s) c h r (cs_k s) k'"
    by (rule hook_step_effect [OF _ cinvD(1) [OF inv] cinvD(5) [OF inv] step])
  then have a: "accounted c (to_proxy c (s\<lparr>cs_hooks := hs @ hs'\<rparr>) + sent_by c r) (waiting Redirect_Events k') (cs_log s)"
    using cinvD(9) [OF inv] to_proxy_split [OF h, of c] by (simp add: hook_effect_def)
  show ?thesis
  proof (rule cinvI, goal_cases)
    case (7 g)
    then show ?case using e cinvD(7) [OF inv, of g] h by (auto simp: hook_effect_def)
  next
    case (8 x)
    then show ?case using e cinvD(8) [OF inv, of x] by (auto simp: hook_effect_def)
  next
    case 9
    show ?case using a unfolding to_proxy_hooks by simp
  qed (use e cinvD [OF inv] in \<open>auto simp: hook_effect_def\<close>)
qed

lemma inv_reused:
  assumes inv: "cinv H waiting dests proxy unpack D c s" and h: "cs_hooks s = hs @ Con_Fill ctx info p ev # hs'"
    and l: "length (info_hostname info') = MAX_HOSTNAME_LEN"
  shows "cinv H waiting dests proxy unpack D c (s\<lparr>cs_hooks := hs @ Con_Fill ctx info' p ev # hs'\<rparr>)"
  using inv l by (auto simp: cinv_def h to_proxy_def)

text \<open>The reader takes a sample, or writes one address.\<close>

lemma reader_reads:
  assumes inv: "cinv H waiting dests proxy unpack D c s"
    and step: "dns_reader_step A unpack D Reading (cs_k s) = (st, pc', k')"
  shows "st \<noteq> Panicked" "proxy k' = proxy (cs_k s)" "dests k' = dests (cs_k s)"
    "waiting Redirect_Events k' = waiting Redirect_Events (cs_k s)"
    "waiting Dns_Events k' \<subseteq># waiting Dns_Events (cs_k s)" "writes_ok unpack D (cs_frames s) pc'"
proof -
  let ?k = "cs_k s" and ?fs = "cs_frames s"
  obtain k1 x where rd: "read_into A Dns_Events ?k = (k1, x)" by fastforce
  have f: "waiting Dns_Events ?k = (case x of Read_Record d \<Rightarrow> add_mset d (waiting Dns_Events k1) | _ \<Rightarrow> waiting Dns_Events k1)"
    "waiting Redirect_Events k1 = waiting Redirect_Events ?k" "dests k1 = dests ?k" "proxy k1 = proxy ?k"
    using read_shared [OF rd, of Redirect_Events] by auto
  have "k' = k1 \<and> st \<noteq> Panicked \<and> writes_ok unpack D ?fs pc'"
  proof (cases x)
    case (Read_Record raw)
    then have "dns_sample_ok ?fs raw" using f(1) cinvD(4) [OF inv, of raw] by simp
    then obtain bs where "sample_writes unpack D raw = Some bs" "writes_ok unpack D ?fs (Writing bs)"
      by (rule sample_writes_ok)
    with Read_Record step rd show ?thesis by auto
  qed (use step rd in \<open>auto simp: writes_ok_def\<close>)
  with f show "st \<noteq> Panicked" "proxy k' = proxy (cs_k s)" "dests k' = dests (cs_k s)"
    "waiting Redirect_Events k' = waiting Redirect_Events (cs_k s)"
    "waiting Dns_Events k' \<subseteq># waiting Dns_Events (cs_k s)" "writes_ok unpack D (cs_frames s) pc'"
    by (auto split: read_result.splits)
qed

lemma reader_writes:
  assumes inv: "cinv H waiting dests proxy unpack D c s" and pc: "cs_pc s = Writing ((ip4, h, ttl) # bs)"
  shows "proxy (writeDestination A ip4 h ttl (cs_k s)) = proxy (cs_k s)"
    "waiting r (writeDestination A ip4 h ttl (cs_k s)) = waiting r (cs_k s)"
    "dests (writeDestination A ip4 h ttl (cs_k s)) a = Some i \<Longrightarrow> justified unpack D (cs_frames s) a i"
    "writes_ok unpack D (cs_frames s) (Writing bs)"
proof -
  let ?k = "cs_k s" and ?fs = "cs_frames s"
  let ?i = "\<lparr>info_hostname = hostname_field h, info_timestamp_ns = time_now A ?k, info_ttl_s = ttl\<rparr>"
  have w: "length ip4 = 4" "entry_for (ip4, h, ttl) (le_word ip4) ?i \<Longrightarrow> justified unpack D ?fs (le_word ip4) ?i"
    and rest: "writes_ok unpack D ?fs (Writing bs)"
    using cinvD(6) [OF inv] by (simp_all add: pc writes_ok_def)
  then have j: "justified unpack D ?fs (le_word ip4) ?i" by (simp add: entry_for_def)
  obtain k1 ok where u: "update_ai_destinations A (le_word ip4) ?i ?k = (k1, ok)" by fastforce
  then have k1: "writeDestination A ip4 h ttl ?k = k1" by (simp add: writeDestination_eq [OF w(1)])
  show "proxy (writeDestination A ip4 h ttl ?k) = proxy ?k" "waiting r (writeDestination A ip4 h ttl ?k) = waiting r ?k"
    unfolding k1 using update_shared [OF u] by blast+
  show "dests (writeDestination A ip4 h ttl ?k) a = Some i \<Longrightarrow> justified unpack D ?fs a i"
    unfolding k1 using update_shared [OF u] j cinvD(5) [OF inv, of a i] by (metis option.distinct(1) option.inject)
  show "writes_ok unpack D ?fs (Writing bs)" by (rule rest)
qed

lemma inv_dns_reader:
  assumes inv: "cinv H waiting dests proxy unpack D c s"
    and step: "dns_reader_step A unpack D (cs_pc s) (cs_k s) = (st, pc', k')"
  shows "cinv H waiting dests proxy unpack D c (s\<lparr>cs_k := k', cs_pc := pc', cs_dns := st\<rparr>)"
proof (cases "cs_pc s")
  case Reading
  note r = reader_reads [OF inv step [unfolded Reading]]
  show ?thesis using cinvD [OF inv] r by (intro cinvI) (auto simp: to_proxy_def dest: mset_subset_eqD)
next
  case (Writing bs)
  show ?thesis
  proof (cases bs)
    case Nil
    with Writing step inv show ?thesis by (auto simp: cinv_def writes_ok_def to_proxy_def)
  next
    case (Cons b bs')
    obtain ip4 h ttl where b: "b = (ip4, h, ttl)" by (cases b)
    note w = reader_writes [OF inv Writing [unfolded Cons b]]
    have "k' = writeDestination A ip4 h ttl (cs_k s)" "pc' = Writing bs'" "st = Running"
      using step by (simp_all add: Writing Cons b)
    then show ?thesis using cinvD [OF inv] w by (intro cinvI) (auto simp: to_proxy_def)
  qed
qed

lemma inv_redirect_reader:
  assumes inv: "cinv H waiting dests proxy unpack D c s"
    and step: "ReadRedirectEvents_iter A (cs_k s) = (st, entry, k')"
  shows "cinv H waiting dests proxy unpack D c (s\<lparr>cs_k := k', cs_redirect := st,
    cs_log := cs_log s @ (case entry of None \<Rightarrow> [] | Some e \<Rightarrow> [e])\<rparr>)"
proof -
  let ?k = "cs_k s" and ?T = "to_proxy c s"
  obtain k1 x where rd: "read_into A Redirect_Events ?k = (k1, x)" by fastforce
  have f: "waiting Redirect_Events ?k = (case x of Read_Record d \<Rightarrow> add_mset d (waiting Redirect_Events k1) | _ \<Rightarrow> waiting Redirect_Events k1)"
    "waiting Dns_Events k1 = waiting Dns_Events ?k" "dests k1 = dests ?k" "proxy k1 = proxy ?k"
    using read_shared [OF rd, of Dns_Events] by auto
  have "k' = k1 \<and> st \<noteq> Panicked \<and>
    accounted c ?T (waiting Redirect_Events k1) (cs_log s @ (case entry of None \<Rightarrow> [] | Some e \<Rightarrow> [e]))"
  proof (cases x)
    case (Read_Record raw)
    then obtain e where "map_option log_redirect (ringbufCast raw) = Some e"
      "accounted c ?T (waiting Redirect_Events k1) (cs_log s @ [e])"
      using cinvD(9) [OF inv] f(1) accounted_log [of c ?T raw "waiting Redirect_Events k1" "cs_log s"] by auto
    with Read_Record step rd show ?thesis by (auto simp: ReadRedirectEvents_iter_def)
  qed (use step rd f(1) cinvD(9) [OF inv] in \<open>auto simp: ReadRedirectEvents_iter_def\<close>)
  with f show ?thesis using cinvD [OF inv] by (intro cinvI) (auto simp: to_proxy_def)
qed

lemma inv_elsewhere:
  assumes inv: "cinv H waiting dests proxy unpack D c s" and env: "shared_env waiting dests proxy (cs_k s) k'"
  shows "cinv H waiting dests proxy unpack D c (s\<lparr>cs_k := k'\<rparr>)"
proof -
  have "justified unpack D (cs_frames s) a i" if "dests k' a = Some i" for a i
    using env that cinvD(5) [OF inv, of a i] unfolding shared_env_def by (metis option.distinct(1))
  then show ?thesis using cinvD [OF inv] env by (intro cinvI) (auto simp: shared_env_def to_proxy_def)
qed

lemma inv_cstep:
  assumes "cstep H A unpack D (shared_env waiting dests proxy) s s'" and "cinv H waiting dests proxy unpack D c s"
  shows "cinv H waiting dests proxy unpack D c s'"
  using assms
  by (cases rule: cstep.cases)
    (auto intro: inv_packet_arrives inv_connect_called inv_hook_runs inv_reused inv_dns_reader
      inv_redirect_reader inv_elsewhere)

lemma inv_cstart:
  assumes "\<And>r. waiting r k = {#}" and "\<And>a. dests k a = None"
  shows "cinv H waiting dests proxy unpack D (proxy k) (cs_start k)"
  using assms by (simp add: cinv_def cs_start_def writes_ok_def accounted_def)

lemma inv_creachable:
  assumes "creachable H A unpack D (shared_env waiting dests proxy) k s"
    and "\<And>r. waiting r k = {#}" and "\<And>a. dests k a = None"
  shows "cinv H waiting dests proxy unpack D (proxy k) s"
  using assms(1) by (induction rule: creachable.induct) (auto intro: inv_cstart inv_cstep assms(2,3))

end

end
