(* ===== verification/Concurrent_Runs.thy ===== *)
theory Concurrent_Runs
  imports Concurrency
begin

text \<open>
  Runs of the system of \<open>Concurrency\<close>: every run in whole hooks and iterations is one of them; a run
  in which a line is logged while the hook has still to rewrite its connect; and the properties that
  hold of all of them.
\<close>

subsection \<open>Runs without interruption\<close>

text \<open>
  A state of the system in which every hook and every iteration of a reader is one step, as a state
  of this one with nothing under way.
\<close>

definition at_rest :: "'k sys \<Rightarrow> 'k csys" where
  "at_rest s = \<lparr>cs_k = sys_k s, cs_hooks = [], cs_pc = Reading, cs_dns = sys_dns s, cs_redirect = sys_redirect s,
     cs_frames = sys_frames s, cs_returned = sys_connects s, cs_log = sys_log s\<rparr>"

lemma creachable_hook:
  assumes "creachable H A unpack D env k s" and "cs_hooks s = hs @ h # hs'" and "hook_step H h (cs_k s) = (r, k')"
  shows "creachable H A unpack D env k (s\<lparr>cs_k := k', cs_hooks := hs @ flying r @ hs', cs_returned := cs_returned s @ returns r\<rparr>)"
  by (rule creachable.cnext [OF assms(1) cstep.hook_runs [OF assms(2,3)]])

lemma run_hook_reaches:
  assumes "creachable H A unpack D env k s" and "cs_hooks s = hs @ h # hs'" and "run_hook H (Goes h) (cs_k s) = (r, k')"
  shows "creachable H A unpack D env k (s\<lparr>cs_k := k', cs_hooks := hs @ hs', cs_returned := cs_returned s @ returns r\<rparr>)"
  using assms
proof (induction "steps_left h" arbitrary: h s rule: less_induct)
  case less
  obtain r1 k1 where st: "hook_step H h (cs_k s) = (r1, k1)" by fastforce
  let ?s = "s\<lparr>cs_k := k1, cs_hooks := hs @ flying r1 @ hs', cs_returned := cs_returned s @ returns r1\<rparr>"
  have s: "creachable H A unpack D env k ?s"
    by (rule creachable_hook [OF less.prems(1,2) st])
  show ?case
  proof (cases r1)
    case (Goes g)
    then show ?thesis using less.hyps [of g ?s] hook_step_left [OF st] s st less.prems(3) by simp
  qed (use s st less.prems(3) in auto)
qed

lemma run_writes_reaches:
  assumes "creachable H A unpack D env k s" and "cs_pc s = Writing bs" and "cs_dns s = Running"
  shows "creachable H A unpack D env k
    (s\<lparr>cs_k := fold (\<lambda>(ip, h, ttl). writeDestination A ip h ttl) bs (cs_k s), cs_pc := Reading, cs_dns := Running\<rparr>)"
  using assms
proof (induction bs arbitrary: s)
  case Nil
  then show ?case using creachable.cnext [OF Nil(1) cstep.dns_reader [where s = s]] by simp
next
  case (Cons b bs)
  obtain ip4 h ttl where b: "b = (ip4, h, ttl)" by (cases b)
  let ?s = "s\<lparr>cs_k := writeDestination A ip4 h ttl (cs_k s), cs_pc := Writing bs, cs_dns := Running\<rparr>"
  have "creachable H A unpack D env k ?s"
    using creachable.cnext [OF Cons.prems(1) cstep.dns_reader [where s = s]] Cons.prems(2,3) by (simp add: b)
  then show ?case using Cons.IH [of ?s] by (simp add: b)
qed

lemma rest_packet:
  assumes "creachable H A unpack D env k (at_rest s)" and "skb_ok skb" and "tc_dns_observer H skb (sys_k s) = (r, k')"
  shows "creachable H A unpack D env k (at_rest (s\<lparr>sys_k := k', sys_frames := sys_frames s @ [skb_data skb]\<rparr>))"
proof -
  let ?s = "(at_rest s)\<lparr>cs_hooks := cs_hooks (at_rest s) @ flying (tc_enter H skb), cs_frames := cs_frames (at_rest s) @ [skb_data skb]\<rparr>"
  have c: "creachable H A unpack D env k ?s"
    by (rule creachable.cnext [OF assms(1) cstep.packet_arrives [OF assms(2)]])
  have run: "run_hook H (tc_enter H skb) (sys_k s) = (Tc_Ret r, k')" using assms(3) by (simp add: run_hook_tc)
  show ?thesis
  proof (cases "tc_enter H skb")
    case (Goes h)
    then show ?thesis using run_hook_reaches [OF c, of "[]" h "[]"] run by (simp add: at_rest_def)
  qed (use c run in \<open>auto simp: at_rest_def\<close>)
qed

lemma rest_connect:
  assumes "creachable H A unpack D env k (at_rest s)" and "cgroup_connect4 H ctx (sys_k s) = (r, ctx', k')"
  shows "creachable H A unpack D env k (at_rest (s\<lparr>sys_k := k', sys_connects := sys_connects s @ [(ctx, ctx')]\<rparr>))"
proof -
  have "run_hook H (Goes (Con_Lookup ctx)) (sys_k s) = (Con_Ret ctx r ctx', k')" by (simp only: run_hook_connect assms(2)) simp
  then show ?thesis
    using run_hook_reaches [OF creachable.cnext [OF assms(1) cstep.connect_called [where ctx = ctx]], of "[]" "Con_Lookup ctx" "[]"]
    by (simp add: at_rest_def del: run_hook.simps(1))
qed

lemma rest_dns_read:
  assumes "creachable H A unpack D env k (at_rest s)" and "sys_dns s = Running"
    and "ReadDNSEvents_iter A unpack D (sys_k s) = (st, k')"
  shows "creachable H A unpack D env k (at_rest (s\<lparr>sys_k := k', sys_dns := st\<rparr>))"
proof -
  obtain st1 pc k1 where stp: "dns_reader_step A unpack D Reading (sys_k s) = (st1, pc, k1)" by (metis prod_cases3)
  let ?s = "(at_rest s)\<lparr>cs_k := k1, cs_pc := pc, cs_dns := st1\<rparr>"
  have c: "creachable H A unpack D env k ?s"
    using creachable.cnext [OF assms(1) cstep.dns_reader [where s = "at_rest s"]] stp assms(2) by (simp add: at_rest_def)
  have run: "run_writes A unpack D (st1, pc, k1) = (st, k')" using run_reader [of A unpack D "sys_k s"] stp assms(3) by simp
  show ?thesis
  proof (cases pc)
    case Reading
    with c run show ?thesis by (simp add: at_rest_def)
  next
    case (Writing bs)
    then have "st1 = Running" using stp by (auto split: prod.splits read_result.splits option.splits)
    with run_writes_reaches [OF c] Writing run show ?thesis
      by (simp add: run_writes_fold at_rest_def del: run_writes.simps(2))
  qed
qed

lemma rest_redirect_read:
  assumes "creachable H A unpack D env k (at_rest s)" and "sys_redirect s = Running"
    and "ReadRedirectEvents_iter A (sys_k s) = (st, entry, k')"
  shows "creachable H A unpack D env k (at_rest (s\<lparr>sys_k := k', sys_redirect := st,
    sys_log := sys_log s @ (case entry of None \<Rightarrow> [] | Some e \<Rightarrow> [e])\<rparr>))"
  using creachable.cnext [OF assms(1) cstep.redirect_reader [where s = "at_rest s"]] assms(2,3)
  by (simp add: at_rest_def)

lemma rest_environment:
  assumes "creachable H A unpack D env k (at_rest s)" and "env (sys_k s) k'"
  shows "creachable H A unpack D env k (at_rest (s\<lparr>sys_k := k'\<rparr>))"
  using creachable.cnext [OF assms(1) cstep.elsewhere [where s = "at_rest s"]] assms(2) by (simp add: at_rest_def)

text \<open>Every run in whole hooks and iterations is a run of this system.\<close>

lemma reachable_at_rest:
  assumes "reachable H A unpack D env k s"
  shows "creachable H A unpack D env k (at_rest s)"
  using assms
proof (induction rule: reachable.induct)
  case start
  have "at_rest (sys_start k) = cs_start k" by (simp add: at_rest_def sys_start_def cs_start_def)
  then show ?case by (simp add: creachable.cstart)
next
  case (step s s')
  from step(2) show ?case
    by (cases rule: sys_step.cases)
      (auto intro: rest_packet rest_connect rest_dns_read rest_redirect_read rest_environment step.IH)
qed

lemma cstep_env_mono:
  assumes "cstep H A unpack D env s s'" and "\<And>k k'. env k k' \<Longrightarrow> env' k k'"
  shows "cstep H A unpack D env' s s'"
  using assms(1) by (cases rule: cstep.cases) (auto intro: cstep.intros assms(2))

lemma creachable_env_mono:
  assumes "creachable H A unpack D env k s" and "\<And>k k'. env k k' \<Longrightarrow> env' k k'"
  shows "creachable H A unpack D env' k s"
  using assms(1) by (induction rule: creachable.induct) (auto intro: creachable.intros cstep_env_mono assms(2))

lemma reachable_shared:
  assumes "reachable H A unpack D (env_change pending dests proxy) k s"
  shows "creachable H A unpack D (shared_env (\<lambda>r k. mset (pending r k)) dests proxy) k (at_rest s)"
  by (rule creachable_env_mono [OF reachable_at_rest [OF assms]]) (simp add: env_change_def shared_env_def)

subsection \<open>A line is logged before the connect is rewritten\<close>

lemma run_until_rewrite:
  assumes "creachable H A unpack D env k s" and "cs_hooks s = hs @ Con_Lookup ctx # hs'"
    and "lookup_ai_destinations H (user_ip4 ctx) (cs_k s) = (k1, Some info)" and "lookup_proxy_config H 0 k1 = (k2, Some c)"
    and "ringbuf_reserve H Redirect_Events (sizeof redirect_event_t) k2 = (k3, Some ev)"
  shows "creachable H A unpack D env k (s\<lparr>cs_k := ringbuf_submit H Redirect_Events
      (fill_redirect_event H (user_ip4 ctx) (ucast (user_port ctx)) info c k3 ev) k3, cs_hooks := hs @ Con_Rewrite ctx c # hs'\<rparr>)"
proof -
  let ?R = "creachable H A unpack D env k"
  let ?e = "fill_redirect_event H (user_ip4 ctx) (ucast (user_port ctx)) info c k3 ev"
  have "?R (s\<lparr>cs_k := k1, cs_hooks := hs @ Con_Proxy ctx info # hs'\<rparr>)"
    using creachable_hook [OF assms(1,2)] assms(3) by simp
  from creachable_hook [OF this, of hs "Con_Proxy ctx info" hs'] assms(4)
  have "?R (s\<lparr>cs_k := k2, cs_hooks := hs @ Con_Reserve ctx info c # hs'\<rparr>)" by simp
  from creachable_hook [OF this, of hs "Con_Reserve ctx info c" hs'] assms(5)
  have "?R (s\<lparr>cs_k := k3, cs_hooks := hs @ Con_Fill ctx info c ev # hs'\<rparr>)" by simp
  from creachable_hook [OF this, of hs "Con_Fill ctx info c ev" hs']
  have "?R (s\<lparr>cs_k := k3, cs_hooks := hs @ Con_Submit ctx c ?e # hs'\<rparr>)" by simp
  from creachable_hook [OF this, of hs "Con_Submit ctx c ?e" hs'] show ?thesis by simp
qed

abbreviation ref_shared_env :: "'z ref_kernel_scheme \<Rightarrow> 'z ref_kernel_scheme \<Rightarrow> bool" where
  "ref_shared_env \<equiv> shared_env (\<lambda>r k. mset (ref_pending r k)) ref_dests rk_proxy"

abbreviation ref_creachable :: "ref_kernel csys \<Rightarrow> bool" where
  "ref_creachable \<equiv> creachable ref_helpers ref_agent example_unpack DefaultAIDomains ref_shared_env ref_proxied"

text \<open>A ring buffer that hands out the newest sample first keeps the contract too.\<close>

definition ref_helpers_newest :: "'z ref_kernel_scheme bpf_helpers" where
  "ref_helpers_newest = ref_helpers\<lparr>ringbuf_submit := (\<lambda>r d k. ref_set_pending r (d # ref_pending r k) k)\<rparr>"

interpretation rn: shared_kernel ref_helpers_newest "\<lambda>r k. mset (ref_pending r k)" ref_dests rk_proxy ref_agent
proof (unfold_locales, goal_cases)
  case (1 skb n off)
  then show ?case using rk.load_bytes [OF 1] by (simp add: ref_helpers_newest_def)
next
  case (2 r sz k k' m)
  then show ?case using rk.reserve_size [of r sz k k' m] by (simp add: ref_helpers_newest_def)
next
  case (3 d sz s k ok d')
  then show ?case using rk.probe_read_size [of d sz s k ok d'] by (simp add: ref_helpers_newest_def)
next
  case (4 d sz k ok d')
  then show ?case using rk.comm_size [of d sz k ok d'] by (simp add: ref_helpers_newest_def)
next
  case (14 a i k k' ok r)
  then show ?case by (rule rk.shared.update_shared)
next
  case (15 r k k' x r')
  then show ?case by (rule rk.shared.read_shared)
qed (auto simp: ref_helpers_newest_def ref_helpers_def ref_reserve_def ref_lookup_def ref_dests_def map_of_filter_key
    fun_eq_iff split: if_splits option.splits)

text \<open>The example response has been processed.\<close>

lemma example_learned:
  obtains s i where "ref_creachable s" "cs_hooks s = []" "cs_returned s = []" "cs_log s = []" "cs_redirect s = Running"
    "ref_dests (cs_k s) 0x2D211268 = Some i" "ref_pending Redirect_Events (cs_k s) = []" "\<not> rk_closed (cs_k s)"
proof -
  let ?skb = "example_skb example_msg" and ?k = ref_proxied
  obtain r1 k1 k2 i where tc: "tc_dns_observer ref_helpers ?skb ?k = (r1, k1)"
    and it: "ReadDNSEvents_iter ref_agent example_unpack DefaultAIDomains k1 = (Running, k2)"
    and k2: "ref_dests k2 0x2D211268 = Some i" "ref_pending Redirect_Events k2 = []" "\<not> rk_closed k2"
    by (rule example_answered [OF ref_proxied_fresh(1,3)])
  let ?s1 = "(sys_start ?k)\<lparr>sys_k := k1, sys_frames := [skb_data ?skb]\<rparr>"
  have ok: "skb_ok ?skb" by code_simp
  have c0: "ref_creachable (at_rest (sys_start ?k))"
    using creachable.cstart by (simp add: at_rest_def sys_start_def cs_start_def)
  have c1: "ref_creachable (at_rest ?s1)" using rest_packet [OF c0 ok] tc by (simp add: sys_start_def)
  have "ref_creachable (at_rest (?s1\<lparr>sys_k := k2, sys_dns := Running\<rparr>))"
    by (rule rest_dns_read [OF c1]) (use it in \<open>simp_all add: sys_start_def\<close>)
  from that [OF this] k2 show thesis by (simp add: at_rest_def sys_start_def)
qed

lemma example_logged_early:
  obtains s e where "ref_creachable s" "cs_hooks s = [Con_Rewrite (example_ctx 0x2D211268) (rk_proxy ref_proxied)]"
    "cs_returned s = []" "cs_log s = [e]"
proof -
  let ?x = "example_ctx 0x2D211268" and ?c = "rk_proxy ref_proxied"
  obtain s i where s: "ref_creachable s" "cs_hooks s = []" "cs_returned s = []" "cs_log s = []" "cs_redirect s = Running"
    and i: "ref_dests (cs_k s) 0x2D211268 = Some i" and p: "ref_pending Redirect_Events (cs_k s) = []" and o: "\<not> rk_closed (cs_k s)"
    by (rule example_learned)
  let ?s = "s\<lparr>cs_hooks := [Con_Lookup ?x]\<rparr>"
  have c: "ref_creachable ?s" using creachable.cnext [OF s(1) cstep.connect_called] s(2) by fastforce
  have px: "rk_proxy (cs_k s) = ?c" by (rule rk.shared.inv_creachable [OF s(1), THEN cinvD(1)]) (simp_all add: ref_proxied_fresh)
  obtain k1 where l: "lookup_ai_destinations ref_helpers (user_ip4 ?x) (cs_k ?s) = (k1, Some i)"
    and k1: "ref_pending Redirect_Events k1 = []" "rk_proxy k1 = ?c" "\<not> rk_closed k1"
    using i p o px by (simp add: ref_helpers_def ref_lookup_def ref_dests_def example_ctx_def)
  have cf: "lookup_proxy_config ref_helpers 0 k1 = (k1, Some ?c)" using k1(2) by (simp add: ref_helpers_def)
  have rs: "ringbuf_reserve ref_helpers Redirect_Events (sizeof redirect_event_t) k1 = (k1, Some (replicate 248 (rk_stale k1)))"
    using ref_reserve_empty [OF k1(1), of 248] by simp
  define ev where "ev = fill_redirect_event ref_helpers (user_ip4 ?x) (ucast (user_port ?x)) i ?c k1 (replicate 248 (rk_stale k1))"
  define k3 where "k3 = ringbuf_submit ref_helpers Redirect_Events ev k1"
  let ?t = "s\<lparr>cs_k := k3, cs_hooks := [Con_Rewrite ?x ?c]\<rparr>"
  have t: "ref_creachable ?t"
    using run_until_rewrite [OF c _ l cf rs, of "[]" "[]"] by (simp add: k3_def ev_def)
  have w: "ref_pending Redirect_Events k3 = [ev]" "\<not> rk_closed k3"
    using k1 by (simp_all add: k3_def ref_helpers_def)
  have "accounted ?c (to_proxy ?c ?t) {#ev#} []"
    using rk.shared.inv_creachable [OF t, THEN cinvD(9)] w(1) s(4) by (simp add: ref_proxied_fresh)
  then obtain e where "map_option log_redirect (ringbufCast ev) = Some e" by (rule accounted_log)
  then have "ReadRedirectEvents_iter ref_agent k3 = (Running, Some e, ref_set_pending Redirect_Events [] k3)"
    using ref_read_open [OF w(2,1)] by (auto simp: ReadRedirectEvents_iter_def)
  then have "ref_creachable (?t\<lparr>cs_k := ref_set_pending Redirect_Events [] k3, cs_redirect := Running, cs_log := [e]\<rparr>)"
    using creachable.cnext [OF t cstep.redirect_reader [where s = ?t]] s(4,5) by fastforce
  from that [OF this] s(3) show thesis by simp
qed

subsection \<open>Properties of the concurrent system\<close>


text \<open>
  C4. Soundness of interception under concurrency: with any number of hooks under way, interrupted
  between any two calls into the kernel, with addresses of one answer written one by one, entries
  evicted or their memory reused, and rings that promise no order, a connect that came back changed
  was sent to the configured proxy, and some captured response gave its address to an AI host name.
\<close>

theorem concurrent_redirects_justified:
  assumes "shared_kernel H waiting dests proxy A"
    and "creachable H A unpack D (shared_env waiting dests proxy) k s"
    and "\<And>r. waiting r k = {#}" and "\<And>a. dests k a = None"
    and "(ctx, ctx') \<in> set (cs_returned s)" and "ctx' \<noteq> ctx"
  shows "ctx' = redirect (proxy k) ctx \<and>
    (\<exists>p \<in> set (cs_frames s). \<exists>m answer ip4 h ttl. dns_capture p = Some m \<and> unpack m = Some answer \<and>
      ai_resolution D answer ip4 h ttl \<and> user_ip4 ctx = le_word ip4)"
proof -
  have "cinv H waiting dests proxy unpack D (proxy k) s"
    by (rule shared_kernel.inv_creachable [OF assms(1-4)])
  from cinvD(8) [OF this assms(5)] assms(6) show ?thesis
    unfolding connect_ok_def justified_def resolved_entry_def entry_for_def by fastforce
qed

theorem concurrent_redirects_justified_witness:
  "\<exists>s ctx'. ref_creachable s \<and> (example_ctx 0x2D211268, ctx') \<in> set (cs_returned s) \<and>
    ctx' = redirect (rk_proxy ref_proxied) (example_ctx 0x2D211268)"
proof -
  let ?x = "example_ctx 0x2D211268" and ?c = "rk_proxy ref_proxied"
  obtain s e where s: "ref_creachable s" "cs_hooks s = [Con_Rewrite ?x ?c]" by (rule example_logged_early)
  let ?y = "?x\<lparr>user_ip4 := cfg_ip ?c, user_port := ucast (cfg_port ?c)\<rparr>"
  let ?t = "s\<lparr>cs_hooks := [], cs_returned := cs_returned s @ [(?x, ?y)]\<rparr>"
  have t: "ref_creachable ?t" using creachable_hook [OF s(1), of "[]" "Con_Rewrite ?x ?c" "[]"] s(2) by simp
  have m: "(?x, ?y) \<in> set (cs_returned ?t)" by simp
  have "?y \<noteq> ?x" by (simp add: example_ctx_def ref_proxied_def)
  from concurrent_redirects_justified [OF rk.shared.shared_kernel_axioms t _ _ m this] t m
  show ?thesis by (auto simp: ref_proxied_fresh)
qed

text \<open>
  C5. The log under concurrency: the readers never panic, and the lines of the log belong, one to
  one, to connects that came back redirected to the proxy or whose hook is about to rewrite them,
  and show their original address and port and the address and port of the proxy. So with no hook
  under way every line has a redirected connect of its own.
\<close>

theorem concurrent_log_accounted:
  assumes "shared_kernel H waiting dests proxy A"
    and "creachable H A unpack D (shared_env waiting dests proxy) k s"
    and "\<And>r. waiting r k = {#}" and "\<And>a. dests k a = None"
  shows "cs_dns s \<noteq> Panicked \<and> cs_redirect s \<noteq> Panicked \<and>
    (\<exists>ctxs. mset ctxs \<subseteq># mset (map fst (filter (\<lambda>x. snd x = redirect (proxy k) (fst x)) (cs_returned s))) +
        mset (concat (map rewriting (cs_hooks s))) \<and>
      list_all2 (\<lambda>ctx e. log_original_ip e = IP_String4 (le_bytes (user_ip4 ctx)) \<and>
        log_original_port e = ntohs (ucast (user_port ctx)) \<and>
        log_proxy_ip e = IP_String4 (le_bytes (cfg_ip (proxy k))) \<and>
        log_proxy_port e = ntohs (cfg_port (proxy k))) ctxs (cs_log s))"
proof -
  have inv: "cinv H waiting dests proxy unpack D (proxy k) s"
    by (rule shared_kernel.inv_creachable [OF assms])
  obtain M :: "(sock_addr \<times> bytes) multiset" and ctxs where l: "list_all2 (logs (proxy k)) ctxs (cs_log s)"
    and t: "image_mset fst M + mset ctxs \<subseteq># to_proxy (proxy k) s"
    using cinvD(9) [OF inv] unfolding accounted_def by blast
  have "mset ctxs \<subseteq># to_proxy (proxy k) s" using t by (meson mset_subset_eq_add_right subset_mset.order_trans)
  with l cinvD(2,3) [OF inv] show ?thesis unfolding to_proxy_def logs_def by blast
qed

theorem concurrent_log_accounted_witness:
  "\<exists>s e. ref_creachable s \<and> cs_returned s = [] \<and> cs_log s = [e] \<and>
    cs_hooks s = [Con_Rewrite (example_ctx 0x2D211268) (rk_proxy ref_proxied)] \<and>
    log_original_ip e = IP_String4 [104, 18, 33, 45]"
proof -
  let ?x = "example_ctx 0x2D211268" and ?c = "rk_proxy ref_proxied"
  obtain s e where s: "ref_creachable s" "cs_hooks s = [Con_Rewrite ?x ?c]" "cs_returned s = []" "cs_log s = [e]"
    by (rule example_logged_early)
  have "mset (ref_pending r ref_proxied) = {#}" for r by (simp add: ref_proxied_fresh)
  from concurrent_log_accounted [OF rk.shared.shared_kernel_axioms s(1) this ref_proxied_fresh(2)]
  obtain ctxs ctx where "mset ctxs \<subseteq># {#?x#}" and "ctxs = [ctx]" and e: "log_original_ip e = IP_String4 (le_bytes (user_ip4 ctx))"
    unfolding s(2-4) list_all2_Cons2 list_all2_Nil2 by auto
  then have "ctx = ?x" by simp
  moreover have "user_ip4 ?x = le_word [104, 18, 33, 45]" by (simp add: le_word_def example_ctx_def)
  ultimately show ?thesis using s e by (auto simp: le_bytes_le_word)
qed

end
