(* ===== verification/Helper_Table.thy ===== *)
theory Helper_Table
  imports C_Layout
begin

text \<open>
  The helper functions of the BPF programs: \<^verbatim>\<open>src/bpf/include/bpf/bpf_helper_defs.h\<close> declares
  each of them as a function pointer with a constant address, the number that the compiled call
  instruction carries, and \<^verbatim>\<open>src/bpf/vmlinux.h\<close> lists in \<^verbatim>\<open>enum bpf_func_id\<close> the numbers that
  the kernel implements. Both tables are transcribed, the first in groups of consecutive
  declarations, with the prototype of every helper. The properties compare the two tables with
  each other, with the calling convention of the BPF machine (five registers of 64 bits for the
  arguments) and with the calls in \<^verbatim>\<open>src/bpf/ai_interceptor.c\<close>.
\<close>

subsection \<open>C types of the prototypes\<close>

datatype cty = Void | Named string | Struct string | Const cty | Ptr cty | Variadic

datatype helper = Helper (h_name: string) (h_ret: cty) (h_args: "cty list") (h_id: nat)

text \<open>The integer typedefs at the start of \<^verbatim>\<open>vmlinux.h\<close>.\<close>

definition typedefs :: "(string \<times> string) list" where
  "typedefs = [
     (''__s8'', ''signed char''), (''__u8'', ''unsigned char''), (''__s16'', ''short int''),
     (''__u16'', ''short unsigned int''), (''__s32'', ''int''), (''__u32'', ''unsigned int''),
     (''__s64'', ''long long int''), (''__u64'', ''long long unsigned int''), (''s8'', ''__s8''),
     (''u8'', ''__u8''), (''s16'', ''__s16''), (''u16'', ''__u16''), (''s32'', ''__s32''),
     (''u32'', ''__u32''), (''s64'', ''__s64''), (''u64'', ''__u64''),
     (''__kernel_long_t'', ''long int''), (''__kernel_ulong_t'', ''long unsigned int''),
     (''__kernel_pid_t'', ''int''), (''__kernel_uid32_t'', ''unsigned int''),
     (''__kernel_gid32_t'', ''unsigned int''), (''__kernel_size_t'', ''__kernel_ulong_t''),
     (''__kernel_ssize_t'', ''__kernel_long_t''), (''__kernel_loff_t'', ''long long int''),
     (''__kernel_time64_t'', ''long long int''), (''__kernel_clock_t'', ''__kernel_long_t''),
     (''__kernel_timer_t'', ''int''), (''__kernel_clockid_t'', ''int''), (''__be16'', ''__u16''),
     (''__le32'', ''__u32''), (''__be32'', ''__u32''), (''__wsum'', ''__u32''),
     (''__poll_t'', ''unsigned int''), (''__kernel_dev_t'', ''u32''),
     (''dev_t'', ''__kernel_dev_t''), (''umode_t'', ''short unsigned int''),
     (''pid_t'', ''__kernel_pid_t''), (''clockid_t'', ''__kernel_clockid_t''),
     (''bool'', ''_Bool''), (''uid_t'', ''__kernel_uid32_t''), (''gid_t'', ''__kernel_gid32_t''),
     (''loff_t'', ''__kernel_loff_t''), (''size_t'', ''__kernel_size_t''),
     (''ssize_t'', ''__kernel_ssize_t''), (''int32_t'', ''s32''), (''uint32_t'', ''u32''),
     (''sector_t'', ''u64''), (''blkcnt_t'', ''u64''), (''gfp_t'', ''unsigned int''),
     (''fmode_t'', ''unsigned int''), (''phys_addr_t'', ''u64''),
     (''irq_hw_number_t'', ''long unsigned int'')]"

text \<open>The sizes of the C types the typedefs end in, on the 64-bit BPF target.\<close>

definition base_size :: "string \<Rightarrow> nat option" where
  "base_size s =
     (if s \<in> {''char'', ''signed char'', ''unsigned char'', ''_Bool''} then Some 1
      else if s \<in> {''short int'', ''short unsigned int''} then Some 2
      else if s \<in> {''int'', ''unsigned int''} then Some 4
      else if s \<in> {''long'', ''long int'', ''unsigned long'', ''long unsigned int'',
        ''long long int'', ''long long unsigned int''} then Some 8
      else None)"

text \<open>A typedef only refers to earlier ones, so a chain is followed back through the list.\<close>

fun resolve :: "(string \<times> string) list \<Rightarrow> string \<Rightarrow> string" where
  "resolve [] s = s"
| "resolve ((new, old) # earlier) s = (if new = s then resolve earlier old else resolve earlier s)"

definition named_size :: "string \<Rightarrow> nat option" where
  "named_size s = base_size (resolve (rev typedefs) s)"

fun cty_size :: "cty \<Rightarrow> nat option" where
  "cty_size Void = None"
| "cty_size (Named s) = named_size s"
| "cty_size (Struct s) = None"
| "cty_size (Const t) = cty_size t"
| "cty_size (Ptr t) = Some 8"
| "cty_size Variadic = None"

fun structs_of :: "cty \<Rightarrow> string list" where
  "structs_of Void = []"
| "structs_of (Named s) = []"
| "structs_of (Struct s) = [s]"
| "structs_of (Const t) = structs_of t"
| "structs_of (Ptr t) = structs_of t"
| "structs_of Variadic = []"

subsection \<open>bpf_helper_defs.h\<close>

definition forward_structs :: "string list" where
  "forward_structs = [
     ''bpf_fib_lookup'', ''bpf_sk_lookup'', ''bpf_perf_event_data'', ''bpf_perf_event_value'',
     ''bpf_pidns_info'', ''bpf_redir_neigh'', ''bpf_sock'', ''bpf_sock_addr'', ''bpf_sock_ops'',
     ''bpf_sock_tuple'', ''bpf_spin_lock'', ''bpf_sysctl'', ''bpf_tcp_sock'', ''bpf_tunnel_key'',
     ''bpf_xfrm_state'', ''linux_binprm'', ''pt_regs'', ''sk_reuseport_md'', ''sockaddr'',
     ''tcphdr'', ''seq_file'', ''tcp6_sock'', ''tcp_sock'', ''tcp_timewait_sock'',
     ''tcp_request_sock'', ''udp6_sock'', ''unix_sock'', ''task_struct'', ''__sk_buff'',
     ''sk_msg_md'', ''xdp_md'', ''path'', ''btf_ptr'', ''inode'', ''socket'', ''file'',
     ''bpf_timer'']"

definition helpers_1_7 :: "helper list" where
  "helpers_1_7 = [
     Helper ''bpf_map_lookup_elem'' (Ptr Void) [Ptr Void, Ptr (Const Void)] 1,
     Helper ''bpf_map_update_elem'' (Named ''long'') [Ptr Void, Ptr (Const Void), Ptr (Const Void),
         Named ''__u64''] 2,
     Helper ''bpf_map_delete_elem'' (Named ''long'') [Ptr Void, Ptr (Const Void)] 3,
     Helper ''bpf_probe_read'' (Named ''long'') [Ptr Void, Named ''__u32'', Ptr (Const Void)] 4,
     Helper ''bpf_ktime_get_ns'' (Named ''__u64'') [] 5,
     Helper ''bpf_trace_printk'' (Named ''long'') [Ptr (Const (Named ''char'')), Named ''__u32'',
         Variadic] 6,
     Helper ''bpf_get_prandom_u32'' (Named ''__u32'') [] 7]"

definition helpers_8_12 :: "helper list" where
  "helpers_8_12 = [
     Helper ''bpf_get_smp_processor_id'' (Named ''__u32'') [] 8,
     Helper ''bpf_skb_store_bytes'' (Named ''long'') [Ptr (Struct ''__sk_buff''), Named ''__u32'',
         Ptr (Const Void), Named ''__u32'', Named ''__u64''] 9,
     Helper ''bpf_l3_csum_replace'' (Named ''long'') [Ptr (Struct ''__sk_buff''), Named ''__u32'',
         Named ''__u64'', Named ''__u64'', Named ''__u64''] 10,
     Helper ''bpf_l4_csum_replace'' (Named ''long'') [Ptr (Struct ''__sk_buff''), Named ''__u32'',
         Named ''__u64'', Named ''__u64'', Named ''__u64''] 11,
     Helper ''bpf_tail_call'' (Named ''long'') [Ptr Void, Ptr Void, Named ''__u32''] 12]"

definition helpers_13_19 :: "helper list" where
  "helpers_13_19 = [
     Helper ''bpf_clone_redirect'' (Named ''long'') [Ptr (Struct ''__sk_buff''), Named ''__u32'',
         Named ''__u64''] 13,
     Helper ''bpf_get_current_pid_tgid'' (Named ''__u64'') [] 14,
     Helper ''bpf_get_current_uid_gid'' (Named ''__u64'') [] 15,
     Helper ''bpf_get_current_comm'' (Named ''long'') [Ptr Void, Named ''__u32''] 16,
     Helper ''bpf_get_cgroup_classid'' (Named ''__u32'') [Ptr (Struct ''__sk_buff'')] 17,
     Helper ''bpf_skb_vlan_push'' (Named ''long'') [Ptr (Struct ''__sk_buff''), Named ''__be16'',
         Named ''__u16''] 18,
     Helper ''bpf_skb_vlan_pop'' (Named ''long'') [Ptr (Struct ''__sk_buff'')] 19]"

definition helpers_20_22 :: "helper list" where
  "helpers_20_22 = [
     Helper ''bpf_skb_get_tunnel_key'' (Named ''long'') [Ptr (Struct ''__sk_buff''),
         Ptr (Struct ''bpf_tunnel_key''), Named ''__u32'', Named ''__u64''] 20,
     Helper ''bpf_skb_set_tunnel_key'' (Named ''long'') [Ptr (Struct ''__sk_buff''),
         Ptr (Struct ''bpf_tunnel_key''), Named ''__u32'', Named ''__u64''] 21,
     Helper ''bpf_perf_event_read'' (Named ''__u64'') [Ptr Void, Named ''__u64''] 22]"

definition helpers_23_26 :: "helper list" where
  "helpers_23_26 = [
     Helper ''bpf_redirect'' (Named ''long'') [Named ''__u32'', Named ''__u64''] 23,
     Helper ''bpf_get_route_realm'' (Named ''__u32'') [Ptr (Struct ''__sk_buff'')] 24,
     Helper ''bpf_perf_event_output'' (Named ''long'') [Ptr Void, Ptr Void, Named ''__u64'', Ptr Void,
         Named ''__u64''] 25,
     Helper ''bpf_skb_load_bytes'' (Named ''long'') [Ptr (Const Void), Named ''__u32'', Ptr Void,
         Named ''__u32''] 26]"

definition helpers_27_31 :: "helper list" where
  "helpers_27_31 = [
     Helper ''bpf_get_stackid'' (Named ''long'') [Ptr Void, Ptr Void, Named ''__u64''] 27,
     Helper ''bpf_csum_diff'' (Named ''__s64'') [Ptr (Named ''__be32''), Named ''__u32'',
         Ptr (Named ''__be32''), Named ''__u32'', Named ''__wsum''] 28,
     Helper ''bpf_skb_get_tunnel_opt'' (Named ''long'') [Ptr (Struct ''__sk_buff''), Ptr Void,
         Named ''__u32''] 29,
     Helper ''bpf_skb_set_tunnel_opt'' (Named ''long'') [Ptr (Struct ''__sk_buff''), Ptr Void,
         Named ''__u32''] 30,
     Helper ''bpf_skb_change_proto'' (Named ''long'') [Ptr (Struct ''__sk_buff''), Named ''__be16'',
         Named ''__u64''] 31]"

definition helpers_32_38 :: "helper list" where
  "helpers_32_38 = [
     Helper ''bpf_skb_change_type'' (Named ''long'') [Ptr (Struct ''__sk_buff''), Named ''__u32''] 32,
     Helper ''bpf_skb_under_cgroup'' (Named ''long'') [Ptr (Struct ''__sk_buff''), Ptr Void,
         Named ''__u32''] 33,
     Helper ''bpf_get_hash_recalc'' (Named ''__u32'') [Ptr (Struct ''__sk_buff'')] 34,
     Helper ''bpf_get_current_task'' (Named ''__u64'') [] 35,
     Helper ''bpf_probe_write_user'' (Named ''long'') [Ptr Void, Ptr (Const Void), Named ''__u32''] 36,
     Helper ''bpf_current_task_under_cgroup'' (Named ''long'') [Ptr Void, Named ''__u32''] 37,
     Helper ''bpf_skb_change_tail'' (Named ''long'') [Ptr (Struct ''__sk_buff''), Named ''__u32'',
         Named ''__u64''] 38]"

definition helpers_39_45 :: "helper list" where
  "helpers_39_45 = [
     Helper ''bpf_skb_pull_data'' (Named ''long'') [Ptr (Struct ''__sk_buff''), Named ''__u32''] 39,
     Helper ''bpf_csum_update'' (Named ''__s64'') [Ptr (Struct ''__sk_buff''), Named ''__wsum''] 40,
     Helper ''bpf_set_hash_invalid'' Void [Ptr (Struct ''__sk_buff'')] 41,
     Helper ''bpf_get_numa_node_id'' (Named ''long'') [] 42,
     Helper ''bpf_skb_change_head'' (Named ''long'') [Ptr (Struct ''__sk_buff''), Named ''__u32'',
         Named ''__u64''] 43,
     Helper ''bpf_xdp_adjust_head'' (Named ''long'') [Ptr (Struct ''xdp_md''), Named ''int''] 44,
     Helper ''bpf_probe_read_str'' (Named ''long'') [Ptr Void, Named ''__u32'', Ptr (Const Void)] 45]"

definition helpers_46_50 :: "helper list" where
  "helpers_46_50 = [
     Helper ''bpf_get_socket_cookie'' (Named ''__u64'') [Ptr Void] 46,
     Helper ''bpf_get_socket_uid'' (Named ''__u32'') [Ptr (Struct ''__sk_buff'')] 47,
     Helper ''bpf_set_hash'' (Named ''long'') [Ptr (Struct ''__sk_buff''), Named ''__u32''] 48,
     Helper ''bpf_setsockopt'' (Named ''long'') [Ptr Void, Named ''int'', Named ''int'', Ptr Void,
         Named ''int''] 49,
     Helper ''bpf_skb_adjust_room'' (Named ''long'') [Ptr (Struct ''__sk_buff''), Named ''__s32'',
         Named ''__u32'', Named ''__u64''] 50]"

definition helpers_51_54 :: "helper list" where
  "helpers_51_54 = [
     Helper ''bpf_redirect_map'' (Named ''long'') [Ptr Void, Named ''__u32'', Named ''__u64''] 51,
     Helper ''bpf_sk_redirect_map'' (Named ''long'') [Ptr (Struct ''__sk_buff''), Ptr Void,
         Named ''__u32'', Named ''__u64''] 52,
     Helper ''bpf_sock_map_update'' (Named ''long'') [Ptr (Struct ''bpf_sock_ops''), Ptr Void, Ptr Void,
         Named ''__u64''] 53,
     Helper ''bpf_xdp_adjust_meta'' (Named ''long'') [Ptr (Struct ''xdp_md''), Named ''int''] 54]"

definition helpers_55_58 :: "helper list" where
  "helpers_55_58 = [
     Helper ''bpf_perf_event_read_value'' (Named ''long'') [Ptr Void, Named ''__u64'',
         Ptr (Struct ''bpf_perf_event_value''), Named ''__u32''] 55,
     Helper ''bpf_perf_prog_read_value'' (Named ''long'') [Ptr (Struct ''bpf_perf_event_data''),
         Ptr (Struct ''bpf_perf_event_value''), Named ''__u32''] 56,
     Helper ''bpf_getsockopt'' (Named ''long'') [Ptr Void, Named ''int'', Named ''int'', Ptr Void,
         Named ''int''] 57,
     Helper ''bpf_override_return'' (Named ''long'') [Ptr (Struct ''pt_regs''), Named ''__u64''] 58]"

definition helpers_59_62 :: "helper list" where
  "helpers_59_62 = [
     Helper ''bpf_sock_ops_cb_flags_set'' (Named ''long'') [Ptr (Struct ''bpf_sock_ops''), Named ''int''] 59,
     Helper ''bpf_msg_redirect_map'' (Named ''long'') [Ptr (Struct ''sk_msg_md''), Ptr Void,
         Named ''__u32'', Named ''__u64''] 60,
     Helper ''bpf_msg_apply_bytes'' (Named ''long'') [Ptr (Struct ''sk_msg_md''), Named ''__u32''] 61,
     Helper ''bpf_msg_cork_bytes'' (Named ''long'') [Ptr (Struct ''sk_msg_md''), Named ''__u32''] 62]"

definition helpers_63_67 :: "helper list" where
  "helpers_63_67 = [
     Helper ''bpf_msg_pull_data'' (Named ''long'') [Ptr (Struct ''sk_msg_md''), Named ''__u32'',
         Named ''__u32'', Named ''__u64''] 63,
     Helper ''bpf_bind'' (Named ''long'') [Ptr (Struct ''bpf_sock_addr''), Ptr (Struct ''sockaddr''),
         Named ''int''] 64,
     Helper ''bpf_xdp_adjust_tail'' (Named ''long'') [Ptr (Struct ''xdp_md''), Named ''int''] 65,
     Helper ''bpf_skb_get_xfrm_state'' (Named ''long'') [Ptr (Struct ''__sk_buff''), Named ''__u32'',
         Ptr (Struct ''bpf_xfrm_state''), Named ''__u32'', Named ''__u64''] 66,
     Helper ''bpf_get_stack'' (Named ''long'') [Ptr Void, Ptr Void, Named ''__u32'', Named ''__u64''] 67]"

definition helpers_68_72 :: "helper list" where
  "helpers_68_72 = [
     Helper ''bpf_skb_load_bytes_relative'' (Named ''long'') [Ptr (Const Void), Named ''__u32'',
         Ptr Void, Named ''__u32'', Named ''__u32''] 68,
     Helper ''bpf_fib_lookup'' (Named ''long'') [Ptr Void, Ptr (Struct ''bpf_fib_lookup''),
         Named ''int'', Named ''__u32''] 69,
     Helper ''bpf_sock_hash_update'' (Named ''long'') [Ptr (Struct ''bpf_sock_ops''), Ptr Void,
         Ptr Void, Named ''__u64''] 70,
     Helper ''bpf_msg_redirect_hash'' (Named ''long'') [Ptr (Struct ''sk_msg_md''), Ptr Void, Ptr Void,
         Named ''__u64''] 71,
     Helper ''bpf_sk_redirect_hash'' (Named ''long'') [Ptr (Struct ''__sk_buff''), Ptr Void, Ptr Void,
         Named ''__u64''] 72]"

definition helpers_73_77 :: "helper list" where
  "helpers_73_77 = [
     Helper ''bpf_lwt_push_encap'' (Named ''long'') [Ptr (Struct ''__sk_buff''), Named ''__u32'',
         Ptr Void, Named ''__u32''] 73,
     Helper ''bpf_lwt_seg6_store_bytes'' (Named ''long'') [Ptr (Struct ''__sk_buff''), Named ''__u32'',
         Ptr (Const Void), Named ''__u32''] 74,
     Helper ''bpf_lwt_seg6_adjust_srh'' (Named ''long'') [Ptr (Struct ''__sk_buff''), Named ''__u32'',
         Named ''__s32''] 75,
     Helper ''bpf_lwt_seg6_action'' (Named ''long'') [Ptr (Struct ''__sk_buff''), Named ''__u32'',
         Ptr Void, Named ''__u32''] 76,
     Helper ''bpf_rc_repeat'' (Named ''long'') [Ptr Void] 77]"

definition helpers_78_83 :: "helper list" where
  "helpers_78_83 = [
     Helper ''bpf_rc_keydown'' (Named ''long'') [Ptr Void, Named ''__u32'', Named ''__u64'',
         Named ''__u32''] 78,
     Helper ''bpf_skb_cgroup_id'' (Named ''__u64'') [Ptr (Struct ''__sk_buff'')] 79,
     Helper ''bpf_get_current_cgroup_id'' (Named ''__u64'') [] 80,
     Helper ''bpf_get_local_storage'' (Ptr Void) [Ptr Void, Named ''__u64''] 81,
     Helper ''bpf_sk_select_reuseport'' (Named ''long'') [Ptr (Struct ''sk_reuseport_md''), Ptr Void,
         Ptr Void, Named ''__u64''] 82,
     Helper ''bpf_skb_ancestor_cgroup_id'' (Named ''__u64'') [Ptr (Struct ''__sk_buff''), Named ''int''] 83]"

definition helpers_84_90 :: "helper list" where
  "helpers_84_90 = [
     Helper ''bpf_sk_lookup_tcp'' (Ptr (Struct ''bpf_sock'')) [Ptr Void,
         Ptr (Struct ''bpf_sock_tuple''), Named ''__u32'', Named ''__u64'', Named ''__u64''] 84,
     Helper ''bpf_sk_lookup_udp'' (Ptr (Struct ''bpf_sock'')) [Ptr Void,
         Ptr (Struct ''bpf_sock_tuple''), Named ''__u32'', Named ''__u64'', Named ''__u64''] 85,
     Helper ''bpf_sk_release'' (Named ''long'') [Ptr Void] 86,
     Helper ''bpf_map_push_elem'' (Named ''long'') [Ptr Void, Ptr (Const Void), Named ''__u64''] 87,
     Helper ''bpf_map_pop_elem'' (Named ''long'') [Ptr Void, Ptr Void] 88,
     Helper ''bpf_map_peek_elem'' (Named ''long'') [Ptr Void, Ptr Void] 89,
     Helper ''bpf_msg_push_data'' (Named ''long'') [Ptr (Struct ''sk_msg_md''), Named ''__u32'',
         Named ''__u32'', Named ''__u64''] 90]"

definition helpers_91_98 :: "helper list" where
  "helpers_91_98 = [
     Helper ''bpf_msg_pop_data'' (Named ''long'') [Ptr (Struct ''sk_msg_md''), Named ''__u32'',
         Named ''__u32'', Named ''__u64''] 91,
     Helper ''bpf_rc_pointer_rel'' (Named ''long'') [Ptr Void, Named ''__s32'', Named ''__s32''] 92,
     Helper ''bpf_spin_lock'' (Named ''long'') [Ptr (Struct ''bpf_spin_lock'')] 93,
     Helper ''bpf_spin_unlock'' (Named ''long'') [Ptr (Struct ''bpf_spin_lock'')] 94,
     Helper ''bpf_sk_fullsock'' (Ptr (Struct ''bpf_sock'')) [Ptr (Struct ''bpf_sock'')] 95,
     Helper ''bpf_tcp_sock'' (Ptr (Struct ''bpf_tcp_sock'')) [Ptr (Struct ''bpf_sock'')] 96,
     Helper ''bpf_skb_ecn_set_ce'' (Named ''long'') [Ptr (Struct ''__sk_buff'')] 97,
     Helper ''bpf_get_listener_sock'' (Ptr (Struct ''bpf_sock'')) [Ptr (Struct ''bpf_sock'')] 98]"

definition helpers_99_104 :: "helper list" where
  "helpers_99_104 = [
     Helper ''bpf_skc_lookup_tcp'' (Ptr (Struct ''bpf_sock'')) [Ptr Void,
         Ptr (Struct ''bpf_sock_tuple''), Named ''__u32'', Named ''__u64'', Named ''__u64''] 99,
     Helper ''bpf_tcp_check_syncookie'' (Named ''long'') [Ptr Void, Ptr Void, Named ''__u32'',
         Ptr (Struct ''tcphdr''), Named ''__u32''] 100,
     Helper ''bpf_sysctl_get_name'' (Named ''long'') [Ptr (Struct ''bpf_sysctl''), Ptr (Named ''char''),
         Named ''unsigned long'', Named ''__u64''] 101,
     Helper ''bpf_sysctl_get_current_value'' (Named ''long'') [Ptr (Struct ''bpf_sysctl''),
         Ptr (Named ''char''), Named ''unsigned long''] 102,
     Helper ''bpf_sysctl_get_new_value'' (Named ''long'') [Ptr (Struct ''bpf_sysctl''),
         Ptr (Named ''char''), Named ''unsigned long''] 103,
     Helper ''bpf_sysctl_set_new_value'' (Named ''long'') [Ptr (Struct ''bpf_sysctl''),
         Ptr (Const (Named ''char'')), Named ''unsigned long''] 104]"

definition helpers_105_109 :: "helper list" where
  "helpers_105_109 = [
     Helper ''bpf_strtol'' (Named ''long'') [Ptr (Const (Named ''char'')), Named ''unsigned long'',
         Named ''__u64'', Ptr (Named ''long'')] 105,
     Helper ''bpf_strtoul'' (Named ''long'') [Ptr (Const (Named ''char'')), Named ''unsigned long'',
         Named ''__u64'', Ptr (Named ''unsigned long'')] 106,
     Helper ''bpf_sk_storage_get'' (Ptr Void) [Ptr Void, Ptr Void, Ptr Void, Named ''__u64''] 107,
     Helper ''bpf_sk_storage_delete'' (Named ''long'') [Ptr Void, Ptr Void] 108,
     Helper ''bpf_send_signal'' (Named ''long'') [Named ''__u32''] 109]"

definition helpers_110_116 :: "helper list" where
  "helpers_110_116 = [
     Helper ''bpf_tcp_gen_syncookie'' (Named ''__s64'') [Ptr Void, Ptr Void, Named ''__u32'',
         Ptr (Struct ''tcphdr''), Named ''__u32''] 110,
     Helper ''bpf_skb_output'' (Named ''long'') [Ptr Void, Ptr Void, Named ''__u64'', Ptr Void,
         Named ''__u64''] 111,
     Helper ''bpf_probe_read_user'' (Named ''long'') [Ptr Void, Named ''__u32'', Ptr (Const Void)] 112,
     Helper ''bpf_probe_read_kernel'' (Named ''long'') [Ptr Void, Named ''__u32'', Ptr (Const Void)] 113,
     Helper ''bpf_probe_read_user_str'' (Named ''long'') [Ptr Void, Named ''__u32'', Ptr (Const Void)] 114,
     Helper ''bpf_probe_read_kernel_str'' (Named ''long'') [Ptr Void, Named ''__u32'', Ptr (Const Void)] 115,
     Helper ''bpf_tcp_send_ack'' (Named ''long'') [Ptr Void, Named ''__u32''] 116]"

definition helpers_117_123 :: "helper list" where
  "helpers_117_123 = [
     Helper ''bpf_send_signal_thread'' (Named ''long'') [Named ''__u32''] 117,
     Helper ''bpf_jiffies64'' (Named ''__u64'') [] 118,
     Helper ''bpf_read_branch_records'' (Named ''long'') [Ptr (Struct ''bpf_perf_event_data''),
         Ptr Void, Named ''__u32'', Named ''__u64''] 119,
     Helper ''bpf_get_ns_current_pid_tgid'' (Named ''long'') [Named ''__u64'', Named ''__u64'',
         Ptr (Struct ''bpf_pidns_info''), Named ''__u32''] 120,
     Helper ''bpf_xdp_output'' (Named ''long'') [Ptr Void, Ptr Void, Named ''__u64'', Ptr Void,
         Named ''__u64''] 121,
     Helper ''bpf_get_netns_cookie'' (Named ''__u64'') [Ptr Void] 122,
     Helper ''bpf_get_current_ancestor_cgroup_id'' (Named ''__u64'') [Named ''int''] 123]"

definition helpers_124_129 :: "helper list" where
  "helpers_124_129 = [
     Helper ''bpf_sk_assign'' (Named ''long'') [Ptr Void, Ptr Void, Named ''__u64''] 124,
     Helper ''bpf_ktime_get_boot_ns'' (Named ''__u64'') [] 125,
     Helper ''bpf_seq_printf'' (Named ''long'') [Ptr (Struct ''seq_file''),
         Ptr (Const (Named ''char'')), Named ''__u32'', Ptr (Const Void), Named ''__u32''] 126,
     Helper ''bpf_seq_write'' (Named ''long'') [Ptr (Struct ''seq_file''), Ptr (Const Void),
         Named ''__u32''] 127,
     Helper ''bpf_sk_cgroup_id'' (Named ''__u64'') [Ptr Void] 128,
     Helper ''bpf_sk_ancestor_cgroup_id'' (Named ''__u64'') [Ptr Void, Named ''int''] 129]"

definition helpers_130_137 :: "helper list" where
  "helpers_130_137 = [
     Helper ''bpf_ringbuf_output'' (Named ''long'') [Ptr Void, Ptr Void, Named ''__u64'', Named ''__u64''] 130,
     Helper ''bpf_ringbuf_reserve'' (Ptr Void) [Ptr Void, Named ''__u64'', Named ''__u64''] 131,
     Helper ''bpf_ringbuf_submit'' Void [Ptr Void, Named ''__u64''] 132,
     Helper ''bpf_ringbuf_discard'' Void [Ptr Void, Named ''__u64''] 133,
     Helper ''bpf_ringbuf_query'' (Named ''__u64'') [Ptr Void, Named ''__u64''] 134,
     Helper ''bpf_csum_level'' (Named ''long'') [Ptr (Struct ''__sk_buff''), Named ''__u64''] 135,
     Helper ''bpf_skc_to_tcp6_sock'' (Ptr (Struct ''tcp6_sock'')) [Ptr Void] 136,
     Helper ''bpf_skc_to_tcp_sock'' (Ptr (Struct ''tcp_sock'')) [Ptr Void] 137]"

definition helpers_138_142 :: "helper list" where
  "helpers_138_142 = [
     Helper ''bpf_skc_to_tcp_timewait_sock'' (Ptr (Struct ''tcp_timewait_sock'')) [Ptr Void] 138,
     Helper ''bpf_skc_to_tcp_request_sock'' (Ptr (Struct ''tcp_request_sock'')) [Ptr Void] 139,
     Helper ''bpf_skc_to_udp6_sock'' (Ptr (Struct ''udp6_sock'')) [Ptr Void] 140,
     Helper ''bpf_get_task_stack'' (Named ''long'') [Ptr (Struct ''task_struct''), Ptr Void,
         Named ''__u32'', Named ''__u64''] 141,
     Helper ''bpf_load_hdr_opt'' (Named ''long'') [Ptr (Struct ''bpf_sock_ops''), Ptr Void,
         Named ''__u32'', Named ''__u64''] 142]"

definition helpers_143_148 :: "helper list" where
  "helpers_143_148 = [
     Helper ''bpf_store_hdr_opt'' (Named ''long'') [Ptr (Struct ''bpf_sock_ops''), Ptr (Const Void),
         Named ''__u32'', Named ''__u64''] 143,
     Helper ''bpf_reserve_hdr_opt'' (Named ''long'') [Ptr (Struct ''bpf_sock_ops''), Named ''__u32'',
         Named ''__u64''] 144,
     Helper ''bpf_inode_storage_get'' (Ptr Void) [Ptr Void, Ptr Void, Ptr Void, Named ''__u64''] 145,
     Helper ''bpf_inode_storage_delete'' (Named ''int'') [Ptr Void, Ptr Void] 146,
     Helper ''bpf_d_path'' (Named ''long'') [Ptr (Struct ''path''), Ptr (Named ''char''), Named ''__u32''] 147,
     Helper ''bpf_copy_from_user'' (Named ''long'') [Ptr Void, Named ''__u32'', Ptr (Const Void)] 148]"

definition helpers_149_155 :: "helper list" where
  "helpers_149_155 = [
     Helper ''bpf_snprintf_btf'' (Named ''long'') [Ptr (Named ''char''), Named ''__u32'',
         Ptr (Struct ''btf_ptr''), Named ''__u32'', Named ''__u64''] 149,
     Helper ''bpf_seq_printf_btf'' (Named ''long'') [Ptr (Struct ''seq_file''),
         Ptr (Struct ''btf_ptr''), Named ''__u32'', Named ''__u64''] 150,
     Helper ''bpf_skb_cgroup_classid'' (Named ''__u64'') [Ptr (Struct ''__sk_buff'')] 151,
     Helper ''bpf_redirect_neigh'' (Named ''long'') [Named ''__u32'', Ptr (Struct ''bpf_redir_neigh''),
         Named ''int'', Named ''__u64''] 152,
     Helper ''bpf_per_cpu_ptr'' (Ptr Void) [Ptr (Const Void), Named ''__u32''] 153,
     Helper ''bpf_this_cpu_ptr'' (Ptr Void) [Ptr (Const Void)] 154,
     Helper ''bpf_redirect_peer'' (Named ''long'') [Named ''__u32'', Named ''__u64''] 155]"

definition helpers_156_162 :: "helper list" where
  "helpers_156_162 = [
     Helper ''bpf_task_storage_get'' (Ptr Void) [Ptr Void, Ptr (Struct ''task_struct''), Ptr Void,
         Named ''__u64''] 156,
     Helper ''bpf_task_storage_delete'' (Named ''long'') [Ptr Void, Ptr (Struct ''task_struct'')] 157,
     Helper ''bpf_get_current_task_btf'' (Ptr (Struct ''task_struct'')) [] 158,
     Helper ''bpf_bprm_opts_set'' (Named ''long'') [Ptr (Struct ''linux_binprm''), Named ''__u64''] 159,
     Helper ''bpf_ktime_get_coarse_ns'' (Named ''__u64'') [] 160,
     Helper ''bpf_ima_inode_hash'' (Named ''long'') [Ptr (Struct ''inode''), Ptr Void, Named ''__u32''] 161,
     Helper ''bpf_sock_from_file'' (Ptr (Struct ''socket'')) [Ptr (Struct ''file'')] 162]"

definition helpers_163_166 :: "helper list" where
  "helpers_163_166 = [
     Helper ''bpf_check_mtu'' (Named ''long'') [Ptr Void, Named ''__u32'', Ptr (Named ''__u32''),
         Named ''__s32'', Named ''__u64''] 163,
     Helper ''bpf_for_each_map_elem'' (Named ''long'') [Ptr Void, Ptr Void, Ptr Void, Named ''__u64''] 164,
     Helper ''bpf_snprintf'' (Named ''long'') [Ptr (Named ''char''), Named ''__u32'',
         Ptr (Const (Named ''char'')), Ptr (Named ''__u64''), Named ''__u32''] 165,
     Helper ''bpf_sys_bpf'' (Named ''long'') [Named ''__u32'', Ptr Void, Named ''__u32''] 166]"

definition helpers_167_175 :: "helper list" where
  "helpers_167_175 = [
     Helper ''bpf_btf_find_by_name_kind'' (Named ''long'') [Ptr (Named ''char''), Named ''int'',
         Named ''__u32'', Named ''int''] 167,
     Helper ''bpf_sys_close'' (Named ''long'') [Named ''__u32''] 168,
     Helper ''bpf_timer_init'' (Named ''long'') [Ptr (Struct ''bpf_timer''), Ptr Void, Named ''__u64''] 169,
     Helper ''bpf_timer_set_callback'' (Named ''long'') [Ptr (Struct ''bpf_timer''), Ptr Void] 170,
     Helper ''bpf_timer_start'' (Named ''long'') [Ptr (Struct ''bpf_timer''), Named ''__u64'',
         Named ''__u64''] 171,
     Helper ''bpf_timer_cancel'' (Named ''long'') [Ptr (Struct ''bpf_timer'')] 172,
     Helper ''bpf_get_func_ip'' (Named ''__u64'') [Ptr Void] 173,
     Helper ''bpf_get_attach_cookie'' (Named ''__u64'') [Ptr Void] 174,
     Helper ''bpf_task_pt_regs'' (Named ''long'') [Ptr (Struct ''task_struct'')] 175]"

definition helpers_176_180 :: "helper list" where
  "helpers_176_180 = [
     Helper ''bpf_get_branch_snapshot'' (Named ''long'') [Ptr Void, Named ''__u32'', Named ''__u64''] 176,
     Helper ''bpf_trace_vprintk'' (Named ''long'') [Ptr (Const (Named ''char'')), Named ''__u32'',
         Ptr (Const Void), Named ''__u32''] 177,
     Helper ''bpf_skc_to_unix_sock'' (Ptr (Struct ''unix_sock'')) [Ptr Void] 178,
     Helper ''bpf_kallsyms_lookup_name'' (Named ''long'') [Ptr (Const (Named ''char'')), Named ''int'',
         Named ''int'', Ptr (Named ''__u64'')] 179,
     Helper ''bpf_find_vma'' (Named ''long'') [Ptr (Struct ''task_struct''), Named ''__u64'', Ptr Void,
         Ptr Void, Named ''__u64''] 180]"

definition bpf_helper_defs :: "helper list" where
  "bpf_helper_defs =
     helpers_1_7 @ helpers_8_12 @ helpers_13_19 @ helpers_20_22 @ helpers_23_26 @
     helpers_27_31 @ helpers_32_38 @ helpers_39_45 @ helpers_46_50 @ helpers_51_54 @
     helpers_55_58 @ helpers_59_62 @ helpers_63_67 @ helpers_68_72 @ helpers_73_77 @
     helpers_78_83 @ helpers_84_90 @ helpers_91_98 @ helpers_99_104 @ helpers_105_109 @
     helpers_110_116 @ helpers_117_123 @ helpers_124_129 @ helpers_130_137 @ helpers_138_142 @
     helpers_143_148 @ helpers_149_155 @ helpers_156_162 @ helpers_163_166 @ helpers_167_175 @
     helpers_176_180"

subsection \<open>vmlinux.h: enum bpf_func_id\<close>

definition bpf_func_id_0_31 :: "(string \<times> nat) list" where
  "bpf_func_id_0_31 = [
     (''BPF_FUNC_unspec'', 0), (''BPF_FUNC_map_lookup_elem'', 1),
     (''BPF_FUNC_map_update_elem'', 2), (''BPF_FUNC_map_delete_elem'', 3),
     (''BPF_FUNC_probe_read'', 4), (''BPF_FUNC_ktime_get_ns'', 5), (''BPF_FUNC_trace_printk'', 6),
     (''BPF_FUNC_get_prandom_u32'', 7), (''BPF_FUNC_get_smp_processor_id'', 8),
     (''BPF_FUNC_skb_store_bytes'', 9), (''BPF_FUNC_l3_csum_replace'', 10),
     (''BPF_FUNC_l4_csum_replace'', 11), (''BPF_FUNC_tail_call'', 12),
     (''BPF_FUNC_clone_redirect'', 13), (''BPF_FUNC_get_current_pid_tgid'', 14),
     (''BPF_FUNC_get_current_uid_gid'', 15), (''BPF_FUNC_get_current_comm'', 16),
     (''BPF_FUNC_get_cgroup_classid'', 17), (''BPF_FUNC_skb_vlan_push'', 18),
     (''BPF_FUNC_skb_vlan_pop'', 19), (''BPF_FUNC_skb_get_tunnel_key'', 20),
     (''BPF_FUNC_skb_set_tunnel_key'', 21), (''BPF_FUNC_perf_event_read'', 22),
     (''BPF_FUNC_redirect'', 23), (''BPF_FUNC_get_route_realm'', 24),
     (''BPF_FUNC_perf_event_output'', 25), (''BPF_FUNC_skb_load_bytes'', 26),
     (''BPF_FUNC_get_stackid'', 27), (''BPF_FUNC_csum_diff'', 28),
     (''BPF_FUNC_skb_get_tunnel_opt'', 29), (''BPF_FUNC_skb_set_tunnel_opt'', 30),
     (''BPF_FUNC_skb_change_proto'', 31)]"

definition bpf_func_id_32_62 :: "(string \<times> nat) list" where
  "bpf_func_id_32_62 = [
     (''BPF_FUNC_skb_change_type'', 32), (''BPF_FUNC_skb_under_cgroup'', 33),
     (''BPF_FUNC_get_hash_recalc'', 34), (''BPF_FUNC_get_current_task'', 35),
     (''BPF_FUNC_probe_write_user'', 36), (''BPF_FUNC_current_task_under_cgroup'', 37),
     (''BPF_FUNC_skb_change_tail'', 38), (''BPF_FUNC_skb_pull_data'', 39),
     (''BPF_FUNC_csum_update'', 40), (''BPF_FUNC_set_hash_invalid'', 41),
     (''BPF_FUNC_get_numa_node_id'', 42), (''BPF_FUNC_skb_change_head'', 43),
     (''BPF_FUNC_xdp_adjust_head'', 44), (''BPF_FUNC_probe_read_str'', 45),
     (''BPF_FUNC_get_socket_cookie'', 46), (''BPF_FUNC_get_socket_uid'', 47),
     (''BPF_FUNC_set_hash'', 48), (''BPF_FUNC_setsockopt'', 49),
     (''BPF_FUNC_skb_adjust_room'', 50), (''BPF_FUNC_redirect_map'', 51),
     (''BPF_FUNC_sk_redirect_map'', 52), (''BPF_FUNC_sock_map_update'', 53),
     (''BPF_FUNC_xdp_adjust_meta'', 54), (''BPF_FUNC_perf_event_read_value'', 55),
     (''BPF_FUNC_perf_prog_read_value'', 56), (''BPF_FUNC_getsockopt'', 57),
     (''BPF_FUNC_override_return'', 58), (''BPF_FUNC_sock_ops_cb_flags_set'', 59),
     (''BPF_FUNC_msg_redirect_map'', 60), (''BPF_FUNC_msg_apply_bytes'', 61),
     (''BPF_FUNC_msg_cork_bytes'', 62)]"

definition bpf_func_id_63_90 :: "(string \<times> nat) list" where
  "bpf_func_id_63_90 = [
     (''BPF_FUNC_msg_pull_data'', 63), (''BPF_FUNC_bind'', 64), (''BPF_FUNC_xdp_adjust_tail'', 65),
     (''BPF_FUNC_skb_get_xfrm_state'', 66), (''BPF_FUNC_get_stack'', 67),
     (''BPF_FUNC_skb_load_bytes_relative'', 68), (''BPF_FUNC_fib_lookup'', 69),
     (''BPF_FUNC_sock_hash_update'', 70), (''BPF_FUNC_msg_redirect_hash'', 71),
     (''BPF_FUNC_sk_redirect_hash'', 72), (''BPF_FUNC_lwt_push_encap'', 73),
     (''BPF_FUNC_lwt_seg6_store_bytes'', 74), (''BPF_FUNC_lwt_seg6_adjust_srh'', 75),
     (''BPF_FUNC_lwt_seg6_action'', 76), (''BPF_FUNC_rc_repeat'', 77),
     (''BPF_FUNC_rc_keydown'', 78), (''BPF_FUNC_skb_cgroup_id'', 79),
     (''BPF_FUNC_get_current_cgroup_id'', 80), (''BPF_FUNC_get_local_storage'', 81),
     (''BPF_FUNC_sk_select_reuseport'', 82), (''BPF_FUNC_skb_ancestor_cgroup_id'', 83),
     (''BPF_FUNC_sk_lookup_tcp'', 84), (''BPF_FUNC_sk_lookup_udp'', 85),
     (''BPF_FUNC_sk_release'', 86), (''BPF_FUNC_map_push_elem'', 87),
     (''BPF_FUNC_map_pop_elem'', 88), (''BPF_FUNC_map_peek_elem'', 89),
     (''BPF_FUNC_msg_push_data'', 90)]"

definition bpf_func_id_91_116 :: "(string \<times> nat) list" where
  "bpf_func_id_91_116 = [
     (''BPF_FUNC_msg_pop_data'', 91), (''BPF_FUNC_rc_pointer_rel'', 92),
     (''BPF_FUNC_spin_lock'', 93), (''BPF_FUNC_spin_unlock'', 94), (''BPF_FUNC_sk_fullsock'', 95),
     (''BPF_FUNC_tcp_sock'', 96), (''BPF_FUNC_skb_ecn_set_ce'', 97),
     (''BPF_FUNC_get_listener_sock'', 98), (''BPF_FUNC_skc_lookup_tcp'', 99),
     (''BPF_FUNC_tcp_check_syncookie'', 100), (''BPF_FUNC_sysctl_get_name'', 101),
     (''BPF_FUNC_sysctl_get_current_value'', 102), (''BPF_FUNC_sysctl_get_new_value'', 103),
     (''BPF_FUNC_sysctl_set_new_value'', 104), (''BPF_FUNC_strtol'', 105),
     (''BPF_FUNC_strtoul'', 106), (''BPF_FUNC_sk_storage_get'', 107),
     (''BPF_FUNC_sk_storage_delete'', 108), (''BPF_FUNC_send_signal'', 109),
     (''BPF_FUNC_tcp_gen_syncookie'', 110), (''BPF_FUNC_skb_output'', 111),
     (''BPF_FUNC_probe_read_user'', 112), (''BPF_FUNC_probe_read_kernel'', 113),
     (''BPF_FUNC_probe_read_user_str'', 114), (''BPF_FUNC_probe_read_kernel_str'', 115),
     (''BPF_FUNC_tcp_send_ack'', 116)]"

definition bpf_func_id_117_142 :: "(string \<times> nat) list" where
  "bpf_func_id_117_142 = [
     (''BPF_FUNC_send_signal_thread'', 117), (''BPF_FUNC_jiffies64'', 118),
     (''BPF_FUNC_read_branch_records'', 119), (''BPF_FUNC_get_ns_current_pid_tgid'', 120),
     (''BPF_FUNC_xdp_output'', 121), (''BPF_FUNC_get_netns_cookie'', 122),
     (''BPF_FUNC_get_current_ancestor_cgroup_id'', 123), (''BPF_FUNC_sk_assign'', 124),
     (''BPF_FUNC_ktime_get_boot_ns'', 125), (''BPF_FUNC_seq_printf'', 126),
     (''BPF_FUNC_seq_write'', 127), (''BPF_FUNC_sk_cgroup_id'', 128),
     (''BPF_FUNC_sk_ancestor_cgroup_id'', 129), (''BPF_FUNC_ringbuf_output'', 130),
     (''BPF_FUNC_ringbuf_reserve'', 131), (''BPF_FUNC_ringbuf_submit'', 132),
     (''BPF_FUNC_ringbuf_discard'', 133), (''BPF_FUNC_ringbuf_query'', 134),
     (''BPF_FUNC_csum_level'', 135), (''BPF_FUNC_skc_to_tcp6_sock'', 136),
     (''BPF_FUNC_skc_to_tcp_sock'', 137), (''BPF_FUNC_skc_to_tcp_timewait_sock'', 138),
     (''BPF_FUNC_skc_to_tcp_request_sock'', 139), (''BPF_FUNC_skc_to_udp6_sock'', 140),
     (''BPF_FUNC_get_task_stack'', 141), (''BPF_FUNC_load_hdr_opt'', 142)]"

definition bpf_func_id_143_176 :: "(string \<times> nat) list" where
  "bpf_func_id_143_176 = [
     (''BPF_FUNC_store_hdr_opt'', 143), (''BPF_FUNC_reserve_hdr_opt'', 144),
     (''BPF_FUNC_inode_storage_get'', 145), (''BPF_FUNC_inode_storage_delete'', 146),
     (''BPF_FUNC_d_path'', 147), (''BPF_FUNC_copy_from_user'', 148),
     (''BPF_FUNC_snprintf_btf'', 149), (''BPF_FUNC_seq_printf_btf'', 150),
     (''BPF_FUNC_skb_cgroup_classid'', 151), (''BPF_FUNC_redirect_neigh'', 152),
     (''BPF_FUNC_per_cpu_ptr'', 153), (''BPF_FUNC_this_cpu_ptr'', 154),
     (''BPF_FUNC_redirect_peer'', 155), (''BPF_FUNC_task_storage_get'', 156),
     (''BPF_FUNC_task_storage_delete'', 157), (''BPF_FUNC_get_current_task_btf'', 158),
     (''BPF_FUNC_bprm_opts_set'', 159), (''BPF_FUNC_ktime_get_coarse_ns'', 160),
     (''BPF_FUNC_ima_inode_hash'', 161), (''BPF_FUNC_sock_from_file'', 162),
     (''BPF_FUNC_check_mtu'', 163), (''BPF_FUNC_for_each_map_elem'', 164),
     (''BPF_FUNC_snprintf'', 165), (''BPF_FUNC_sys_bpf'', 166),
     (''BPF_FUNC_btf_find_by_name_kind'', 167), (''BPF_FUNC_sys_close'', 168),
     (''BPF_FUNC_timer_init'', 169), (''BPF_FUNC_timer_set_callback'', 170),
     (''BPF_FUNC_timer_start'', 171), (''BPF_FUNC_timer_cancel'', 172),
     (''BPF_FUNC_get_func_ip'', 173), (''BPF_FUNC_get_attach_cookie'', 174),
     (''BPF_FUNC_task_pt_regs'', 175), (''__BPF_FUNC_MAX_ID'', 176)]"

definition bpf_func_id :: "(string \<times> nat) list" where
  "bpf_func_id =
     bpf_func_id_0_31 @ bpf_func_id_32_62 @ bpf_func_id_63_90 @ bpf_func_id_91_116 @
     bpf_func_id_117_142 @ bpf_func_id_143_176"

subsection \<open>Calls\<close>

text \<open>The helper a name denotes, and the number of argument registers a call of it uses.\<close>

definition find_helper :: "string \<Rightarrow> helper option" where
  "find_helper f = find (\<lambda>h. h_name h = f) bpf_helper_defs"

definition variadic :: "helper \<Rightarrow> bool" where
  "variadic h \<longleftrightarrow> Variadic \<in> set (h_args h)"

definition fixed_args :: "helper \<Rightarrow> nat" where
  "fixed_args h = length (filter (\<lambda>t. t \<noteq> Variadic) (h_args h))"

text \<open>
  Arguments and result travel in the 64-bit registers r1 to r5 and r0: every fixed argument has a
  size of at most 8 bytes, there are at most five of them, and the result is void or of at most
  8 bytes.
\<close>

definition fits_register :: "cty \<Rightarrow> bool" where
  "fits_register t = (case cty_size t of None \<Rightarrow> False | Some n \<Rightarrow> n \<le> 8)"

definition passes_in_registers :: "helper \<Rightarrow> bool" where
  "passes_in_registers h \<longleftrightarrow>
     fixed_args h \<le> 5 \<and>
     list_all (\<lambda>t. t = Variadic \<or> fits_register t) (h_args h) \<and>
     (h_ret h = Void \<or> fits_register (h_ret h))"

text \<open>A struct that a prototype mentions is declared before.\<close>

definition declared :: "string \<Rightarrow> bool" where
  "declared s \<longleftrightarrow> s \<in> set forward_structs"

definition structs_declared :: "helper \<Rightarrow> bool" where
  "structs_declared h \<longleftrightarrow> list_all (\<lambda>t. list_all declared (structs_of t)) (h_ret h # h_args h)"

text \<open>The calls of \<^verbatim>\<open>ai_interceptor.c\<close> with the number of arguments each passes, in source order.\<close>

definition tc_dns_observer_calls :: "(string \<times> nat) list" where
  "tc_dns_observer_calls = [
     (''bpf_skb_load_bytes'', 4), (''bpf_skb_load_bytes'', 4), (''bpf_skb_load_bytes'', 4),
     (''bpf_skb_load_bytes'', 4), (''bpf_ringbuf_reserve'', 3), (''bpf_skb_load_bytes'', 4),
     (''bpf_ringbuf_discard'', 2), (''bpf_ringbuf_discard'', 2), (''bpf_ringbuf_submit'', 2)]"

definition cgroup_connect4_calls :: "(string \<times> nat) list" where
  "cgroup_connect4_calls = [
     (''bpf_map_lookup_elem'', 2), (''bpf_map_lookup_elem'', 2), (''bpf_ringbuf_reserve'', 3),
     (''bpf_get_current_pid_tgid'', 0), (''bpf_ktime_get_ns'', 0), (''bpf_probe_read_kernel'', 3),
     (''bpf_get_current_comm'', 2), (''bpf_ringbuf_submit'', 2)]"

text \<open>
  A call compiles against the header when its helper is declared with that many parameters, and
  loads on the kernel when the kernel's enumeration gives the same name the same number.
\<close>

definition BPF_FUNC :: "string \<Rightarrow> string" where
  "BPF_FUNC f = ''BPF_FUNC_'' @ drop 4 f"

definition kernel_func :: "nat \<Rightarrow> string option" where
  "kernel_func n = map_option fst (find (\<lambda>e. snd e = n) bpf_func_id)"

definition call_ok :: "string \<times> nat \<Rightarrow> bool" where
  "call_ok = (\<lambda>(f, n). case find_helper f of
     None \<Rightarrow> False
   | Some h \<Rightarrow> length (h_args h) = n \<and> \<not> variadic h \<and>
       kernel_func (h_id h) = Some (BPF_FUNC f))"

subsection \<open>Evaluation of the tables\<close>

lemmas helper_groups =
  helpers_1_7_def helpers_8_12_def helpers_13_19_def helpers_20_22_def helpers_23_26_def
  helpers_27_31_def helpers_32_38_def helpers_39_45_def helpers_46_50_def helpers_51_54_def
  helpers_55_58_def helpers_59_62_def helpers_63_67_def helpers_68_72_def helpers_73_77_def
  helpers_78_83_def helpers_84_90_def helpers_91_98_def helpers_99_104_def helpers_105_109_def
  helpers_110_116_def helpers_117_123_def helpers_124_129_def helpers_130_137_def
  helpers_138_142_def helpers_143_148_def helpers_149_155_def helpers_156_162_def
  helpers_163_166_def helpers_167_175_def helpers_176_180_def

lemmas func_ids =
  bpf_func_id_0_31_def bpf_func_id_32_62_def bpf_func_id_63_90_def bpf_func_id_91_116_def
  bpf_func_id_117_142_def bpf_func_id_143_176_def

text \<open>The tables are evaluated group by group.\<close>

lemma find_append: "find P (xs @ ys) = (case find P xs of None \<Rightarrow> find P ys | Some x \<Rightarrow> Some x)"
  by (induction xs) auto

lemmas find_groups = helper_groups [THEN arg_cong [of _ _ "find P" for P]]
  func_ids [THEN arg_cong [of _ _ "find P" for P]]

lemmas filter_groups = helper_groups [THEN arg_cong [of _ _ "filter P" for P]]

lemmas list_all_groups = helper_groups [THEN arg_cong [of _ _ "list_all P" for P]]

lemma named_sizes [simp]:
  "named_size ''int'' = Some 4" "named_size ''long'' = Some 8" "named_size ''unsigned long'' = Some 8"
  "named_size ''__u16'' = Some 2" "named_size ''__u32'' = Some 4" "named_size ''__u64'' = Some 8"
  "named_size ''__s32'' = Some 4" "named_size ''__s64'' = Some 8"
  "named_size ''__be16'' = Some 2" "named_size ''__wsum'' = Some 4"
  by (simp_all add: named_size_def typedefs_def base_size_def)

lemma declared_structs [simp]:
  "declared ''__sk_buff''" "declared ''bpf_tunnel_key''" "declared ''xdp_md''"
  "declared ''bpf_sock_ops''" "declared ''bpf_perf_event_value''"
  "declared ''bpf_perf_event_data''" "declared ''pt_regs''" "declared ''sk_msg_md''"
  "declared ''bpf_sock_addr''" "declared ''sockaddr''" "declared ''bpf_xfrm_state''"
  "declared ''bpf_fib_lookup''" "declared ''sk_reuseport_md''" "declared ''bpf_sock''"
  "declared ''bpf_sock_tuple''" "declared ''bpf_spin_lock''" "declared ''bpf_tcp_sock''"
  "declared ''tcphdr''" "declared ''bpf_sysctl''" "declared ''bpf_pidns_info''"
  "declared ''seq_file''" "declared ''tcp6_sock''" "declared ''tcp_sock''"
  "declared ''tcp_timewait_sock''" "declared ''tcp_request_sock''" "declared ''udp6_sock''"
  "declared ''task_struct''" "declared ''path''" "declared ''btf_ptr''"
  "declared ''bpf_redir_neigh''" "declared ''linux_binprm''" "declared ''inode''"
  "declared ''socket''" "declared ''file''" "declared ''bpf_timer''" "declared ''unix_sock''"
  by (simp_all add: declared_def forward_structs_def)

lemma helpers_split:
  "take 175 bpf_helper_defs =
     helpers_1_7 @ helpers_8_12 @ helpers_13_19 @ helpers_20_22 @ helpers_23_26 @ helpers_27_31 @
     helpers_32_38 @ helpers_39_45 @ helpers_46_50 @ helpers_51_54 @ helpers_55_58 @
     helpers_59_62 @ helpers_63_67 @ helpers_68_72 @ helpers_73_77 @ helpers_78_83 @
     helpers_84_90 @ helpers_91_98 @ helpers_99_104 @ helpers_105_109 @ helpers_110_116 @
     helpers_117_123 @ helpers_124_129 @ helpers_130_137 @ helpers_138_142 @ helpers_143_148 @
     helpers_149_155 @ helpers_156_162 @ helpers_163_166 @ helpers_167_175"
  by (simp add: bpf_helper_defs_def helper_groups)

lemma func_ids_entries:
  "map (\<lambda>h. (BPF_FUNC (h_name h), h_id h))
    (helpers_1_7 @ helpers_8_12 @ helpers_13_19 @ helpers_20_22 @ helpers_23_26 @ helpers_27_31) =
     tl bpf_func_id_0_31"
  "map (\<lambda>h. (BPF_FUNC (h_name h), h_id h))
    (helpers_32_38 @ helpers_39_45 @ helpers_46_50 @ helpers_51_54 @ helpers_55_58 @ helpers_59_62) =
     bpf_func_id_32_62"
  "map (\<lambda>h. (BPF_FUNC (h_name h), h_id h))
    (helpers_63_67 @ helpers_68_72 @ helpers_73_77 @ helpers_78_83 @ helpers_84_90) =
     bpf_func_id_63_90"
  "map (\<lambda>h. (BPF_FUNC (h_name h), h_id h))
    (helpers_91_98 @ helpers_99_104 @ helpers_105_109 @ helpers_110_116) =
     bpf_func_id_91_116"
  "map (\<lambda>h. (BPF_FUNC (h_name h), h_id h))
    (helpers_117_123 @ helpers_124_129 @ helpers_130_137 @ helpers_138_142) =
     bpf_func_id_117_142"
  "map (\<lambda>h. (BPF_FUNC (h_name h), h_id h))
    (helpers_143_148 @ helpers_149_155 @ helpers_156_162 @ helpers_163_166 @ helpers_167_175) =
     butlast bpf_func_id_143_176"
  by (simp_all add: helper_groups func_ids BPF_FUNC_def)

lemma find_helpers:
  "find_helper ''bpf_skb_load_bytes'' =
     Some (Helper ''bpf_skb_load_bytes'' (Named ''long'') [Ptr (Const Void), Named ''__u32'', Ptr Void, Named ''__u32''] 26)"
  "find_helper ''bpf_ringbuf_reserve'' =
     Some (Helper ''bpf_ringbuf_reserve'' (Ptr Void) [Ptr Void, Named ''__u64'', Named ''__u64''] 131)"
  "find_helper ''bpf_ringbuf_discard'' =
     Some (Helper ''bpf_ringbuf_discard'' Void [Ptr Void, Named ''__u64''] 133)"
  "find_helper ''bpf_ringbuf_submit'' =
     Some (Helper ''bpf_ringbuf_submit'' Void [Ptr Void, Named ''__u64''] 132)"
  "find_helper ''bpf_map_lookup_elem'' =
     Some (Helper ''bpf_map_lookup_elem'' (Ptr Void) [Ptr Void, Ptr (Const Void)] 1)"
  "find_helper ''bpf_get_current_pid_tgid'' =
     Some (Helper ''bpf_get_current_pid_tgid'' (Named ''__u64'') [] 14)"
  "find_helper ''bpf_ktime_get_ns'' =
     Some (Helper ''bpf_ktime_get_ns'' (Named ''__u64'') [] 5)"
  "find_helper ''bpf_probe_read_kernel'' =
     Some (Helper ''bpf_probe_read_kernel'' (Named ''long'') [Ptr Void, Named ''__u32'', Ptr (Const Void)] 113)"
  "find_helper ''bpf_get_current_comm'' =
     Some (Helper ''bpf_get_current_comm'' (Named ''long'') [Ptr Void, Named ''__u32''] 16)"
  by (simp_all add: find_helper_def bpf_helper_defs_def find_append find_groups)

lemma kernel_funcs:
  "kernel_func 26 = Some (BPF_FUNC ''bpf_skb_load_bytes'')"
  "kernel_func 131 = Some (BPF_FUNC ''bpf_ringbuf_reserve'')"
  "kernel_func 133 = Some (BPF_FUNC ''bpf_ringbuf_discard'')"
  "kernel_func 132 = Some (BPF_FUNC ''bpf_ringbuf_submit'')"
  "kernel_func (Suc 0) = Some (BPF_FUNC ''bpf_map_lookup_elem'')"
  "kernel_func 14 = Some (BPF_FUNC ''bpf_get_current_pid_tgid'')"
  "kernel_func 5 = Some (BPF_FUNC ''bpf_ktime_get_ns'')"
  "kernel_func 113 = Some (BPF_FUNC ''bpf_probe_read_kernel'')"
  "kernel_func 16 = Some (BPF_FUNC ''bpf_get_current_comm'')"
  by (simp_all add: kernel_func_def BPF_FUNC_def bpf_func_id_def find_append find_groups)

subsection \<open>Properties of the tables\<close>



text \<open>
  Every helper call of the two programs passes the declared number of arguments and is known to
  the kernel under the number the header gives it.
\<close>

lemma program_calls_resolve:
  "list_all call_ok (tc_dns_observer_calls @ cgroup_connect4_calls) \<and>
   map (\<lambda>c. map_option h_id (find_helper (fst c))) (remdups (tc_dns_observer_calls @ cgroup_connect4_calls)) =
     map Some [26, 133, 1, 131, 14, 5, 113, 16, 132]"
  by (simp add: call_ok_def find_helpers kernel_funcs variadic_def
      tc_dns_observer_calls_def cgroup_connect4_calls_def)

end
