(* ===== verification/Bpf_Macros.thy ===== *)
theory Bpf_Macros
  imports Helper_Table
begin

text \<open>
  The macros and the inline function of \<^verbatim>\<open>src/bpf/include/bpf/bpf_helpers.h\<close> that compute something:
  counting and packing of variadic arguments, the printing macros, \<^verbatim>\<open>KERNEL_VERSION\<close>,
  \<^verbatim>\<open>container_of\<close> and the static tail call. A macro is a function from its arguments to the code it
  expands to; \<open>None\<close> is an expansion the compiler rejects. A helper call is recorded with its
  arguments.
\<close>

unbundle bit_operations_syntax

subsection \<open>Versions and containers\<close>

definition KERNEL_VERSION :: "nat \<Rightarrow> nat \<Rightarrow> nat \<Rightarrow> nat" where
  "KERNEL_VERSION a b c = push_bit 16 a + push_bit 8 b + (if 255 < c then 255 else c)"

definition container_of :: "u64 \<Rightarrow> ctype \<Rightarrow> string \<Rightarrow> u64" where
  "container_of ptr type member = ptr - word_of_nat (offsetof type member)"

subsection \<open>Maps and kernel configuration\<close>

definition bpf_map_def :: ctype where
  "bpf_map_def = CStruct
     [Fld ''type'' (CInt 4), Fld ''key_size'' (CInt 4), Fld ''value_size'' (CInt 4),
      Fld ''max_entries'' (CInt 4), Fld ''map_flags'' (CInt 4)]"

datatype libbpf_pin_type = LIBBPF_PIN_NONE | LIBBPF_PIN_BY_NAME

datatype libbpf_tristate = TRI_NO | TRI_YES | TRI_MODULE

subsection \<open>The static tail call\<close>

text \<open>
  The registers that the inline assembly sets and the number in its call instruction; a slot that
  is not a compile-time constant reaches \<^verbatim>\<open>__bpf_unreachable\<close>, which does not compile.
\<close>

record asm_call =
  asm_r1 :: u64
  asm_r2 :: u64
  asm_r3 :: u64
  asm_call :: nat

definition bpf_tail_call_static :: "bool \<Rightarrow> u64 \<Rightarrow> u64 \<Rightarrow> u32 \<Rightarrow> asm_call option" where
  "bpf_tail_call_static slot_is_constant ctx map' slot =
     (if \<not> slot_is_constant then None
      else Some \<lparr>asm_r1 = ctx, asm_r2 = map', asm_r3 = ucast slot, asm_call = 12\<rparr>)"

subsection \<open>Variadic arguments\<close>

datatype 'a tok = Placeholder | Arg 'a | Lit nat

text \<open>\<^verbatim>\<open>___bpf_nth\<close> expands to its fourteenth argument.\<close>

definition bpf_nth :: "'t list \<Rightarrow> 't option" where
  "bpf_nth args = (if 14 \<le> length args then Some (args ! 13) else None)"

definition bpf_narg :: "'a list \<Rightarrow> 'a tok option" where
  "bpf_narg args = bpf_nth (Placeholder # map Arg args @ map Lit [12, 11, 10, 9, 8, 7, 6, 5, 4, 3, 2, 1, 0])"

text \<open>The family \<^verbatim>\<open>___bpf_fill0\<close> to \<^verbatim>\<open>___bpf_fill12\<close>: \<open>bpf_fillN n arr p args\<close>.\<close>

fun bpf_fillN :: "nat \<Rightarrow> u64 list \<Rightarrow> nat \<Rightarrow> u64 list \<Rightarrow> u64 list option" where
  "bpf_fillN 0 arr p args = (if length args \<le> 1 then Some arr else None)"
| "bpf_fillN (Suc 0) arr p [x] = Some (arr[p := x])"
| "bpf_fillN (Suc (Suc n)) arr p (x # args) = bpf_fillN (Suc n) (arr[p := x]) (p + 1) args"
| "bpf_fillN _ arr p args = None"

definition bpf_fill :: "u64 list \<Rightarrow> u64 list \<Rightarrow> u64 list option" where
  "bpf_fill arr args = (case bpf_narg args of
     Some (Lit n) \<Rightarrow> bpf_fillN n arr 0 args
   | _ \<Rightarrow> None)"

subsection \<open>Printing\<close>

datatype carg = C_Ptr u64 | C_Fmt string | C_Size nat | C_Array "u64 list" | C_Val u64

datatype call = Call (callee: string) (call_args: "carg list")

text \<open>
  The array \<^verbatim>\<open>___param\<close> that the printing macros declare and fill; \<open>junk\<close> is its content before.
  The size of an array of \<^verbatim>\<open>unsigned long long\<close> is eight bytes for each element.
\<close>

definition bpf_params :: "u64 \<Rightarrow> u64 list \<Rightarrow> (u64 list \<times> nat) option" where
  "bpf_params junk args = (case bpf_narg args of
     Some (Lit n) \<Rightarrow> map_option (\<lambda>param. (param, 8 * n)) (bpf_fill (replicate n junk) args)
   | _ \<Rightarrow> None)"

definition sizeof_fmt :: "string \<Rightarrow> nat" where
  "sizeof_fmt fmt = length fmt + 1"

definition BPF_SEQ_PRINTF :: "u64 \<Rightarrow> u64 \<Rightarrow> string \<Rightarrow> u64 list \<Rightarrow> call option" where
  "BPF_SEQ_PRINTF junk seq fmt args = map_option (\<lambda>(param, size). Call ''bpf_seq_printf''
     [C_Ptr seq, C_Fmt fmt, C_Size (sizeof_fmt fmt), C_Array param, C_Size size]) (bpf_params junk args)"

definition BPF_SNPRINTF :: "u64 \<Rightarrow> u64 \<Rightarrow> nat \<Rightarrow> string \<Rightarrow> u64 list \<Rightarrow> call option" where
  "BPF_SNPRINTF junk out out_size fmt args = map_option (\<lambda>(param, size). Call ''bpf_snprintf''
     [C_Ptr out, C_Size out_size, C_Fmt fmt, C_Array param, C_Size size]) (bpf_params junk args)"

definition bpf_printk0 :: "string \<Rightarrow> u64 list \<Rightarrow> call option" where
  "bpf_printk0 fmt args = Some (Call ''bpf_trace_printk''
     ([C_Fmt fmt, C_Size (sizeof_fmt fmt)] @ map C_Val args))"

definition bpf_vprintk :: "u64 \<Rightarrow> string \<Rightarrow> u64 list \<Rightarrow> call option" where
  "bpf_vprintk junk fmt args = map_option (\<lambda>(param, size). Call ''bpf_trace_vprintk''
     [C_Fmt fmt, C_Size (sizeof_fmt fmt), C_Array param, C_Size size]) (bpf_params junk args)"

text \<open>The names that \<^verbatim>\<open>___bpf_pick_printk\<close> chooses between.\<close>

datatype 'a picked = Pick_Placeholder | Pick_Arg 'a | Pick_printk | Pick_vprintk

definition bpf_pick_printk :: "'a list \<Rightarrow> 'a picked option" where
  "bpf_pick_printk args = bpf_nth (Pick_Placeholder # map Pick_Arg args @
     [Pick_vprintk, Pick_vprintk, Pick_vprintk, Pick_vprintk, Pick_vprintk, Pick_vprintk, Pick_vprintk,
      Pick_vprintk, Pick_vprintk, Pick_printk, Pick_printk, Pick_printk, Pick_printk])"

definition bpf_printk :: "u64 \<Rightarrow> string \<Rightarrow> u64 list \<Rightarrow> call option" where
  "bpf_printk junk fmt args = (case bpf_pick_printk args of
     Some Pick_printk \<Rightarrow> bpf_printk0 fmt args
   | Some Pick_vprintk \<Rightarrow> bpf_vprintk junk fmt args
   | _ \<Rightarrow> None)"

subsection \<open>Lemmas\<close>

lemma bpf_nth_shift:
  assumes "length tail = 13"
  shows "bpf_nth (p # xs @ tail) = Some (if length xs \<le> 12 then tail ! (12 - length xs) else xs ! 12)"
  using assms by (auto simp: bpf_nth_def nth_append nth_Cons' not_le)

lemma nth_countdown: "n \<le> 12 \<Longrightarrow> map Lit [12, 11, 10, 9, 8, 7, 6, 5, 4, 3, 2, 1, 0] ! (12 - n) = Lit n"
  by (auto simp: le_Suc_eq numeral_eq_Suc)

lemma bpf_narg_eq:
  fixes args :: "'a list"
  shows "bpf_narg args = Some (if length args \<le> 12 then Lit (length args) else Arg (args ! 12))"
proof -
  let ?t = "map Lit [12, 11, 10, 9, 8, 7, 6, 5, 4, 3, 2, 1, 0] :: 'a tok list"
  have "bpf_narg args = Some (if length (map Arg args) \<le> 12 then ?t ! (12 - length (map Arg args)) else map Arg args ! 12)"
    unfolding bpf_narg_def by (rule bpf_nth_shift) simp
  then show ?thesis
    by (cases "length args \<le> 12") (simp_all only: length_map if_True if_False nth_countdown, simp)
qed

lemma bpf_fillN_eq:
  "args \<noteq> [] \<Longrightarrow> p + length args \<le> length arr \<Longrightarrow>
   bpf_fillN (length args) arr p args = Some (take p arr @ args @ drop (p + length args) arr)"
proof (induction args arbitrary: arr p)
  case (Cons x args)
  show ?case
  proof (cases args)
    case Nil
    with Cons.prems show ?thesis by (simp add: upd_conv_take_nth_drop)
  next
    case (Cons y ys)
    have "bpf_fillN (length args) (arr[p := x]) (p + 1) args =
      Some (take (p + 1) (arr[p := x]) @ args @ drop (p + 1 + length args) (arr[p := x]))"
      by (rule Cons.IH) (use Cons.prems Cons in auto)
    moreover have "take (p + 1) (arr[p := x]) = take p arr @ [x]"
      using Cons.prems by (simp add: take_Suc_conv_app_nth take_update_swap list_update_append)
    ultimately show ?thesis using Cons by simp
  qed
qed simp

lemma bpf_fill_eq:
  "length args \<le> 12 \<Longrightarrow> bpf_fill (replicate (length args) junk) args = Some args"
  using bpf_fillN_eq [of args 0 "replicate (length args) junk"]
  by (cases args) (auto simp: bpf_fill_def bpf_narg_eq)

lemma bpf_params_eq:
  "bpf_params junk args = (if length args \<le> 12 then Some (args, 8 * length args) else None)"
  by (simp add: bpf_params_def bpf_narg_eq bpf_fill_eq)

lemma bpf_pick_printk_eq:
  fixes args :: "'a list"
  shows "bpf_pick_printk args = Some (if length args \<le> 3 then Pick_printk
     else if length args \<le> 12 then Pick_vprintk else Pick_Arg (args ! 12))"
proof -
  let ?t = "[Pick_vprintk, Pick_vprintk, Pick_vprintk, Pick_vprintk, Pick_vprintk, Pick_vprintk, Pick_vprintk,
      Pick_vprintk, Pick_vprintk, Pick_printk, Pick_printk, Pick_printk, Pick_printk] :: 'a picked list"
  have t: "?t ! (12 - n) = (if n \<le> 3 then Pick_printk else Pick_vprintk)" if "n \<le> 12" for n
    using that by (auto simp: le_Suc_eq numeral_eq_Suc)
  moreover have "bpf_pick_printk args =
    Some (if length (map Pick_Arg args) \<le> 12 then ?t ! (12 - length (map Pick_Arg args)) else map Pick_Arg args ! 12)"
    unfolding bpf_pick_printk_def by (rule bpf_nth_shift) simp
  ultimately show ?thesis
    by (cases "length args \<le> 12") (simp_all only: length_map if_True if_False t, auto)
qed

lemma container_of_inverse: "container_of (base + word_of_nat (offsetof type member)) type member = base"
  by (simp add: container_of_def)

text \<open>Versions compare as their components do, the last one counted up to 255.\<close>

lemma KERNEL_VERSION_less:
  assumes "b < 256" and "b' < 256"
  shows "KERNEL_VERSION a b c < KERNEL_VERSION a' b' c' \<longleftrightarrow>
    a < a' \<or> a = a' \<and> (b < b' \<or> b = b' \<and> min c 255 < min c' 255)"
proof -
  have "(65536 * a + 256 * b + y < 65536 * a' + 256 * b' + y') = (a < a' \<or> a = a' \<and> (b < b' \<or> b = b' \<and> y < y'))"
    if "y < 256" "y' < 256" for y y' :: nat
    using that assms by auto
  moreover have "KERNEL_VERSION a b c = 65536 * a + 256 * b + min c 255" for a b c
    by (simp add: KERNEL_VERSION_def push_bit_eq_mult min_def not_less)
  ultimately show ?thesis by simp
qed

lemma vprintk_helpers:
  "find_helper ''bpf_trace_printk'' = Some (Helper ''bpf_trace_printk'' (Named ''long'')
     [Ptr (Const (Named ''char'')), Named ''__u32'', Variadic] 6)"
  "find_helper ''bpf_trace_vprintk'' = Some (Helper ''bpf_trace_vprintk'' (Named ''long'')
     [Ptr (Const (Named ''char'')), Named ''__u32'', Ptr (Const Void), Named ''__u32''] 177)"
  "find_helper ''bpf_tail_call'' = Some (Helper ''bpf_tail_call'' (Named ''long'') [Ptr Void, Ptr Void, Named ''__u32''] 12)"
  by (simp_all add: find_helper_def bpf_helper_defs_def find_append find_groups)

lemma vprintk_kernel:
  "kernel_func 6 = Some (BPF_FUNC ''bpf_trace_printk'')" "kernel_func 177 = None"
  "kernel_func 12 = Some (BPF_FUNC ''bpf_tail_call'')"
  by (simp_all add: kernel_func_def BPF_FUNC_def bpf_func_id_def find_append find_groups)

text \<open>The static tail call is a call of \<^verbatim>\<open>bpf_tail_call\<close>.\<close>

lemma bpf_tail_call_static_call:
  "bpf_tail_call_static True ctx map' slot =
     Some \<lparr>asm_r1 = ctx, asm_r2 = map', asm_r3 = ucast slot, asm_call = h_id (the (find_helper ''bpf_tail_call''))\<rparr>"
  "length (h_args (the (find_helper ''bpf_tail_call''))) = 3"
  "kernel_func (h_id (the (find_helper ''bpf_tail_call''))) = Some (BPF_FUNC ''bpf_tail_call'')"
  by (simp_all add: bpf_tail_call_static_def vprintk_helpers vprintk_kernel)

subsection \<open>Properties of the macros\<close>

text \<open>
  The printing macros pack up to twelve arguments, in order, into an array of exactly their number
  whose size in bytes they pass on, whatever the array held before; with more arguments the macros
  do not compile.
\<close>

lemma printf_macros_pack_arguments:
  "BPF_SEQ_PRINTF junk seq fmt args =
     (if length args \<le> 12 then Some (Call ''bpf_seq_printf''
        [C_Ptr seq, C_Fmt fmt, C_Size (length fmt + 1), C_Array args, C_Size (8 * length args)]) else None) \<and>
   BPF_SNPRINTF junk out out_size fmt args =
     (if length args \<le> 12 then Some (Call ''bpf_snprintf''
        [C_Ptr out, C_Size out_size, C_Fmt fmt, C_Array args, C_Size (8 * length args)]) else None)"
  by (simp add: BPF_SEQ_PRINTF_def BPF_SNPRINTF_def bpf_params_eq sizeof_fmt_def)

text \<open>
  \<^verbatim>\<open>bpf_printk\<close> chooses by the number of arguments: with up to three it calls
  \<^verbatim>\<open>bpf_trace_printk\<close> and passes them in registers, five at most; with four to twelve it calls
  \<^verbatim>\<open>bpf_trace_vprintk\<close> with an array, a helper whose number the kernel of \<^verbatim>\<open>vmlinux.h\<close> does not
  have; with more it does not compile.
\<close>

lemma bpf_printk_selects_helper:
  "bpf_printk junk fmt args =
     (if length args \<le> 3 then Some (Call ''bpf_trace_printk'' (C_Fmt fmt # C_Size (length fmt + 1) # map C_Val args))
      else if length args \<le> 12 then Some (Call ''bpf_trace_vprintk''
        [C_Fmt fmt, C_Size (length fmt + 1), C_Array args, C_Size (8 * length args)])
      else None) \<and>
   pred_option (\<lambda>c. length (call_args c) \<le> 5) (bpf_printk junk fmt args) \<and>
   map_option h_id (find_helper ''bpf_trace_vprintk'') = Some 177 \<and> kernel_func 177 = None \<and>
   map_option h_id (find_helper ''bpf_trace_printk'') = Some 6 \<and>
   kernel_func 6 = Some (BPF_FUNC ''bpf_trace_printk'')"
  by (simp add: bpf_printk_def bpf_pick_printk_eq bpf_printk0_def bpf_vprintk_def bpf_params_eq sizeof_fmt_def
      vprintk_helpers vprintk_kernel)

end
