(* ===== verification/Core_Read.thy ===== *)
theory Core_Read
  imports Bpf_Macros Endian
begin

text \<open>
  The macros of \<^verbatim>\<open>src/bpf/include/bpf/bpf_core_read.h\<close>: reading and writing bit-fields whose place
  is relocated at load time, and the queries about fields, types and enumerators. What the compiler and the
  loader put in for \<^verbatim>\<open>__builtin_preserve_field_info\<close> is the record \<open>relo\<close>, an argument of the
  macros; \<open>relo_for\<close> says which values belong to a field of a given position and width.
\<close>

unbundle bit_operations_syntax

subsection \<open>Kinds of relocations\<close>

datatype bpf_field_info_kind =
    BPF_FIELD_BYTE_OFFSET | BPF_FIELD_BYTE_SIZE | BPF_FIELD_EXISTS | BPF_FIELD_SIGNED
  | BPF_FIELD_LSHIFT_U64 | BPF_FIELD_RSHIFT_U64

datatype bpf_type_id_kind = BPF_TYPE_ID_LOCAL | BPF_TYPE_ID_TARGET

datatype bpf_type_info_kind = BPF_TYPE_EXISTS | BPF_TYPE_SIZE | BPF_TYPE_MATCHES

datatype bpf_enum_value_kind = BPF_ENUMVAL_EXISTS | BPF_ENUMVAL_VALUE

record relo =
  byte_offset :: nat
  byte_size :: nat
  field_exists :: bool
  field_signed :: bool
  lshift_u64 :: nat
  rshift_u64 :: nat

definition CORE_RELO :: "relo \<Rightarrow> bpf_field_info_kind \<Rightarrow> nat" where
  "CORE_RELO R kind = (case kind of
     BPF_FIELD_BYTE_OFFSET \<Rightarrow> byte_offset R
   | BPF_FIELD_BYTE_SIZE \<Rightarrow> byte_size R
   | BPF_FIELD_EXISTS \<Rightarrow> of_bool (field_exists R)
   | BPF_FIELD_SIGNED \<Rightarrow> of_bool (field_signed R)
   | BPF_FIELD_LSHIFT_U64 \<Rightarrow> lshift_u64 R
   | BPF_FIELD_RSHIFT_U64 \<Rightarrow> rshift_u64 R)"

subsection \<open>Bit-fields\<close>

text \<open>An integer in memory, in the byte order of the target.\<close>

definition native_word :: "byte_order \<Rightarrow> bytes \<Rightarrow> u64" where
  "native_word bo bs = (case bo of ORDER_LITTLE_ENDIAN \<Rightarrow> le_word bs | ORDER_BIG_ENDIAN \<Rightarrow> be_word bs)"

definition native_bytes :: "byte_order \<Rightarrow> nat \<Rightarrow> u64 \<Rightarrow> bytes" where
  "native_bytes bo n x = (case bo of
     ORDER_LITTLE_ENDIAN \<Rightarrow> to_le n (unat x) | ORDER_BIG_ENDIAN \<Rightarrow> to_be n (unat x))"

text \<open>
  The switch that loads the storage of a field; \<open>junk\<close> is the uninitialised value that stays when
  no case applies.
\<close>

definition load_storage :: "byte_order \<Rightarrow> relo \<Rightarrow> u64 \<Rightarrow> bytes \<Rightarrow> u64" where
  "load_storage bo R junk mem =
     (if CORE_RELO R BPF_FIELD_BYTE_SIZE \<in> {1, 2, 4, 8}
      then native_word bo (read_at (CORE_RELO R BPF_FIELD_BYTE_OFFSET) (CORE_RELO R BPF_FIELD_BYTE_SIZE) mem)
      else junk)"

definition shift_out :: "relo \<Rightarrow> u64 \<Rightarrow> u64" where
  "shift_out R val =
     (let val = push_bit (CORE_RELO R BPF_FIELD_LSHIFT_U64) val
      in if CORE_RELO R BPF_FIELD_SIGNED \<noteq> 0 then signed_drop_bit (CORE_RELO R BPF_FIELD_RSHIFT_U64) val
         else drop_bit (CORE_RELO R BPF_FIELD_RSHIFT_U64) val)"

definition BPF_CORE_READ_BITFIELD :: "byte_order \<Rightarrow> relo \<Rightarrow> u64 \<Rightarrow> bytes \<Rightarrow> u64" where
  "BPF_CORE_READ_BITFIELD bo R junk mem = shift_out R (load_storage bo R junk mem)"

text \<open>
  The variant through \<^verbatim>\<open>bpf_probe_read_kernel\<close>: \<open>probe off n\<close> are the bytes that the helper finds
  there, or \<open>None\<close> when it fails and clears the destination.
\<close>

definition CORE_BITFIELD_PROBE_READ :: "byte_order \<Rightarrow> relo \<Rightarrow> (nat \<Rightarrow> nat \<Rightarrow> bytes option) \<Rightarrow> bytes \<Rightarrow> bytes" where
  "CORE_BITFIELD_PROBE_READ bo R probe dst =
     (let n = CORE_RELO R BPF_FIELD_BYTE_SIZE;
          at = (case bo of ORDER_LITTLE_ENDIAN \<Rightarrow> 0 | ORDER_BIG_ENDIAN \<Rightarrow> 8 - n)
      in write_at at (case probe (CORE_RELO R BPF_FIELD_BYTE_OFFSET) n of
           Some bs \<Rightarrow> bs | None \<Rightarrow> replicate n 0) dst)"

definition BPF_CORE_READ_BITFIELD_PROBED :: "byte_order \<Rightarrow> relo \<Rightarrow> (nat \<Rightarrow> nat \<Rightarrow> bytes option) \<Rightarrow> u64" where
  "BPF_CORE_READ_BITFIELD_PROBED bo R probe =
     shift_out R (native_word bo (CORE_BITFIELD_PROBE_READ bo R probe (replicate 8 0)))"

definition BPF_CORE_WRITE_BITFIELD :: "byte_order \<Rightarrow> relo \<Rightarrow> u64 \<Rightarrow> u64 \<Rightarrow> bytes \<Rightarrow> bytes" where
  "BPF_CORE_WRITE_BITFIELD bo R junk new_val mem =
     (let sz = CORE_RELO R BPF_FIELD_BYTE_SIZE;
          lshift = CORE_RELO R BPF_FIELD_LSHIFT_U64;
          rshift = CORE_RELO R BPF_FIELD_RSHIFT_U64;
          rpad = unat (word_of_nat rshift - word_of_nat lshift :: u32);
          val = load_storage bo R junk mem;
          msk = drop_bit lshift (push_bit rshift (NOT 0)) :: u64;
          val = (val AND NOT msk) OR (push_bit rpad new_val AND msk)
      in if sz \<in> {1, 2, 4, 8}
         then write_at (CORE_RELO R BPF_FIELD_BYTE_OFFSET) (native_bytes bo sz val) mem else mem)"

subsection \<open>Queries about fields, types and enumerators\<close>

text \<open>
  The expressions the query macros hand to the compiler's built-ins, which clang and GCC want in
  different forms; \<open>NR\<close> is the value of \<^verbatim>\<open>__COUNTER__\<close>.
\<close>

datatype core_expr =
    Src string
  | Null_Ptr string
  | Tmp_Ptr string nat
  | Arrow core_expr string
  | Addr core_expr
  | Deref core_expr
  | Cast string core_expr

datatype core_builtin =
    Preserve_Field_Info core_expr bpf_field_info_kind
  | Btf_Type_Id core_expr bpf_type_id_kind
  | Preserve_Type_Info core_expr bpf_type_info_kind
  | Preserve_Enum_Value "core_expr list" bpf_enum_value_kind

datatype field_arg = F_Expr core_expr | F_Name string

definition bpf_typeof :: "bool \<Rightarrow> nat \<Rightarrow> string \<Rightarrow> core_expr" where
  "bpf_typeof clang NR type = (if clang then Null_Ptr type else Tmp_Ptr type NR)"

definition bpf_field_ref1 :: "bool \<Rightarrow> core_expr \<Rightarrow> core_expr" where
  "bpf_field_ref1 clang field = (if clang then field else Addr field)"

definition bpf_field_ref2 :: "bool \<Rightarrow> nat \<Rightarrow> string \<Rightarrow> string \<Rightarrow> core_expr" where
  "bpf_field_ref2 clang NR type field =
     (if clang then Arrow (bpf_typeof clang NR type) field else Addr (Arrow (bpf_typeof clang NR type) field))"

definition bpf_field_ref :: "bool \<Rightarrow> nat \<Rightarrow> field_arg list \<Rightarrow> core_expr option" where
  "bpf_field_ref clang NR args = (case bpf_narg args of
     Some (Lit n) \<Rightarrow>
       (case args of
          [F_Expr e] \<Rightarrow> if n = 1 then Some (bpf_field_ref1 clang e) else None
        | [F_Name type, F_Name field] \<Rightarrow> if n = 2 then Some (bpf_field_ref2 clang NR type field) else None
        | _ \<Rightarrow> None)
   | _ \<Rightarrow> None)"

definition bpf_core_field_exists :: "bool \<Rightarrow> nat \<Rightarrow> field_arg list \<Rightarrow> core_builtin option" where
  "bpf_core_field_exists clang NR field =
     map_option (\<lambda>e. Preserve_Field_Info e BPF_FIELD_EXISTS) (bpf_field_ref clang NR field)"

definition bpf_core_field_size :: "bool \<Rightarrow> nat \<Rightarrow> field_arg list \<Rightarrow> core_builtin option" where
  "bpf_core_field_size clang NR field =
     map_option (\<lambda>e. Preserve_Field_Info e BPF_FIELD_BYTE_SIZE) (bpf_field_ref clang NR field)"

definition bpf_core_field_offset :: "bool \<Rightarrow> nat \<Rightarrow> field_arg list \<Rightarrow> core_builtin option" where
  "bpf_core_field_offset clang NR field =
     map_option (\<lambda>e. Preserve_Field_Info e BPF_FIELD_BYTE_OFFSET) (bpf_field_ref clang NR field)"

definition bpf_core_type_id_local :: "bool \<Rightarrow> nat \<Rightarrow> string \<Rightarrow> core_builtin" where
  "bpf_core_type_id_local clang NR type = Btf_Type_Id (Deref (bpf_typeof clang NR type)) BPF_TYPE_ID_LOCAL"

definition bpf_core_type_id_kernel :: "bool \<Rightarrow> nat \<Rightarrow> string \<Rightarrow> core_builtin" where
  "bpf_core_type_id_kernel clang NR type = Btf_Type_Id (Deref (bpf_typeof clang NR type)) BPF_TYPE_ID_TARGET"

definition bpf_core_type_exists :: "bool \<Rightarrow> nat \<Rightarrow> string \<Rightarrow> core_builtin" where
  "bpf_core_type_exists clang NR type = Preserve_Type_Info (Deref (bpf_typeof clang NR type)) BPF_TYPE_EXISTS"

definition bpf_core_type_matches :: "bool \<Rightarrow> nat \<Rightarrow> string \<Rightarrow> core_builtin" where
  "bpf_core_type_matches clang NR type = Preserve_Type_Info (Deref (bpf_typeof clang NR type)) BPF_TYPE_MATCHES"

definition bpf_core_type_size :: "bool \<Rightarrow> nat \<Rightarrow> string \<Rightarrow> core_builtin" where
  "bpf_core_type_size clang NR type = Preserve_Type_Info (Deref (bpf_typeof clang NR type)) BPF_TYPE_SIZE"

definition bpf_core_enum_value_exists :: "bool \<Rightarrow> nat \<Rightarrow> string \<Rightarrow> string \<Rightarrow> core_builtin" where
  "bpf_core_enum_value_exists clang NR enum_type enum_value = Preserve_Enum_Value
     (if clang then [Deref (Cast enum_type (Src enum_value))] else [bpf_typeof clang NR enum_type, Src enum_value])
     BPF_ENUMVAL_EXISTS"

definition bpf_core_enum_value :: "bool \<Rightarrow> nat \<Rightarrow> string \<Rightarrow> string \<Rightarrow> core_builtin" where
  "bpf_core_enum_value clang NR enum_type enum_value = Preserve_Enum_Value
     (if clang then [Deref (Cast enum_type (Src enum_value))] else [bpf_typeof clang NR enum_type, Src enum_value])
     BPF_ENUMVAL_VALUE"

text \<open>\<^verbatim>\<open>bpf_core_cast\<close>: the arguments of its call of \<^verbatim>\<open>bpf_rdonly_cast\<close> and the type of the result.\<close>

definition bpf_core_cast :: "bool \<Rightarrow> nat \<Rightarrow> core_expr \<Rightarrow> string \<Rightarrow> string \<times> core_expr \<times> core_builtin" where
  "bpf_core_cast clang NR ptr type = (type, ptr, bpf_core_type_id_kernel clang NR type)"

text \<open>
  The record a built-in leaves for the loader: the root type, the path of members and the kind of
  question; \<open>ty\<close> gives the pointed-to type of the program's variables.
\<close>

datatype core_kind =
    K_Field bpf_field_info_kind | K_Type_Id bpf_type_id_kind | K_Type bpf_type_info_kind | K_Enum bpf_enum_value_kind

fun designates :: "(string \<Rightarrow> string) \<Rightarrow> core_expr \<Rightarrow> string \<times> string list" where
  "designates ty (Src x) = (ty x, [])"
| "designates ty (Null_Ptr T) = (T, [])"
| "designates ty (Tmp_Ptr T n) = (T, [])"
| "designates ty (Arrow e f) = (fst (designates ty e), snd (designates ty e) @ [f])"
| "designates ty (Addr e) = designates ty e"
| "designates ty (Deref e) = designates ty e"
| "designates ty (Cast T e) = (T, case e of Src v \<Rightarrow> [v] | _ \<Rightarrow> [])"

fun core_record :: "(string \<Rightarrow> string) \<Rightarrow> core_builtin \<Rightarrow> (string \<times> string list \<times> core_kind)" where
  "core_record ty (Preserve_Field_Info e k) = (fst (designates ty e), snd (designates ty e), K_Field k)"
| "core_record ty (Btf_Type_Id e k) = (fst (designates ty e), snd (designates ty e), K_Type_Id k)"
| "core_record ty (Preserve_Type_Info e k) = (fst (designates ty e), snd (designates ty e), K_Type k)"
| "core_record ty (Preserve_Enum_Value es k) = (case es of
     [t, Src v] \<Rightarrow> (fst (designates ty t), [v], K_Enum k)
   | e # _ \<Rightarrow> (fst (designates ty e), snd (designates ty e), K_Enum k)
   | [] \<Rightarrow> ([], [], K_Enum k))"

text \<open>
  The relocation values of a field: its storage, its position counted from the least significant
  bit of the storage, its width and signedness.
\<close>

definition relo_for :: "relo \<Rightarrow> nat \<Rightarrow> nat \<Rightarrow> nat \<Rightarrow> nat \<Rightarrow> bool \<Rightarrow> bool" where
  "relo_for R off sz pos width sg \<longleftrightarrow>
     sz \<in> {1, 2, 4, 8} \<and> 0 < width \<and> pos + width \<le> 8 * sz \<and>
     R = \<lparr>byte_offset = off, byte_size = sz, field_exists = True, field_signed = sg,
          lshift_u64 = 64 - (pos + width), rshift_u64 = 64 - width\<rparr>"

definition field_value :: "nat \<Rightarrow> nat \<Rightarrow> bool \<Rightarrow> u64 \<Rightarrow> u64" where
  "field_value pos width sg storage =
     (if sg then signed_take_bit (width - 1) (drop_bit pos storage) else take_bit width (drop_bit pos storage))"

subsection \<open>Lemmas on bit-fields\<close>

lemmas word_bits = bit_simps bit_push_bit_iff bit_drop_bit_eq bit_signed_drop_bit_iff bit_take_bit_iff
  bit_signed_take_bit_iff

lemma shift_out_value:
  assumes "relo_for R off sz pos width sg"
  shows "shift_out R v = field_value pos width sg v"
proof (rule bit_eqI)
  fix n
  assume "possible_bit TYPE(u64) n"
  then have n: "n < 64" by simp
  have w: "0 < width" "pos + width \<le> 64" using assms by (auto simp: relo_for_def)
  let ?l = "64 - (pos + width)" and ?r = "64 - width"
  have idx: "?r + n - ?l = pos + n" "?l \<le> ?r + n" "63 - ?l = pos + (width - 1)" "?l \<le> 63"
    "?r + n < 64 \<longleftrightarrow> n < width" "64 - ?r = width" using w by auto
  have R: "shift_out R v = (if sg then signed_drop_bit ?r (push_bit ?l v) else drop_bit ?r (push_bit ?l v))"
    using assms by (auto simp: relo_for_def CORE_RELO_def shift_out_def)
  show "bit (shift_out R v) n = bit (field_value pos width sg v) n"
  proof (cases sg)
    case True
    have "bit (shift_out R v) n = bit (push_bit ?l v) (if width \<le> n then 63 else ?r + n)"
      using n idx(6) by (simp add: R True bit_signed_drop_bit_iff)
    also have "\<dots> = bit v (pos + min (width - 1) n)"
    proof (cases "width \<le> n")
      case True
      then have "min (width - 1) n = width - 1" by simp
      with True idx show ?thesis by (simp add: bit_push_bit_iff)
    next
      case False
      then have "min (width - 1) n = n" by simp
      with False idx show ?thesis by (simp add: bit_push_bit_iff)
    qed
    finally show ?thesis
      using n True by (simp add: field_value_def bit_signed_take_bit_iff bit_drop_bit_eq)
  next
    case False
    have "bit (shift_out R v) n = (n < width \<and> bit v (pos + n))"
      using idx n w by (auto simp: R False bit_drop_bit_eq bit_push_bit_iff add.commute)
    then show ?thesis using False by (simp add: field_value_def bit_take_bit_iff bit_drop_bit_eq)
  qed
qed


lemma write_mask_bit:
  assumes "relo_for R off sz pos width sg" and "n < 64"
  shows "bit (drop_bit (CORE_RELO R BPF_FIELD_LSHIFT_U64)
    (push_bit (CORE_RELO R BPF_FIELD_RSHIFT_U64) (NOT 0)) :: u64) n \<longleftrightarrow> pos \<le> n \<and> n < pos + width"
  using assms by (auto simp: relo_for_def CORE_RELO_def bit_drop_bit_eq bit_push_bit_iff bit_not_iff
      bit_mask_iff)

lemma unat_native_word: "length bs \<le> 8 \<Longrightarrow> unat (native_word bo bs) = (case bo of
     ORDER_LITTLE_ENDIAN \<Rightarrow> from_le bs | ORDER_BIG_ENDIAN \<Rightarrow> from_be bs)"
proof -
  assume l: "length bs \<le> 8"
  have "from_le cs < 2 ^ 64" if "length cs = length bs" for cs
  proof -
    have "from_le cs < 256 ^ length cs" by (rule from_le_less)
    also have "(256 :: nat) ^ length cs \<le> 256 ^ 8" using l that by (intro power_increasing) auto
    finally show ?thesis by simp
  qed
  from this [of bs] this [of "rev bs"] show ?thesis
    by (auto simp: native_word_def le_word_def be_word_def from_be_def unat_of_nat split: byte_order.splits)
qed

lemma native_word_bytes:
  assumes "n \<le> 8"
  shows "native_word bo (native_bytes bo n x) = take_bit (8 * n) x"
proof -
  have l: "length (native_bytes bo n x) = n" by (simp add: native_bytes_def split: byte_order.splits)
  have "unat (native_word bo (native_bytes bo n x)) = unat x mod 256 ^ n"
    using unat_native_word [of "native_bytes bo n x" bo] assms l
    by (simp add: native_bytes_def from_le_to_le from_be_to_be split: byte_order.splits)
  also have "\<dots> = unat (take_bit (8 * n) x)"
    unfolding unsigned_take_bit_eq by (simp add: take_bit_eq_mod power_mult)
  finally show ?thesis by (simp add: word_unat_eq_iff)
qed

lemma native_word_small:
  assumes "length bs \<le> 8"
  shows "take_bit (8 * length bs) (native_word bo bs) = native_word bo bs"
proof -
  have "unat (native_word bo bs) < 256 ^ length bs"
    using unat_native_word [OF assms] from_le_less [of bs] from_le_less [of "rev bs"]
    by (simp add: from_be_def split: byte_order.splits)
  then have "unat (take_bit (8 * length bs) (native_word bo bs)) = unat (native_word bo bs)"
    unfolding unsigned_take_bit_eq by (simp add: take_bit_eq_mod power_mult)
  then show ?thesis by (simp add: word_unat_eq_iff)
qed

lemma load_storage_eq:
  "relo_for R off sz pos width sg \<Longrightarrow> load_storage bo R junk mem = native_word bo (read_at off sz mem)"
  by (auto simp: relo_for_def load_storage_def CORE_RELO_def)

lemma probed_storage:
  assumes "relo_for R off sz pos width sg" and "probe off sz = Some bs" and "length bs = sz"
  shows "native_word bo (CORE_BITFIELD_PROBE_READ bo R probe (replicate 8 0)) = native_word bo bs"
proof -
  have z: "from_le (cs @ replicate n 0) = from_le cs" for cs n
    by (induction cs) (simp_all, induction n, simp_all)
  have "sz \<le> 8" using assms(1) by (auto simp: relo_for_def)
  with assms show ?thesis
    by (cases bo) (auto simp: relo_for_def CORE_BITFIELD_PROBE_READ_def CORE_RELO_def Let_def write_at_def
        native_word_def le_word_def be_word_def from_be_def z)
qed

text \<open>The storage after a write, bit by bit.\<close>

lemma written_storage:
  assumes R: "relo_for R off sz pos width sg" and m: "off + sz \<le> length mem"
    and mem': "mem' = BPF_CORE_WRITE_BITFIELD bo R junk v mem"
  shows "length mem' = length mem"
    "n + k \<le> off \<or> off + sz \<le> n \<Longrightarrow> read_at n k mem' = read_at n k mem"
    "i < 64 \<Longrightarrow> bit (native_word bo (read_at off sz mem')) i =
      (if pos \<le> i \<and> i < pos + width then bit v (i - pos) else bit (native_word bo (read_at off sz mem)) i)"
proof -
  let ?s = "native_word bo (read_at off sz mem)"
  let ?m = "drop_bit (CORE_RELO R BPF_FIELD_LSHIFT_U64) (push_bit (CORE_RELO R BPF_FIELD_RSHIFT_U64) (NOT 0)) :: u64"
  let ?x = "(?s AND NOT ?m) OR (push_bit pos v AND ?m)"
  have sz: "sz \<le> 8" "pos + width \<le> 8 * sz" and pos: "(64 - width) - (64 - (pos + width)) = pos"
    using R by (auto simp: relo_for_def)
  have pos32: "unat (word_of_nat pos :: u32) = pos"
    using R by (auto simp: relo_for_def unat_of_nat take_bit_nat_eq_self_iff intro!: mod_less)
  have w: "mem' = write_at off (native_bytes bo sz ?x) mem"
    using R pos pos32 by (auto simp: mem' BPF_CORE_WRITE_BITFIELD_def Let_def load_storage_def relo_for_def CORE_RELO_def)
  have l: "length (native_bytes bo sz ?x) = sz" by (simp add: native_bytes_def split: byte_order.splits)
  show "length mem' = length mem" "n + k \<le> off \<or> off + sz \<le> n \<Longrightarrow> read_at n k mem' = read_at n k mem"
    using m l by (auto simp: w mem_simps)
  assume i: "i < 64"
  have "native_word bo (read_at off sz mem') = take_bit (8 * sz) ?x"
    using m l sz by (simp add: w read_write_same native_word_bytes)
  moreover have "bit ?s i \<Longrightarrow> i < 8 * sz"
    using native_word_small [of "read_at off sz mem" bo] m sz
    by (metis bit_take_bit_iff length_read_at)
  ultimately show "bit (native_word bo (read_at off sz mem')) i =
      (if pos \<le> i \<and> i < pos + width then bit v (i - pos) else bit ?s i)"
    using i sz write_mask_bit [OF R i]
    by (auto simp: bit_take_bit_iff bit_or_iff bit_and_iff bit_not_iff bit_push_bit_iff)
qed

subsection \<open>Properties of bit-field access\<close>


text \<open>
  C27. Writing a bit-field and reading it back yields the value cut to the width of the field (with its
  sign for a signed field); no other bit of the storage and no byte outside it changes.
\<close>

theorem bitfield_write_read:
  assumes "relo_for R off sz pos width sg" and "off + sz \<le> length mem"
    and "mem' = BPF_CORE_WRITE_BITFIELD bo R junk v mem"
  shows "BPF_CORE_READ_BITFIELD bo R junk mem' = (if sg then signed_take_bit (width - 1) v else take_bit width v) \<and>
    (\<forall>i < 64. \<not> (pos \<le> i \<and> i < pos + width) \<longrightarrow>
      bit (native_word bo (read_at off sz mem')) i = bit (native_word bo (read_at off sz mem)) i) \<and>
    (\<forall>n k. n + k \<le> off \<or> off + sz \<le> n \<longrightarrow> read_at n k mem' = read_at n k mem) \<and>
    length mem' = length mem"
proof -
  note w = written_storage [OF assms]
  have p: "0 < width" "pos + width \<le> 64" using assms(1) by (auto simp: relo_for_def)
  have "field_value pos width sg (native_word bo (read_at off sz mem')) =
    (if sg then signed_take_bit (width - 1) v else take_bit width v)"
  proof (rule bit_eqI)
    fix n
    assume "possible_bit TYPE(u64) n"
    then show "bit (field_value pos width sg (native_word bo (read_at off sz mem'))) n =
      bit (if sg then signed_take_bit (width - 1) v else take_bit width v) n"
      using p w(3) [of "pos + n"] w(3) [of "pos + (width - 1)"]
      by (auto simp: field_value_def bit_take_bit_iff bit_signed_take_bit_iff bit_drop_bit_eq min_def)
  qed
  then show ?thesis
    using w by (simp add: BPF_CORE_READ_BITFIELD_def load_storage_eq [OF assms(1)] shift_out_value [OF assms(1)])
qed


text \<open>A signed 5-bit field at bit 3 of the 16-bit storage at byte 2.\<close>

definition example_relo :: relo where
  "example_relo = \<lparr>byte_offset = 2, byte_size = 2, field_exists = True, field_signed = True,
     lshift_u64 = 56, rshift_u64 = 59\<rparr>"

lemma example_relo_for: "relo_for example_relo 2 2 3 5 True"
  by (simp add: relo_for_def example_relo_def)


theorem bitfield_write_read_witness:
  "BPF_CORE_READ_BITFIELD ORDER_BIG_ENDIAN example_relo 0
    (BPF_CORE_WRITE_BITFIELD ORDER_BIG_ENDIAN example_relo 0 29 [9, 9, 1, 2, 9]) = - 3"
proof -
  have l: "2 + 2 \<le> length ([9, 9, 1, 2, 9] :: bytes)" by simp
  from bitfield_write_read [OF example_relo_for l refl, of ORDER_BIG_ENDIAN 0 29] show ?thesis by simp
qed

subsection \<open>The two forms and the two compilers\<close>

text \<open>
  A field query leaves the same record for the loader whether the field is named through a variable
  or through its type, and with either compiler; so do the type and enumerator queries. A field query
  with another number of arguments does not compile.
\<close>

lemma field_query_record:
  "map_option (core_record ty) (bpf_core_field_exists clang NR [F_Expr (Arrow (Src p) f)]) =
     Some (ty p, [f], K_Field BPF_FIELD_EXISTS)"
  "map_option (core_record ty) (bpf_core_field_exists clang NR [F_Name T, F_Name f]) =
     Some (T, [f], K_Field BPF_FIELD_EXISTS)"
  "map_option (core_record ty) (bpf_core_field_size clang NR [F_Expr (Arrow (Src p) f)]) =
     Some (ty p, [f], K_Field BPF_FIELD_BYTE_SIZE)"
  "map_option (core_record ty) (bpf_core_field_size clang NR [F_Name T, F_Name f]) =
     Some (T, [f], K_Field BPF_FIELD_BYTE_SIZE)"
  "map_option (core_record ty) (bpf_core_field_offset clang NR [F_Expr (Arrow (Src p) f)]) =
     Some (ty p, [f], K_Field BPF_FIELD_BYTE_OFFSET)"
  "map_option (core_record ty) (bpf_core_field_offset clang NR [F_Name T, F_Name f]) =
     Some (T, [f], K_Field BPF_FIELD_BYTE_OFFSET)"
  by (simp_all add: bpf_core_field_exists_def bpf_core_field_size_def bpf_core_field_offset_def
      bpf_field_ref_def bpf_field_ref1_def bpf_field_ref2_def bpf_typeof_def bpf_narg_eq)

lemma field_ref_arity: "bpf_field_ref clang NR args = Some e \<Longrightarrow> length args = 1 \<or> length args = 2"
  by (auto simp: bpf_field_ref_def split: option.splits tok.splits list.splits field_arg.splits)

lemma type_query_record:
  "core_record ty (bpf_core_type_id_kernel clang NR T) = (T, [], K_Type_Id BPF_TYPE_ID_TARGET)"
  "core_record ty (bpf_core_type_id_local clang NR T) = (T, [], K_Type_Id BPF_TYPE_ID_LOCAL)"
  "core_record ty (bpf_core_type_exists clang NR T) = (T, [], K_Type BPF_TYPE_EXISTS)"
  "core_record ty (bpf_core_type_matches clang NR T) = (T, [], K_Type BPF_TYPE_MATCHES)"
  "core_record ty (bpf_core_type_size clang NR T) = (T, [], K_Type BPF_TYPE_SIZE)"
  "core_record ty (bpf_core_enum_value_exists clang NR T v) = (T, [v], K_Enum BPF_ENUMVAL_EXISTS)"
  "core_record ty (bpf_core_enum_value clang NR T v) = (T, [v], K_Enum BPF_ENUMVAL_VALUE)"
  by (simp_all add: bpf_core_type_id_kernel_def bpf_core_type_id_local_def bpf_core_type_exists_def
      bpf_core_type_matches_def bpf_core_type_size_def bpf_core_enum_value_exists_def bpf_core_enum_value_def
      bpf_typeof_def)

end
