(* ===== verification/Core_Chase.thy ===== *)
theory Core_Chase
  imports Helper_Table
begin

text \<open>
  The pointer-chasing reads of \<^verbatim>\<open>src/bpf/include/bpf/bpf_core_read.h\<close>: \<^verbatim>\<open>BPF_CORE_READ(s, a, b, c)\<close>
  and its variants. The macros are expanded as the preprocessor does it, through the families
  \<^verbatim>\<open>___last\<close>, \<^verbatim>\<open>___nolast\<close>, \<^verbatim>\<open>___arrow\<close> and \<^verbatim>\<open>___rd_p\<close> that exist for a bounded number of
  arguments only (\<open>None\<close>: no such macro), into a list of read statements; the statements are then
  run on a memory.
\<close>

subsection \<open>Counting and splitting arguments\<close>

datatype 'a ctok = CArg 'a | CNum nat | CN

text \<open>\<^verbatim>\<open>___nth\<close> expands to its twelfth argument.\<close>

definition core_nth :: "'t list \<Rightarrow> 't option" where
  "core_nth args = (if 12 \<le> length args then Some (args ! 11) else None)"

definition core_narg :: "'a list \<Rightarrow> 'a ctok option" where
  "core_narg args = core_nth (CN # map CArg args @ map CNum [10, 9, 8, 7, 6, 5, 4, 3, 2, 1, 0])"

definition core_empty :: "'a list \<Rightarrow> 'a ctok option" where
  "core_empty args = core_nth (CN # map CArg args @ [CN, CN, CN, CN, CN, CN, CN, CN, CN, CN, CNum 0])"

text \<open>
  A family of macros applied by argument count: \<open>core_apply lo hi args f\<close> when the members \<open>lo\<close> to
  \<open>hi\<close> exist.
\<close>

definition core_apply :: "nat \<Rightarrow> nat \<Rightarrow> 'a list \<Rightarrow> ('a list \<Rightarrow> 'b) \<Rightarrow> 'b option" where
  "core_apply lo hi args f = (case core_narg args of
     Some (CNum n) \<Rightarrow> if lo \<le> n \<and> n \<le> hi then Some (f args) else None
   | _ \<Rightarrow> None)"

definition core_last :: "'a list \<Rightarrow> 'a option" where
  "core_last args = core_apply 1 10 args last"

definition core_nolast :: "'a list \<Rightarrow> 'a list option" where
  "core_nolast args = core_apply 2 10 args butlast"

text \<open>The expression \<^verbatim>\<open>a->b->c\<close> is represented by its components; \<^verbatim>\<open>___type\<close> is the type of it.\<close>

definition core_arrow :: "'a list \<Rightarrow> 'a list option" where
  "core_arrow args = core_apply 1 10 args id"

definition core_type :: "'a list \<Rightarrow> 'a list option" where
  "core_type args = core_arrow args"

subsection \<open>Read functions\<close>

datatype read_fn =
    bpf_core_read | bpf_core_read_user | bpf_core_read_str | bpf_core_read_user_str
  | bpf_probe_read_kernel | bpf_probe_read_user | bpf_probe_read_kernel_str | bpf_probe_read_user_str

fun read_helper :: "read_fn \<Rightarrow> string" where
  "read_helper bpf_core_read = ''bpf_probe_read_kernel''"
| "read_helper bpf_core_read_user = ''bpf_probe_read_user''"
| "read_helper bpf_core_read_str = ''bpf_probe_read_kernel_str''"
| "read_helper bpf_core_read_user_str = ''bpf_probe_read_user_str''"
| "read_helper bpf_probe_read_kernel = ''bpf_probe_read_kernel''"
| "read_helper bpf_probe_read_user = ''bpf_probe_read_user''"
| "read_helper bpf_probe_read_kernel_str = ''bpf_probe_read_kernel_str''"
| "read_helper bpf_probe_read_user_str = ''bpf_probe_read_user_str''"

subsection \<open>Expansion into reads\<close>

datatype source = From_Src | From_Tmp

datatype target = To_Tmp | To_Dst

text \<open>One \<^verbatim>\<open>___read\<close>: function, destination, the expression whose type the source is cast to, source, accessor.\<close>

datatype stmt = Read read_fn target "string list" source string

definition rd_first :: "read_fn \<Rightarrow> string list \<Rightarrow> stmt option" where
  "rd_first fn args = (case args of
     [src, a] \<Rightarrow> map_option (\<lambda>ty. Read fn To_Tmp ty From_Src a) (core_type [src])
   | _ \<Rightarrow> None)"

definition rd_last :: "read_fn \<Rightarrow> string list \<Rightarrow> stmt option" where
  "rd_last fn args = (case (Option.bind (core_nolast args) core_type, core_last args) of
     (Some ty, Some a) \<Rightarrow> Some (Read fn To_Tmp ty From_Tmp a)
   | _ \<Rightarrow> None)"

text \<open>The family \<^verbatim>\<open>___rd_p1\<close> to \<^verbatim>\<open>___rd_p9\<close>; the arguments begin with the source.\<close>

fun rd_p :: "nat \<Rightarrow> read_fn \<Rightarrow> string list \<Rightarrow> stmt list option" where
  "rd_p 0 fn args = None"
| "rd_p (Suc 0) fn args = map_option (\<lambda>s. [s]) (rd_first fn args)"
| "rd_p (Suc (Suc n)) fn args =
     (case (Option.bind (core_nolast args) (rd_p (Suc n) fn), rd_last fn args) of
        (Some ss, Some s) \<Rightarrow> Some (ss @ [s])
      | _ \<Rightarrow> None)"

definition read_ptrs :: "read_fn \<Rightarrow> string \<Rightarrow> string list \<Rightarrow> stmt list option" where
  "read_ptrs fn src args = (case core_narg args of
     Some (CNum n) \<Rightarrow> if n \<le> 9 then rd_p n fn (src # args) else None
   | _ \<Rightarrow> None)"

definition core_read0 :: "read_fn \<Rightarrow> string \<Rightarrow> string \<Rightarrow> stmt list option" where
  "core_read0 fn src a = map_option (\<lambda>ty. [Read fn To_Dst ty From_Src a]) (core_type [src])"

definition core_readN :: "read_fn \<Rightarrow> read_fn \<Rightarrow> string \<Rightarrow> string list \<Rightarrow> stmt list option" where
  "core_readN fn fn_ptr src args =
     (case (Option.bind (core_nolast args) (read_ptrs fn_ptr src),
            Option.bind (core_nolast args) (\<lambda>xs. core_type (src # xs)), core_last args) of
        (Some ss, Some ty, Some a) \<Rightarrow> Some (ss @ [Read fn To_Dst ty From_Tmp a])
      | _ \<Rightarrow> None)"

definition core_read :: "read_fn \<Rightarrow> read_fn \<Rightarrow> string \<Rightarrow> string \<Rightarrow> string list \<Rightarrow> stmt list option" where
  "core_read fn fn_ptr src a args = (case core_empty args of
     Some (CNum 0) \<Rightarrow> core_read0 fn src a
   | Some CN \<Rightarrow> core_readN fn fn_ptr src (a # args)
   | _ \<Rightarrow> None)"

subsection \<open>The macros\<close>

definition BPF_CORE_READ_INTO :: "string \<Rightarrow> string \<Rightarrow> string list \<Rightarrow> stmt list option" where
  "BPF_CORE_READ_INTO = core_read bpf_core_read bpf_core_read"

definition BPF_CORE_READ_USER_INTO :: "string \<Rightarrow> string \<Rightarrow> string list \<Rightarrow> stmt list option" where
  "BPF_CORE_READ_USER_INTO = core_read bpf_core_read_user bpf_core_read_user"

definition BPF_PROBE_READ_INTO :: "string \<Rightarrow> string \<Rightarrow> string list \<Rightarrow> stmt list option" where
  "BPF_PROBE_READ_INTO = core_read bpf_probe_read_kernel bpf_probe_read_kernel"

definition BPF_PROBE_READ_USER_INTO :: "string \<Rightarrow> string \<Rightarrow> string list \<Rightarrow> stmt list option" where
  "BPF_PROBE_READ_USER_INTO = core_read bpf_probe_read_user bpf_probe_read_user"

definition BPF_CORE_READ_STR_INTO :: "string \<Rightarrow> string \<Rightarrow> string list \<Rightarrow> stmt list option" where
  "BPF_CORE_READ_STR_INTO = core_read bpf_core_read_str bpf_core_read"

definition BPF_CORE_READ_USER_STR_INTO :: "string \<Rightarrow> string \<Rightarrow> string list \<Rightarrow> stmt list option" where
  "BPF_CORE_READ_USER_STR_INTO = core_read bpf_core_read_user_str bpf_core_read_user"

definition BPF_PROBE_READ_STR_INTO :: "string \<Rightarrow> string \<Rightarrow> string list \<Rightarrow> stmt list option" where
  "BPF_PROBE_READ_STR_INTO = core_read bpf_probe_read_kernel_str bpf_probe_read_kernel"

definition BPF_PROBE_READ_USER_STR_INTO :: "string \<Rightarrow> string \<Rightarrow> string list \<Rightarrow> stmt list option" where
  "BPF_PROBE_READ_USER_STR_INTO = core_read bpf_probe_read_user_str bpf_probe_read_user"

text \<open>The variants that return the value declare it with the type of the whole expression first.\<close>

definition read_value ::
  "(string \<Rightarrow> string \<Rightarrow> string list \<Rightarrow> stmt list option) \<Rightarrow> string \<Rightarrow> string \<Rightarrow> string list \<Rightarrow> stmt list option" where
  "read_value into src a args =
     (case core_type (src # a # args) of None \<Rightarrow> None | Some ty \<Rightarrow> into src a args)"

definition BPF_CORE_READ :: "string \<Rightarrow> string \<Rightarrow> string list \<Rightarrow> stmt list option" where
  "BPF_CORE_READ = read_value BPF_CORE_READ_INTO"

definition BPF_CORE_READ_USER :: "string \<Rightarrow> string \<Rightarrow> string list \<Rightarrow> stmt list option" where
  "BPF_CORE_READ_USER = read_value BPF_CORE_READ_USER_INTO"

definition BPF_PROBE_READ :: "string \<Rightarrow> string \<Rightarrow> string list \<Rightarrow> stmt list option" where
  "BPF_PROBE_READ = read_value BPF_PROBE_READ_INTO"

definition BPF_PROBE_READ_USER :: "string \<Rightarrow> string \<Rightarrow> string list \<Rightarrow> stmt list option" where
  "BPF_PROBE_READ_USER = read_value BPF_PROBE_READ_USER_INTO"

subsection \<open>Running the reads\<close>

text \<open>
  \<open>fetch fn ty p a\<close> is the value that a read with \<open>fn\<close> stores for the member \<open>a\<close> of the object of
  type \<open>ty\<close> at \<open>p\<close> (zero when the helper fails, which the macros ignore). The state is the local
  variable \<^verbatim>\<open>__t\<close> and the destination.
\<close>

fun run_stmt :: "(read_fn \<Rightarrow> string list \<Rightarrow> u64 \<Rightarrow> string \<Rightarrow> u64) \<Rightarrow> u64 \<Rightarrow> stmt \<Rightarrow> u64 \<times> u64 \<Rightarrow> u64 \<times> u64" where
  "run_stmt fetch src (Read fn to ty from a) (t, dst) =
     (let v = fetch fn ty (case from of From_Src \<Rightarrow> src | From_Tmp \<Rightarrow> t) a
      in case to of To_Tmp \<Rightarrow> (v, dst) | To_Dst \<Rightarrow> (t, v))"

definition run :: "(read_fn \<Rightarrow> string list \<Rightarrow> u64 \<Rightarrow> string \<Rightarrow> u64) \<Rightarrow> u64 \<Rightarrow> stmt list \<Rightarrow> u64 \<times> u64 \<Rightarrow> u64 \<times> u64" where
  "run fetch src ss st = fold (run_stmt fetch src) ss st"

text \<open>The meaning of \<^verbatim>\<open>s->a->b->c\<close>: follow the accessors one after the other.\<close>

fun follow :: "(string list \<Rightarrow> u64 \<Rightarrow> string \<Rightarrow> u64) \<Rightarrow> string list \<Rightarrow> u64 \<Rightarrow> string list \<Rightarrow> u64" where
  "follow step path p [] = p"
| "follow step path p (a # as) = follow step (path @ [a]) (step path p a) as"

subsection \<open>Lemmas\<close>

lemma core_nth_shift:
  assumes "length tail = 11"
  shows "core_nth (p # xs @ tail) = Some (if length xs \<le> 10 then tail ! (10 - length xs) else xs ! 10)"
  using assms by (auto simp: core_nth_def nth_append nth_Cons' not_le)

lemma core_narg_eq:
  fixes args :: "'a list"
  shows "core_narg args = Some (if length args \<le> 10 then CNum (length args) else CArg (args ! 10))"
proof -
  let ?t = "map CNum [10, 9, 8, 7, 6, 5, 4, 3, 2, 1, 0] :: 'a ctok list"
  have t: "n \<le> 10 \<Longrightarrow> ?t ! (10 - n) = CNum n" for n
    by (auto simp: le_Suc_eq numeral_eq_Suc)
  have "core_narg args = Some (if length (map CArg args) \<le> 10 then ?t ! (10 - length (map CArg args)) else map CArg args ! 10)"
    unfolding core_narg_def by (rule core_nth_shift) simp
  then show ?thesis
    by (cases "length args \<le> 10") (simp_all only: length_map if_True if_False t, simp)
qed

lemma core_empty_eq:
  fixes args :: "'a list"
  shows "core_empty args = Some (if args = [] then CNum 0 else if length args \<le> 10 then CN else CArg (args ! 10))"
proof -
  let ?t = "[CN, CN, CN, CN, CN, CN, CN, CN, CN, CN, CNum 0] :: 'a ctok list"
  have t: "n \<le> 10 \<Longrightarrow> ?t ! (10 - n) = (if n = 0 then CNum 0 else CN)" for n
    by (auto simp: le_Suc_eq numeral_eq_Suc)
  have "core_empty args = Some (if length (map CArg args) \<le> 10 then ?t ! (10 - length (map CArg args)) else map CArg args ! 10)"
    unfolding core_empty_def by (rule core_nth_shift) simp
  then show ?thesis
    by (cases "length args \<le> 10") (simp_all only: length_map if_True if_False t, auto)
qed

lemma core_split_eq:
  "core_last args = (if 1 \<le> length args \<and> length args \<le> 10 then Some (last args) else None)"
  "core_nolast args = (if 2 \<le> length args \<and> length args \<le> 10 then Some (butlast args) else None)"
  "core_type args = (if 1 \<le> length args \<and> length args \<le> 10 then Some args else None)"
  by (simp_all add: core_last_def core_nolast_def core_type_def core_arrow_def core_apply_def core_narg_eq)

lemma follow_snoc: "follow step path p (as @ [b]) = step (path @ as) (follow step path p as) b"
  by (induction as arbitrary: path p) simp_all

lemma rd_p_runs:
  "length as = Suc n \<Longrightarrow> n \<le> 8 \<Longrightarrow>
   \<exists>ss. rd_p (Suc n) fn (src # as) = Some ss \<and> length ss = Suc n \<and>
     (\<forall>st. run fetch s ss st = (follow (fetch fn) [src] s as, snd st))"
proof (induction n arbitrary: as)
  case 0
  then obtain a where "as = [a]" by (auto simp: length_Suc_conv)
  then show ?case by (auto simp: rd_first_def core_split_eq run_def split: prod.splits)
next
  case (Suc n)
  then obtain bs b where as: "as = bs @ [b]" and bs: "length bs = Suc n"
    by (metis length_Suc_conv_rev)
  obtain ss where ss: "rd_p (Suc n) fn (src # bs) = Some ss" "length ss = Suc n"
    "\<And>st. run fetch s ss st = (follow (fetch fn) [src] s bs, snd st)"
    using Suc.IH [OF bs] Suc.prems by auto
  have nl: "core_nolast (src # as) = Some (src # bs)"
    using Suc.prems bs by (simp add: core_split_eq as butlast_append)
  have "rd_last fn (src # as) = Some (Read fn To_Tmp (src # bs) From_Tmp b)"
    using Suc.prems bs by (simp add: rd_last_def nl) (simp add: core_split_eq as)
  then have "rd_p (Suc (Suc n)) fn (src # as) = Some (ss @ [Read fn To_Tmp (src # bs) From_Tmp b])"
    using ss(1) by (simp add: nl)
  moreover have "run fetch s (ss @ [Read fn To_Tmp (src # bs) From_Tmp b]) st =
      (follow (fetch fn) [src] s as, snd st)" for st
    using ss(3) [of st] by (simp add: run_def as follow_snoc)
  ultimately show ?case using ss(2) by simp
qed

lemma core_read_runs:
  assumes "length args \<le> 9"
  shows "\<exists>ss. core_read fn fn_ptr src a args = Some ss \<and> length ss = Suc (length args) \<and>
    (\<forall>st. snd (run fetch s ss st) = fetch fn (src # butlast (a # args))
       (follow (fetch fn_ptr) [src] s (butlast (a # args))) (last (a # args)))"
proof (cases "args = []")
  case True
  show ?thesis
    by (rule exI [of _ "[Read fn To_Dst [src] From_Src a]"])
      (auto simp: True core_read_def core_empty_eq core_read0_def core_split_eq run_def split: prod.splits)
next
  case False
  let ?bs = "butlast (a # args)" and ?b = "last (a # args)"
  obtain n where n: "length args = Suc n" "length ?bs = Suc n" using False by (cases args) auto
  obtain ss where ss: "rd_p (Suc n) fn_ptr (src # ?bs) = Some ss" "length ss = Suc n"
    "\<And>st. run fetch s ss st = (follow (fetch fn_ptr) [src] s ?bs, snd st)"
    using rd_p_runs [of ?bs n fn_ptr src fetch s] n assms False by auto
  have "core_readN fn fn_ptr src (a # args) = Some (ss @ [Read fn To_Dst (src # ?bs) From_Tmp ?b])"
    using n assms ss(1) by (simp add: core_readN_def core_split_eq read_ptrs_def core_narg_eq)
  then have "core_read fn fn_ptr src a args = Some (ss @ [Read fn To_Dst (src # ?bs) From_Tmp ?b])"
    using False assms by (simp add: core_read_def core_empty_eq)
  moreover have "snd (run fetch s (ss @ [Read fn To_Dst (src # ?bs) From_Tmp ?b]) st) =
    fetch fn (src # ?bs) (follow (fetch fn_ptr) [src] s ?bs) ?b" for st
    using ss(3) [of st] by (simp add: run_def)
  ultimately show ?thesis using ss(2) n by auto
qed

subsection \<open>Property of the chained reads\<close>

text \<open>
  C29. \<^verbatim>\<open>BPF_CORE_READ(s, a, b, ...)\<close> with one to nine accessors expands to one read for each
  accessor, and running them yields what following the accessors from \<^verbatim>\<open>s\<close> yields; the string
  variant follows the pointers with the plain read and uses the string read for the last accessor;
  with ten accessors or more \<^verbatim>\<open>BPF_CORE_READ\<close> does not compile.
\<close>

theorem core_read_follows_pointers:
  "(if length args \<le> 8
    then \<exists>ss. BPF_CORE_READ src a args = Some ss \<and> length ss = Suc (length args) \<and>
      (\<forall>t d. snd (run fetch s ss (t, d)) = follow (fetch bpf_core_read) [src] s (a # args)) \<and>
      (\<exists>ss'. BPF_CORE_READ_STR_INTO src a args = Some ss' \<and>
        (\<forall>t d. snd (run fetch s ss' (t, d)) = fetch bpf_core_read_str (src # butlast (a # args))
          (follow (fetch bpf_core_read) [src] s (butlast (a # args))) (last (a # args))))
    else BPF_CORE_READ src a args = None)"
proof (cases "length args \<le> 8")
  case True
  then have 9: "length args \<le> 9" by simp
  have f: "follow (fetch bpf_core_read) [src] s (a # args) = fetch bpf_core_read (src # butlast (a # args))
      (follow (fetch bpf_core_read) [src] s (butlast (a # args))) (last (a # args))"
    using follow_snoc [of "fetch bpf_core_read" "[src]" s "butlast (a # args)" "last (a # args)"]
    by (metis append_Cons append_Nil append_butlast_last_id list.distinct(1))
  obtain ss where ss: "core_read bpf_core_read bpf_core_read src a args = Some ss" "length ss = Suc (length args)"
    "\<And>st. snd (run fetch s ss st) = fetch bpf_core_read (src # butlast (a # args))
       (follow (fetch bpf_core_read) [src] s (butlast (a # args))) (last (a # args))"
    using core_read_runs [OF 9, of bpf_core_read bpf_core_read src a fetch s] by blast
  obtain ss' where ss': "core_read bpf_core_read_str bpf_core_read src a args = Some ss'"
    "\<And>st. snd (run fetch s ss' st) = fetch bpf_core_read_str (src # butlast (a # args))
       (follow (fetch bpf_core_read) [src] s (butlast (a # args))) (last (a # args))"
    using core_read_runs [OF 9, of bpf_core_read_str bpf_core_read src a fetch s] by blast
  have "BPF_CORE_READ src a args = Some ss"
    using True ss(1) by (simp add: BPF_CORE_READ_def read_value_def core_split_eq BPF_CORE_READ_INTO_def)
  with True ss ss' f show ?thesis by (auto simp: BPF_CORE_READ_STR_INTO_def)
qed (simp add: BPF_CORE_READ_def read_value_def core_split_eq)

end
