(* ===== verification/Tracing.thy ===== *)
theory Tracing
  imports Bpf_Macros
begin

text \<open>
  The macros of \<^verbatim>\<open>src/bpf/include/bpf/bpf_tracing.h\<close>: the choice of the target architecture, the
  tables of register accessors for each of them (direct and relocatable), the return address of a
  probe, and the macros that turn a context into the arguments of a probe function. Two register
  structs of \<^verbatim>\<open>src/bpf/vmlinux.h\<close> are transcribed to compare the accessors with.
\<close>

subsection \<open>Target selection\<close>

datatype target_arch = T_x86 | T_s390 | T_arm | T_arm64 | T_mips | T_powerpc | T_sparc | T_riscv

text \<open>The first condition that holds, in the order of the header; \<open>defs\<close> are the defined macros.\<close>

fun first_defined :: "string list \<Rightarrow> (string \<times> target_arch) list \<Rightarrow> target_arch option" where
  "first_defined defs [] = None"
| "first_defined defs ((m, t) # rest) = (if m \<in> set defs then Some t else first_defined defs rest)"

definition bpf_target :: "string list \<Rightarrow> nat \<Rightarrow> target_arch option" where
  "bpf_target defs riscv_xlen =
     (case first_defined defs
        [(''__TARGET_ARCH_x86'', T_x86), (''__TARGET_ARCH_s390'', T_s390), (''__TARGET_ARCH_arm'', T_arm),
         (''__TARGET_ARCH_arm64'', T_arm64), (''__TARGET_ARCH_mips'', T_mips),
         (''__TARGET_ARCH_powerpc'', T_powerpc), (''__TARGET_ARCH_sparc'', T_sparc),
         (''__TARGET_ARCH_riscv'', T_riscv)] of
        Some t \<Rightarrow> Some t
      | None \<Rightarrow>
        (case first_defined defs
          [(''__x86_64__'', T_x86), (''__s390__'', T_s390), (''__arm__'', T_arm), (''__aarch64__'', T_arm64),
           (''__mips__'', T_mips), (''__powerpc__'', T_powerpc), (''__sparc__'', T_sparc)] of
          Some t \<Rightarrow> Some t
        | None \<Rightarrow> if ''__riscv'' \<in> set defs \<and> riscv_xlen = 64 then Some T_riscv else None))"

subsection \<open>Register accessors\<close>

datatype pt_reg = PARM1 | PARM2 | PARM3 | PARM4 | PARM5 | RET | FP | RC | SP | IP

text \<open>
  A member of the register struct, the literal 0, or the error directive of an unknown target;
  \<open>None\<close>: the header defines no such macro.
\<close>

datatype accessor = Member string | Zero | Missing_Target

fun regs_x86_kernel :: "pt_reg \<Rightarrow> accessor option" where
  "regs_x86_kernel PARM1 = Some (Member ''di'')"
| "regs_x86_kernel PARM2 = Some (Member ''si'')"
| "regs_x86_kernel PARM3 = Some (Member ''dx'')"
| "regs_x86_kernel PARM4 = Some (Member ''cx'')"
| "regs_x86_kernel PARM5 = Some (Member ''r8'')"
| "regs_x86_kernel RET = Some (Member ''sp'')"
| "regs_x86_kernel FP = Some (Member ''bp'')"
| "regs_x86_kernel RC = Some (Member ''ax'')"
| "regs_x86_kernel SP = Some (Member ''sp'')"
| "regs_x86_kernel IP = Some (Member ''ip'')"

fun regs_core_x86_kernel :: "pt_reg \<Rightarrow> accessor option" where
  "regs_core_x86_kernel PARM1 = Some (Member ''di'')"
| "regs_core_x86_kernel PARM2 = Some (Member ''si'')"
| "regs_core_x86_kernel PARM3 = Some (Member ''dx'')"
| "regs_core_x86_kernel PARM4 = Some (Member ''cx'')"
| "regs_core_x86_kernel PARM5 = Some (Member ''r8'')"
| "regs_core_x86_kernel RET = Some (Member ''sp'')"
| "regs_core_x86_kernel FP = Some (Member ''bp'')"
| "regs_core_x86_kernel RC = Some (Member ''ax'')"
| "regs_core_x86_kernel SP = Some (Member ''sp'')"
| "regs_core_x86_kernel IP = Some (Member ''ip'')"

fun regs_x86_i386 :: "pt_reg \<Rightarrow> accessor option" where
  "regs_x86_i386 PARM1 = Some (Member ''eax'')"
| "regs_x86_i386 PARM2 = Some (Member ''edx'')"
| "regs_x86_i386 PARM3 = Some (Member ''ecx'')"
| "regs_x86_i386 PARM4 = Some Zero"
| "regs_x86_i386 PARM5 = Some Zero"
| "regs_x86_i386 RET = Some (Member ''esp'')"
| "regs_x86_i386 FP = Some (Member ''ebp'')"
| "regs_x86_i386 RC = Some (Member ''eax'')"
| "regs_x86_i386 SP = Some (Member ''esp'')"
| "regs_x86_i386 IP = Some (Member ''eip'')"

fun regs_core_x86_i386 :: "pt_reg \<Rightarrow> accessor option" where
  "regs_core_x86_i386 PARM1 = Some (Member ''eax'')"
| "regs_core_x86_i386 PARM2 = Some (Member ''edx'')"
| "regs_core_x86_i386 PARM3 = Some (Member ''ecx'')"
| "regs_core_x86_i386 PARM4 = Some Zero"
| "regs_core_x86_i386 PARM5 = Some Zero"
| "regs_core_x86_i386 RET = Some (Member ''esp'')"
| "regs_core_x86_i386 FP = Some (Member ''ebp'')"
| "regs_core_x86_i386 RC = Some (Member ''eax'')"
| "regs_core_x86_i386 SP = Some (Member ''esp'')"
| "regs_core_x86_i386 IP = Some (Member ''eip'')"

fun regs_x86_user :: "pt_reg \<Rightarrow> accessor option" where
  "regs_x86_user PARM1 = Some (Member ''rdi'')"
| "regs_x86_user PARM2 = Some (Member ''rsi'')"
| "regs_x86_user PARM3 = Some (Member ''rdx'')"
| "regs_x86_user PARM4 = Some (Member ''rcx'')"
| "regs_x86_user PARM5 = Some (Member ''r8'')"
| "regs_x86_user RET = Some (Member ''rsp'')"
| "regs_x86_user FP = Some (Member ''rbp'')"
| "regs_x86_user RC = Some (Member ''rax'')"
| "regs_x86_user SP = Some (Member ''rsp'')"
| "regs_x86_user IP = Some (Member ''rip'')"

fun regs_core_x86_user :: "pt_reg \<Rightarrow> accessor option" where
  "regs_core_x86_user PARM1 = Some (Member ''rdi'')"
| "regs_core_x86_user PARM2 = Some (Member ''rsi'')"
| "regs_core_x86_user PARM3 = Some (Member ''rdx'')"
| "regs_core_x86_user PARM4 = Some (Member ''rcx'')"
| "regs_core_x86_user PARM5 = Some (Member ''r8'')"
| "regs_core_x86_user RET = Some (Member ''rsp'')"
| "regs_core_x86_user FP = Some (Member ''rbp'')"
| "regs_core_x86_user RC = Some (Member ''rax'')"
| "regs_core_x86_user SP = Some (Member ''rsp'')"
| "regs_core_x86_user IP = Some (Member ''rip'')"

fun regs_s390 :: "pt_reg \<Rightarrow> accessor option" where
  "regs_s390 PARM1 = Some (Member ''gprs[2]'')"
| "regs_s390 PARM2 = Some (Member ''gprs[3]'')"
| "regs_s390 PARM3 = Some (Member ''gprs[4]'')"
| "regs_s390 PARM4 = Some (Member ''gprs[5]'')"
| "regs_s390 PARM5 = Some (Member ''gprs[6]'')"
| "regs_s390 RET = Some (Member ''gprs[14]'')"
| "regs_s390 FP = Some (Member ''gprs[11]'')"
| "regs_s390 RC = Some (Member ''gprs[2]'')"
| "regs_s390 SP = Some (Member ''gprs[15]'')"
| "regs_s390 IP = Some (Member ''psw.addr'')"

fun regs_core_s390 :: "pt_reg \<Rightarrow> accessor option" where
  "regs_core_s390 PARM1 = Some (Member ''gprs[2]'')"
| "regs_core_s390 PARM2 = Some (Member ''gprs[3]'')"
| "regs_core_s390 PARM3 = Some (Member ''gprs[4]'')"
| "regs_core_s390 PARM4 = Some (Member ''gprs[5]'')"
| "regs_core_s390 PARM5 = Some (Member ''gprs[6]'')"
| "regs_core_s390 RET = Some (Member ''gprs[14]'')"
| "regs_core_s390 FP = Some (Member ''gprs[11]'')"
| "regs_core_s390 RC = Some (Member ''gprs[2]'')"
| "regs_core_s390 SP = Some (Member ''gprs[15]'')"
| "regs_core_s390 IP = Some (Member ''psw.addr'')"

fun regs_arm :: "pt_reg \<Rightarrow> accessor option" where
  "regs_arm PARM1 = Some (Member ''uregs[0]'')"
| "regs_arm PARM2 = Some (Member ''uregs[1]'')"
| "regs_arm PARM3 = Some (Member ''uregs[2]'')"
| "regs_arm PARM4 = Some (Member ''uregs[3]'')"
| "regs_arm PARM5 = Some (Member ''uregs[4]'')"
| "regs_arm RET = Some (Member ''uregs[14]'')"
| "regs_arm FP = Some (Member ''uregs[11]'')"
| "regs_arm RC = Some (Member ''uregs[0]'')"
| "regs_arm SP = Some (Member ''uregs[13]'')"
| "regs_arm IP = Some (Member ''uregs[12]'')"

fun regs_core_arm :: "pt_reg \<Rightarrow> accessor option" where
  "regs_core_arm PARM1 = Some (Member ''uregs[0]'')"
| "regs_core_arm PARM2 = Some (Member ''uregs[1]'')"
| "regs_core_arm PARM3 = Some (Member ''uregs[2]'')"
| "regs_core_arm PARM4 = Some (Member ''uregs[3]'')"
| "regs_core_arm PARM5 = Some (Member ''uregs[4]'')"
| "regs_core_arm RET = Some (Member ''uregs[14]'')"
| "regs_core_arm FP = Some (Member ''uregs[11]'')"
| "regs_core_arm RC = Some (Member ''uregs[0]'')"
| "regs_core_arm SP = Some (Member ''uregs[13]'')"
| "regs_core_arm IP = Some (Member ''uregs[12]'')"

fun regs_arm64 :: "pt_reg \<Rightarrow> accessor option" where
  "regs_arm64 PARM1 = Some (Member ''regs[0]'')"
| "regs_arm64 PARM2 = Some (Member ''regs[1]'')"
| "regs_arm64 PARM3 = Some (Member ''regs[2]'')"
| "regs_arm64 PARM4 = Some (Member ''regs[3]'')"
| "regs_arm64 PARM5 = Some (Member ''regs[4]'')"
| "regs_arm64 RET = Some (Member ''regs[30]'')"
| "regs_arm64 FP = Some (Member ''regs[29]'')"
| "regs_arm64 RC = Some (Member ''regs[0]'')"
| "regs_arm64 SP = Some (Member ''sp'')"
| "regs_arm64 IP = Some (Member ''pc'')"

fun regs_core_arm64 :: "pt_reg \<Rightarrow> accessor option" where
  "regs_core_arm64 PARM1 = Some (Member ''regs[0]'')"
| "regs_core_arm64 PARM2 = Some (Member ''regs[1]'')"
| "regs_core_arm64 PARM3 = Some (Member ''regs[2]'')"
| "regs_core_arm64 PARM4 = Some (Member ''regs[3]'')"
| "regs_core_arm64 PARM5 = Some (Member ''regs[4]'')"
| "regs_core_arm64 RET = Some (Member ''regs[30]'')"
| "regs_core_arm64 FP = Some (Member ''regs[29]'')"
| "regs_core_arm64 RC = Some (Member ''regs[0]'')"
| "regs_core_arm64 SP = Some (Member ''sp'')"
| "regs_core_arm64 IP = Some (Member ''pc'')"

fun regs_mips :: "pt_reg \<Rightarrow> accessor option" where
  "regs_mips PARM1 = Some (Member ''regs[4]'')"
| "regs_mips PARM2 = Some (Member ''regs[5]'')"
| "regs_mips PARM3 = Some (Member ''regs[6]'')"
| "regs_mips PARM4 = Some (Member ''regs[7]'')"
| "regs_mips PARM5 = Some (Member ''regs[8]'')"
| "regs_mips RET = Some (Member ''regs[31]'')"
| "regs_mips FP = Some (Member ''regs[30]'')"
| "regs_mips RC = Some (Member ''regs[2]'')"
| "regs_mips SP = Some (Member ''regs[29]'')"
| "regs_mips IP = Some (Member ''cp0_epc'')"

fun regs_core_mips :: "pt_reg \<Rightarrow> accessor option" where
  "regs_core_mips PARM1 = Some (Member ''regs[4]'')"
| "regs_core_mips PARM2 = Some (Member ''regs[5]'')"
| "regs_core_mips PARM3 = Some (Member ''regs[6]'')"
| "regs_core_mips PARM4 = Some (Member ''regs[7]'')"
| "regs_core_mips PARM5 = Some (Member ''regs[8]'')"
| "regs_core_mips RET = Some (Member ''regs[31]'')"
| "regs_core_mips FP = Some (Member ''regs[30]'')"
| "regs_core_mips RC = Some (Member ''regs[2]'')"
| "regs_core_mips SP = Some (Member ''regs[29]'')"
| "regs_core_mips IP = Some (Member ''cp0_epc'')"

fun regs_powerpc :: "pt_reg \<Rightarrow> accessor option" where
  "regs_powerpc PARM1 = Some (Member ''gpr[3]'')"
| "regs_powerpc PARM2 = Some (Member ''gpr[4]'')"
| "regs_powerpc PARM3 = Some (Member ''gpr[5]'')"
| "regs_powerpc PARM4 = Some (Member ''gpr[6]'')"
| "regs_powerpc PARM5 = Some (Member ''gpr[7]'')"
| "regs_powerpc RET = None"
| "regs_powerpc FP = None"
| "regs_powerpc RC = Some (Member ''gpr[3]'')"
| "regs_powerpc SP = Some (Member ''sp'')"
| "regs_powerpc IP = Some (Member ''nip'')"

fun regs_core_powerpc :: "pt_reg \<Rightarrow> accessor option" where
  "regs_core_powerpc PARM1 = Some (Member ''gpr[3]'')"
| "regs_core_powerpc PARM2 = Some (Member ''gpr[4]'')"
| "regs_core_powerpc PARM3 = Some (Member ''gpr[5]'')"
| "regs_core_powerpc PARM4 = Some (Member ''gpr[6]'')"
| "regs_core_powerpc PARM5 = Some (Member ''gpr[7]'')"
| "regs_core_powerpc RET = None"
| "regs_core_powerpc FP = None"
| "regs_core_powerpc RC = Some (Member ''gpr[3]'')"
| "regs_core_powerpc SP = Some (Member ''sp'')"
| "regs_core_powerpc IP = Some (Member ''nip'')"

fun regs_sparc :: "bool \<Rightarrow> pt_reg \<Rightarrow> accessor option" where
  "regs_sparc arch64 PARM1 = Some (Member ''u_regs[UREG_I0]'')"
| "regs_sparc arch64 PARM2 = Some (Member ''u_regs[UREG_I1]'')"
| "regs_sparc arch64 PARM3 = Some (Member ''u_regs[UREG_I2]'')"
| "regs_sparc arch64 PARM4 = Some (Member ''u_regs[UREG_I3]'')"
| "regs_sparc arch64 PARM5 = Some (Member ''u_regs[UREG_I4]'')"
| "regs_sparc arch64 RET = Some (Member ''u_regs[UREG_I7]'')"
| "regs_sparc arch64 FP = None"
| "regs_sparc arch64 RC = Some (Member ''u_regs[UREG_I0]'')"
| "regs_sparc arch64 SP = Some (Member ''u_regs[UREG_FP]'')"
| "regs_sparc arch64 IP = Some (Member (if arch64 then ''tpc'' else ''pc''))"

fun regs_core_sparc :: "bool \<Rightarrow> pt_reg \<Rightarrow> accessor option" where
  "regs_core_sparc arch64 PARM1 = Some (Member ''u_regs[UREG_I0]'')"
| "regs_core_sparc arch64 PARM2 = Some (Member ''u_regs[UREG_I1]'')"
| "regs_core_sparc arch64 PARM3 = Some (Member ''u_regs[UREG_I2]'')"
| "regs_core_sparc arch64 PARM4 = Some (Member ''u_regs[UREG_I3]'')"
| "regs_core_sparc arch64 PARM5 = Some (Member ''u_regs[UREG_I4]'')"
| "regs_core_sparc arch64 RET = Some (Member ''u_regs[UREG_I7]'')"
| "regs_core_sparc arch64 FP = None"
| "regs_core_sparc arch64 RC = Some (Member ''u_regs[UREG_I0]'')"
| "regs_core_sparc arch64 SP = Some (Member ''u_regs[UREG_FP]'')"
| "regs_core_sparc arch64 IP = Some (Member (if arch64 then ''tpc'' else ''pc''))"

fun regs_riscv :: "pt_reg \<Rightarrow> accessor option" where
  "regs_riscv PARM1 = Some (Member ''a0'')"
| "regs_riscv PARM2 = Some (Member ''a1'')"
| "regs_riscv PARM3 = Some (Member ''a2'')"
| "regs_riscv PARM4 = Some (Member ''a3'')"
| "regs_riscv PARM5 = Some (Member ''a4'')"
| "regs_riscv RET = Some (Member ''ra'')"
| "regs_riscv FP = Some (Member ''s5'')"
| "regs_riscv RC = Some (Member ''a5'')"
| "regs_riscv SP = Some (Member ''sp'')"
| "regs_riscv IP = Some (Member ''epc'')"

fun regs_core_riscv :: "pt_reg \<Rightarrow> accessor option" where
  "regs_core_riscv PARM1 = Some (Member ''a0'')"
| "regs_core_riscv PARM2 = Some (Member ''a1'')"
| "regs_core_riscv PARM3 = Some (Member ''a2'')"
| "regs_core_riscv PARM4 = Some (Member ''a3'')"
| "regs_core_riscv PARM5 = Some (Member ''a4'')"
| "regs_core_riscv RET = Some (Member ''ra'')"
| "regs_core_riscv FP = Some (Member ''fp'')"
| "regs_core_riscv RC = Some (Member ''a5'')"
| "regs_core_riscv SP = Some (Member ''sp'')"
| "regs_core_riscv IP = Some (Member ''epc'')"

text \<open>The choice between the tables by the conditions of the header.\<close>

definition x86_regs :: "string list \<Rightarrow> pt_reg \<Rightarrow> accessor option" where
  "x86_regs defs = (if ''__KERNEL__'' \<in> set defs \<or> ''__VMLINUX_H__'' \<in> set defs then regs_x86_kernel
     else if ''__i386__'' \<in> set defs then regs_x86_i386 else regs_x86_user)"

definition x86_regs_core :: "string list \<Rightarrow> pt_reg \<Rightarrow> accessor option" where
  "x86_regs_core defs = (if ''__KERNEL__'' \<in> set defs \<or> ''__VMLINUX_H__'' \<in> set defs then regs_core_x86_kernel
     else if ''__i386__'' \<in> set defs then regs_core_x86_i386 else regs_core_x86_user)"

definition PT_REGS :: "string list \<Rightarrow> target_arch option \<Rightarrow> pt_reg \<Rightarrow> accessor option" where
  "PT_REGS defs t = (case t of
     None \<Rightarrow> (\<lambda>r. Some Missing_Target)
   | Some T_x86 \<Rightarrow> x86_regs defs | Some T_s390 \<Rightarrow> regs_s390 | Some T_arm \<Rightarrow> regs_arm | Some T_arm64 \<Rightarrow> regs_arm64
   | Some T_mips \<Rightarrow> regs_mips | Some T_powerpc \<Rightarrow> regs_powerpc
   | Some T_sparc \<Rightarrow> regs_sparc (''__arch64__'' \<in> set defs) | Some T_riscv \<Rightarrow> regs_riscv)"

definition PT_REGS_CORE :: "string list \<Rightarrow> target_arch option \<Rightarrow> pt_reg \<Rightarrow> accessor option" where
  "PT_REGS_CORE defs t = (case t of
     None \<Rightarrow> (\<lambda>r. Some Missing_Target)
   | Some T_x86 \<Rightarrow> x86_regs_core defs | Some T_s390 \<Rightarrow> regs_core_s390 | Some T_arm \<Rightarrow> regs_core_arm
   | Some T_arm64 \<Rightarrow> regs_core_arm64 | Some T_mips \<Rightarrow> regs_core_mips | Some T_powerpc \<Rightarrow> regs_core_powerpc
   | Some T_sparc \<Rightarrow> regs_core_sparc (''__arch64__'' \<in> set defs) | Some T_riscv \<Rightarrow> regs_core_riscv)"

subsection \<open>Return addresses\<close>

text \<open>A member of the context, a register, or memory at a register plus an offset.\<close>

datatype ip_source = Ip_Member string | Ip_Reg pt_reg | Ip_Memory pt_reg nat

definition BPF_KPROBE_READ_RET_IP :: "target_arch option \<Rightarrow> ip_source option" where
  "BPF_KPROBE_READ_RET_IP t = (case t of
     None \<Rightarrow> None
   | Some T_powerpc \<Rightarrow> Some (Ip_Member ''link'')
   | Some T_sparc \<Rightarrow> Some (Ip_Reg RET)
   | Some _ \<Rightarrow> Some (Ip_Memory RET 0))"

definition BPF_KRETPROBE_READ_RET_IP :: "nat \<Rightarrow> target_arch option \<Rightarrow> ip_source option" where
  "BPF_KRETPROBE_READ_RET_IP sizeof_ip t = (case t of
     None \<Rightarrow> None
   | Some T_powerpc \<Rightarrow> BPF_KPROBE_READ_RET_IP t
   | Some T_sparc \<Rightarrow> BPF_KPROBE_READ_RET_IP t
   | Some _ \<Rightarrow> Some (Ip_Memory FP sizeof_ip))"

subsection \<open>Arguments of probe functions\<close>

datatype parg = P_Ctx | P_Elem nat | P_Reg pt_reg

text \<open>The families \<^verbatim>\<open>___bpf_ctx_cast0\<close> to \<^verbatim>\<open>12\<close>, \<^verbatim>\<open>___bpf_kprobe_args0\<close> to \<^verbatim>\<open>5\<close> and
  \<^verbatim>\<open>___bpf_kretprobe_args0\<close> to \<^verbatim>\<open>1\<close>.\<close>

fun bpf_ctx_castN :: "nat \<Rightarrow> 'a list \<Rightarrow> parg list option" where
  "bpf_ctx_castN 0 [] = Some [P_Ctx]"
| "bpf_ctx_castN (Suc n) (x # args) = map_option (\<lambda>ps. ps @ [P_Elem n]) (bpf_ctx_castN n args)"
| "bpf_ctx_castN _ _ = None"

definition bpf_ctx_cast :: "'a list \<Rightarrow> parg list option" where
  "bpf_ctx_cast args = (case bpf_narg args of
     Some (Lit n) \<Rightarrow> if n \<le> 12 then bpf_ctx_castN n args else None
   | _ \<Rightarrow> None)"

fun bpf_kprobe_argsN :: "nat \<Rightarrow> 'a list \<Rightarrow> parg list option" where
  "bpf_kprobe_argsN 0 [] = Some [P_Ctx]"
| "bpf_kprobe_argsN (Suc n) (x # args) =
     (if n < 5 then map_option (\<lambda>ps. ps @ [P_Reg ([PARM1, PARM2, PARM3, PARM4, PARM5] ! n)]) (bpf_kprobe_argsN n args)
      else None)"
| "bpf_kprobe_argsN _ _ = None"

definition bpf_kprobe_args :: "'a list \<Rightarrow> parg list option" where
  "bpf_kprobe_args args = (case bpf_narg args of
     Some (Lit n) \<Rightarrow> if n \<le> 5 then bpf_kprobe_argsN n args else None
   | _ \<Rightarrow> None)"

definition bpf_kretprobe_args :: "'a list \<Rightarrow> parg list option" where
  "bpf_kretprobe_args args = (case bpf_narg args of
     Some (Lit n) \<Rightarrow>
       (if n = 0 then Some [P_Ctx] else if n = 1 then Some [P_Ctx, P_Reg RC] else None)
   | _ \<Rightarrow> None)"

text \<open>The call of the user's function inside the generated one.\<close>

definition BPF_PROG :: "'a list \<Rightarrow> parg list option" where
  "BPF_PROG args = bpf_ctx_cast args"

definition BPF_KPROBE :: "'a list \<Rightarrow> parg list option" where
  "BPF_KPROBE args = bpf_kprobe_args args"

definition BPF_KRETPROBE :: "'a list \<Rightarrow> parg list option" where
  "BPF_KRETPROBE args = bpf_kretprobe_args args"

subsection \<open>The register structs of vmlinux.h\<close>

definition user_pt_regs :: ctype where
  "user_pt_regs = CStruct
     [Fld ''regs'' (CArr (CInt 8) 31), Fld ''sp'' (CInt 8), Fld ''pc'' (CInt 8), Fld ''pstate'' (CInt 8)]"

definition pt_regs :: ctype where
  "pt_regs = CStruct
     [Fld '''' (CUnion
        [Fld ''user_regs'' user_pt_regs,
         Fld '''' (CStruct [Fld ''regs'' (CArr (CInt 8) 31), Fld ''sp'' (CInt 8), Fld ''pc'' (CInt 8),
           Fld ''pstate'' (CInt 8)])]),
      Fld ''orig_x0'' (CInt 8), Fld ''syscallno'' (CInt 4), Fld ''unused2'' (CInt 4),
      Fld ''sdei_ttbr1'' (CInt 8), Fld ''pmr_save'' (CInt 8), Fld ''stackframe'' (CArr (CInt 8) 2),
      Fld ''lockdep_hardirqs'' (CInt 8), Fld ''exit_rcu'' (CInt 8)]"

text \<open>Whether the member an accessor names, without its subscript, is a member of a struct.\<close>

fun in_struct :: "ctype \<Rightarrow> accessor option \<Rightarrow> bool" where
  "in_struct t (Some (Member m)) = (locate t (takeWhile (\<lambda>c. c \<noteq> CHR ''['') m) 0 \<noteq> None)"
| "in_struct t _ = False"

definition all_regs :: "pt_reg list" where
  "all_regs = [PARM1, PARM2, PARM3, PARM4, PARM5, RET, FP, RC, SP, IP]"

subsection \<open>Lemmas\<close>

text \<open>The names a struct makes visible, those of its anonymous members included.\<close>

fun member_names :: "ctype \<Rightarrow> string list"
  and field_names :: "cfield list \<Rightarrow> string list" where
  "member_names (CInt n) = []"
| "member_names CPtr = []"
| "member_names (CArr t n) = []"
| "member_names (CStruct fs) = field_names fs"
| "member_names (CUnion fs) = field_names fs"
| "field_names [] = []"
| "field_names (Fld x t # fs) = x # (if x = '''' then member_names t else []) @ field_names fs"
| "field_names (Bits x b w # fs) = x # field_names fs"

lemma locate_member_names:
  "(locate t f pos \<noteq> None) = (f \<in> set (member_names t))"
  "(locate_struct fs f pos \<noteq> None) = (f \<in> set (field_names fs))"
  "(locate_union fs f pos \<noteq> None) = (f \<in> set (field_names fs))"
  by (induction t f pos and fs f pos and fs f pos rule: locate_locate_struct_locate_union.induct)
    (auto simp: Let_def split: option.splits if_splits)

lemma in_struct_member_names:
  "in_struct t (Some (Member m)) = (takeWhile (\<lambda>c. c \<noteq> CHR ''['') m \<in> set (member_names t))"
  by (simp only: in_struct.simps locate_member_names(1))

lemma user_pt_regs_names: "member_names user_pt_regs = [''regs'', ''sp'', ''pc'', ''pstate'']"
  by (simp add: user_pt_regs_def)

lemma pt_regs_names:
  "member_names pt_regs = ['''', ''user_regs'', '''', ''regs'', ''sp'', ''pc'', ''pstate'', ''orig_x0'', ''syscallno'',
     ''unused2'', ''sdei_ttbr1'', ''pmr_save'', ''stackframe'', ''lockdep_hardirqs'', ''exit_rcu'']"
  by (simp add: pt_regs_def)

text \<open>The two variants of each table.\<close>

lemma regs_core_eq:
  "regs_core_x86_kernel r = regs_x86_kernel r" "regs_core_x86_i386 r = regs_x86_i386 r"
  "regs_core_x86_user r = regs_x86_user r" "regs_core_s390 r = regs_s390 r" "regs_core_arm r = regs_arm r"
  "regs_core_arm64 r = regs_arm64 r" "regs_core_mips r = regs_mips r" "regs_core_powerpc r = regs_powerpc r"
  "regs_core_sparc b r = regs_sparc b r" "(regs_riscv r = regs_core_riscv r) = (r \<noteq> FP)"
  by (cases r; simp)+

lemma bpf_ctx_castN_eq: "bpf_ctx_castN (length args) args = Some (P_Ctx # map P_Elem [0..<length args])"
  by (induction args) simp_all

lemma bpf_kprobe_argsN_eq:
  "length args \<le> 5 \<Longrightarrow> bpf_kprobe_argsN (length args) args =
     Some (P_Ctx # map P_Reg (take (length args) [PARM1, PARM2, PARM3, PARM4, PARM5]))"
proof (induction args)
  case (Cons x args)
  then have "take (Suc (length args)) [PARM1, PARM2, PARM3, PARM4, PARM5] =
    take (length args) [PARM1, PARM2, PARM3, PARM4, PARM5] @ [[PARM1, PARM2, PARM3, PARM4, PARM5] ! length args]"
    by (intro take_Suc_conv_app_nth) simp
  with Cons show ?case by simp
qed simp

subsection \<open>Properties of the tracing macros\<close>

text \<open>
  C35. The direct accessor and its relocatable variant name the same member of the register struct on
  every target and for every register but one: the frame pointer of RISC-V, where one reads s5 and
  the other fp. On arm64 every accessor is a member of the struct of \<^verbatim>\<open>vmlinux.h\<close>; the x86 accessors
  are not, since that file describes an arm64 kernel, except for the stack pointer.
\<close>

theorem pt_regs_direct_and_core_agree:
  "(PT_REGS defs t r = PT_REGS_CORE defs t r) = (\<not> (t = Some T_riscv \<and> r = FP)) \<and>
   list_all (\<lambda>r. in_struct user_pt_regs (PT_REGS defs (Some T_arm64) r)) all_regs \<and>
   filter (\<lambda>r. in_struct pt_regs (PT_REGS [''__VMLINUX_H__''] (Some T_x86) r)) all_regs = [RET, SP]"
proof -
  have "(PT_REGS defs t r = PT_REGS_CORE defs t r) = (\<not> (t = Some T_riscv \<and> r = FP))"
    by (auto simp: PT_REGS_def PT_REGS_CORE_def x86_regs_def x86_regs_core_def regs_core_eq
        split: option.splits target_arch.splits)
  moreover have "list_all (\<lambda>r. in_struct user_pt_regs (PT_REGS defs (Some T_arm64) r)) all_regs"
    by (simp add: PT_REGS_def all_regs_def in_struct_member_names user_pt_regs_names del: in_struct.simps)
  moreover have "filter (\<lambda>r. in_struct pt_regs (PT_REGS [''__VMLINUX_H__''] (Some T_x86) r)) all_regs = [RET, SP]"
    by (simp add: PT_REGS_def x86_regs_def all_regs_def in_struct_member_names pt_regs_names del: in_struct.simps)
  ultimately show ?thesis by blast
qed

text \<open>
  A program declared with \<^verbatim>\<open>BPF_PROG\<close> receives the context and then the elements of the context
  array in order, for up to twelve arguments; one declared with \<^verbatim>\<open>BPF_KPROBE\<close> the context and the
  argument registers in order, for up to five; one declared with \<^verbatim>\<open>BPF_KRETPROBE\<close> at most the
  return value. More arguments do not compile.
\<close>

lemma probe_arguments_in_order:
  "BPF_PROG args = (if length args \<le> 12 then Some (P_Ctx # map P_Elem [0..<length args]) else None) \<and>
   BPF_KPROBE args = (if length args \<le> 5
     then Some (P_Ctx # map P_Reg (take (length args) [PARM1, PARM2, PARM3, PARM4, PARM5])) else None) \<and>
   BPF_KRETPROBE args = (if length args \<le> 1 then Some (P_Ctx # replicate (length args) (P_Reg RC)) else None)"
proof -
  consider "args = []" | x where "args = [x]" | "2 \<le> length args"
    by (cases args rule: remdups_adj.cases) auto
  then show ?thesis
    by cases (auto simp: BPF_PROG_def BPF_KPROBE_def BPF_KRETPROBE_def bpf_ctx_cast_def bpf_kprobe_args_def
        bpf_kretprobe_args_def bpf_narg_eq bpf_ctx_castN_eq bpf_kprobe_argsN_eq)
qed

end
