(* ===== verification/Proxy.thy ===== *)
theory Proxy
  imports Go_Std "HOL-Library.Monad_Syntax"
begin

text \<open>
  The test proxy of \<^verbatim>\<open>src/testing/proxy\<close>: it reads the beginning of a connection, finds the host in the
  SNI extension of a TLS ClientHello or in an HTTP Host header, dials that host and forwards what it
  read and the rest. Modelled are both parsers, the reading of the connection and the handler up to
  the point where the two copy loops take over, with the functions of the Go library they call.
  An index or slice out of range is \<open>None\<close>, a panic. The code compares with the length of a slice
  before every access, and the length is at most the capacity, so \<open>None\<close> is defined by the length.
\<close>

subsection \<open>Constants\<close>

definition tlsRecordHandshake :: u8 where "tlsRecordHandshake = 0x16"
definition tlsHandshakeClientHello :: u8 where "tlsHandshakeClientHello = 0x01"
definition tlsExtSNI :: nat where "tlsExtSNI = 0"
definition tlsRecordHdrTail :: nat where "tlsRecordHdrTail = 4"
definition tlsRecordLenOffset :: nat where "tlsRecordLenOffset = 2"
definition tlsHandshakeHdrLen :: nat where "tlsHandshakeHdrLen = 4"
definition tlsExtHdrLen :: nat where "tlsExtHdrLen = 4"
definition clientHelloMinLen :: nat where "clientHelloMinLen = 35"
definition clientHelloRandOffset :: nat where "clientHelloRandOffset = 34"
definition sniExtMinLen :: nat where "sniExtMinLen = 5"
definition sniNameLenOffset :: nat where "sniNameLenOffset = 3"
definition sniNameOffset :: nat where "sniNameOffset = 5"
definition httpsPort :: string where "httpsPort = ''443''"
definition httpPort :: string where "httpPort = ''80''"
definition httpReadBufSize :: nat where "httpReadBufSize = 4096"
definition httpMaxHeaderBuf :: nat where "httpMaxHeaderBuf = 16384"
definition crlf :: bytes where "crlf = [13, 10]"
definition needle :: bytes where "needle = crlf @ bytes_of ''host: ''"

lemmas proxy_consts = tlsRecordHandshake_def tlsHandshakeClientHello_def tlsExtSNI_def tlsRecordHdrTail_def
  tlsRecordLenOffset_def tlsHandshakeHdrLen_def tlsExtHdrLen_def clientHelloMinLen_def clientHelloRandOffset_def
  sniExtMinLen_def sniNameLenOffset_def sniNameOffset_def

subsection \<open>Slices and connections\<close>

definition slice :: "nat \<Rightarrow> nat \<Rightarrow> bytes \<Rightarrow> bytes option" where
  "slice lo hi s = (if lo \<le> hi \<and> hi \<le> length s then Some (read_at lo (hi - lo) s) else None)"

definition index :: "nat \<Rightarrow> bytes \<Rightarrow> u8 option" where
  "index i s = (if i < length s then Some (s ! i) else None)"

text \<open>
  A connection is what its successive reads deliver: bytes, and whether the read ends with an error
  (end of file, deadline). After an error, and after the list, every read fails.
\<close>

type_synonym conn = "(bytes \<times> bool) list"

fun conn_bytes :: "conn \<Rightarrow> bytes" where
  "conn_bytes [] = []"
| "conn_bytes ((b, err) # c) = b @ (if err then [] else conn_bytes c)"

fun conn_Read :: "nat \<Rightarrow> conn \<Rightarrow> bytes \<times> bool \<times> conn" where
  "conn_Read n [] = ([], True, [])"
| "conn_Read n ((b, err) # c) =
     (if length b \<le> n then (b, err, if err then [] else c) else (take n b, False, (drop n b, err) # c))"

text \<open>\<^verbatim>\<open>io.ReadFull\<close>: \<open>None\<close> is its error.\<close>

fun ReadFull :: "nat \<Rightarrow> conn \<Rightarrow> bytes option \<times> conn" where
  "ReadFull n [] = (if n = 0 then Some [] else None, [])"
| "ReadFull n ((b, err) # c) =
     (if n = 0 then (Some [], (b, err) # c)
      else if n < length b then (Some (take n b), (drop n b, err) # c)
      else if length b = n then (Some b, if err then [] else c)
      else if err then (None, [])
      else case ReadFull (n - length b) c of (r, c') \<Rightarrow> (map_option ((@) b) r, c'))"

subsection \<open>Server name indication\<close>

text \<open>The loop over the extensions; \<open>pos\<close> and \<open>end'\<close> are the variables of the source.\<close>

function sni_loop :: "bytes \<Rightarrow> nat \<Rightarrow> nat \<Rightarrow> string option" where
  "sni_loop hello end' pos =
     (if pos + tlsExtHdrLen \<le> end' then do {
        t \<leftarrow> slice pos (pos + 2) hello;
        l \<leftarrow> slice (pos + 2) (pos + tlsExtHdrLen) hello;
        let extType = from_be t; extLen = from_be l; p = pos + tlsExtHdrLen in
        if end' < p + extLen then Some []
        else if extType = tlsExtSNI \<and> sniExtMinLen \<le> extLen then do {
          ext \<leftarrow> slice p (p + extLen) hello;
          n \<leftarrow> slice sniNameLenOffset (sniNameLenOffset + 2) ext;
          let nameLen = from_be n in
          if sniNameOffset + nameLen \<le> length ext
          then map_option string_of (slice sniNameOffset (sniNameOffset + nameLen) ext)
          else sni_loop hello end' (p + extLen)
        }
        else sni_loop hello end' (p + extLen)
      }
      else Some [])"
  by pat_completeness auto

termination sni_loop
  by (relation "measure (\<lambda>(hello, end', pos). end' - pos)") (auto simp: tlsExtHdrLen_def)

declare sni_loop.simps [simp del]

definition parseSNI :: "bytes \<Rightarrow> string option" where
  "parseSNI hello =
     (if length hello < clientHelloMinLen then Some []
      else let pos = clientHelloRandOffset in
        if length hello < pos + 1 then Some []
        else do {
          sessLen \<leftarrow> index pos hello;
          let pos = pos + 1 + unat sessLen in
          if length hello < pos + 2 then Some []
          else do {
            cipherLen \<leftarrow> slice pos (pos + 2) hello;
            let pos = pos + 2 + from_be cipherLen in
            if length hello < pos + 1 then Some []
            else do {
              compLen \<leftarrow> index pos hello;
              let pos = pos + 1 + unat compLen in
              if length hello < pos + 2 then Some []
              else do {
                extTotal \<leftarrow> slice pos (pos + 2) hello;
                let pos = pos + 2; end' = pos + from_be extTotal in
                sni_loop hello (if length hello < end' then length hello else end') pos
              }
            }
          }
        })"

text \<open>What the two extraction functions return: the host, the bytes read, and whether an error.\<close>

type_synonym extracted = "string \<times> bytes \<times> bool"

definition extractSNI :: "conn \<Rightarrow> u8 \<Rightarrow> (extracted \<times> conn) option" where
  "extractSNI c firstByte = (case ReadFull tlsRecordHdrTail c of
     (None, c) \<Rightarrow> Some (([], [], True), c)
   | (Some hdr, c) \<Rightarrow> do {
       rl \<leftarrow> slice tlsRecordLenOffset tlsRecordHdrTail hdr;
       case ReadFull (from_be rl) c of
         (None, c) \<Rightarrow> Some (([], [], True), c)
       | (Some recData, c) \<Rightarrow> (let peeked = [firstByte] @ hdr @ recData in
           if length recData < tlsHandshakeHdrLen \<or> recData ! 0 \<noteq> tlsHandshakeClientHello
           then Some (([], peeked, False), c)
           else do {
             b1 \<leftarrow> index 1 recData; b2 \<leftarrow> index 2 recData; b3 \<leftarrow> index 3 recData;
             let hsLen = unat b1 * 2 ^ 16 + unat b2 * 2 ^ 8 + unat b3 in
             if length recData < tlsHandshakeHdrLen + hsLen then Some (([], peeked, False), c)
             else do {
               hello \<leftarrow> slice tlsHandshakeHdrLen (tlsHandshakeHdrLen + hsLen) recData;
               host \<leftarrow> parseSNI hello;
               Some ((host, peeked, False), c)
             }
           })
     })"

subsection \<open>Packages unicode/utf8, unicode and bytes\<close>

definition RuneError :: nat where "RuneError = 0xFFFD"

definition cont :: "u8 \<Rightarrow> bool" where "cont b \<longleftrightarrow> 0x80 \<le> b \<and> b \<le> 0xBF"

text \<open>The rune at the front of a byte string and its width; a byte that starts no rune is an error of width 1.\<close>

definition DecodeRune :: "bytes \<Rightarrow> nat \<times> nat" where
  "DecodeRune s = (case s of
     [] \<Rightarrow> (RuneError, 0)
   | b0 # r \<Rightarrow>
       if b0 < 0x80 then (unat b0, 1)
       else if 0xC2 \<le> b0 \<and> b0 \<le> 0xDF then
         (case r of b1 # _ \<Rightarrow> if cont b1 then ((unat b0 mod 32) * 64 + unat b1 mod 64, 2) else (RuneError, 1)
          | _ \<Rightarrow> (RuneError, 1))
       else if 0xE0 \<le> b0 \<and> b0 \<le> 0xEF then
         (case r of b1 # b2 # _ \<Rightarrow>
            if cont b1 \<and> (b0 = 0xE0 \<longrightarrow> 0xA0 \<le> b1) \<and> (b0 = 0xED \<longrightarrow> b1 \<le> 0x9F) \<and> cont b2
            then ((unat b0 mod 16) * 4096 + (unat b1 mod 64) * 64 + unat b2 mod 64, 3) else (RuneError, 1)
          | _ \<Rightarrow> (RuneError, 1))
       else if 0xF0 \<le> b0 \<and> b0 \<le> 0xF4 then
         (case r of b1 # b2 # b3 # _ \<Rightarrow>
            if cont b1 \<and> (b0 = 0xF0 \<longrightarrow> 0x90 \<le> b1) \<and> (b0 = 0xF4 \<longrightarrow> b1 \<le> 0x8F) \<and> cont b2 \<and> cont b3
            then ((unat b0 mod 8) * 262144 + (unat b1 mod 64) * 4096 + (unat b2 mod 64) * 64 + unat b3 mod 64, 4)
            else (RuneError, 1)
          | _ \<Rightarrow> (RuneError, 1))
       else (RuneError, 1))"

definition EncodeRune :: "nat \<Rightarrow> bytes" where
  "EncodeRune r0 =
     (let r = (if 0x10FFFF < r0 \<or> 0xD800 \<le> r0 \<and> r0 \<le> 0xDFFF then RuneError else r0) in
      if r < 0x80 then [word_of_nat r]
      else if r < 0x800 then [word_of_nat (0xC0 + r div 64), word_of_nat (0x80 + r mod 64)]
      else if r < 0x10000 then
        [word_of_nat (0xE0 + r div 4096), word_of_nat (0x80 + r div 64 mod 64), word_of_nat (0x80 + r mod 64)]
      else [word_of_nat (0xF0 + r div 262144), word_of_nat (0x80 + r div 4096 mod 64),
        word_of_nat (0x80 + r div 64 mod 64), word_of_nat (0x80 + r mod 64)])"

text \<open>
  \<^verbatim>\<open>unicode.ToLower\<close>; the Unicode tables for runes above ASCII are the argument \<open>lower\<close>.
\<close>

definition rune_ToLower :: "(nat \<Rightarrow> nat) \<Rightarrow> nat \<Rightarrow> nat" where
  "rune_ToLower lower r = (if r < 128 then if 65 \<le> r \<and> r \<le> 90 then r + 32 else r else lower r)"

definition ascii_ToLower :: "u8 \<Rightarrow> u8" where
  "ascii_ToLower c = (if 65 \<le> c \<and> c \<le> 90 then c + 32 else c)"

lemma DecodeRune_width: "DecodeRune s = (r, wid) \<Longrightarrow> s \<noteq> [] \<Longrightarrow> 0 < wid"
  by (auto simp: DecodeRune_def split: list.splits if_splits)

function bytes_Map :: "(nat \<Rightarrow> nat) \<Rightarrow> bytes \<Rightarrow> bytes" where
  "bytes_Map f s = (if s = [] then []
     else case DecodeRune s of (r, wid) \<Rightarrow> EncodeRune (f r) @ bytes_Map f (drop wid s))"
  by pat_completeness auto

termination bytes_Map
  by (relation "measure (length \<circ> snd)") (auto dest: DecodeRune_width [OF sym])

declare bytes_Map.simps [simp del]

definition bytes_ToLower :: "(nat \<Rightarrow> nat) \<Rightarrow> bytes \<Rightarrow> bytes" where
  "bytes_ToLower lower s =
     (if list_all (\<lambda>c. c < 0x80) s then map ascii_ToLower s else bytes_Map (rune_ToLower lower) s)"

fun bytes_Index :: "bytes \<Rightarrow> bytes \<Rightarrow> nat option" where
  "bytes_Index [] sep = (if sep = [] then Some 0 else None)"
| "bytes_Index (x # s) sep =
     (if take (length sep) (x # s) = sep then Some 0 else map_option Suc (bytes_Index s sep))"

fun bytes_IndexByte :: "bytes \<Rightarrow> u8 \<Rightarrow> nat option" where
  "bytes_IndexByte [] b = None"
| "bytes_IndexByte (x # s) b = (if x = b then Some 0 else map_option Suc (bytes_IndexByte s b))"

definition ascii_space :: "u8 \<Rightarrow> bool" where
  "ascii_space c \<longleftrightarrow> c \<in> {9, 10, 11, 12, 13, 32}"

definition rune_IsSpace :: "nat \<Rightarrow> bool" where
  "rune_IsSpace r \<longleftrightarrow> r \<in> {9, 10, 11, 12, 13, 32, 0x85, 0xA0, 0x1680, 0x2028, 0x2029, 0x202F, 0x205F, 0x3000} \<or>
     (0x2000 \<le> r \<and> r \<le> 0x200A)"

text \<open>\<^verbatim>\<open>utf8.DecodeLastRune\<close> looks back over at most three continuation bytes for the start of the rune.\<close>

definition DecodeLastRune :: "bytes \<Rightarrow> nat \<times> nat" where
  "DecodeLastRune s =
     (if s = [] then (RuneError, 0)
      else let n = length s in
        if last s < 0x80 then (unat (last s), 1)
        else let starts = filter (\<lambda>i. n - 4 \<le> i \<and> \<not> cont (s ! i)) [0..<n - 1];
                 start = (if starts = [] then n - 5 else last starts);
                 (r, sz) = DecodeRune (drop start s)
             in if start + sz = n then (r, sz) else (RuneError, 1))"

lemma DecodeLastRune_size:
  assumes D: "DecodeLastRune s = (r, sz)" and s: "s \<noteq> []"
  shows "length s - sz < length s"
proof -
  define starts where "starts = filter (\<lambda>i. length s - 4 \<le> i \<and> \<not> cont (s ! i)) [0..<length s - 1]"
  define start where "start = (if starts = [] then length s - 5 else last starts)"
  have "\<forall>i \<in> set starts. i < length s" by (auto simp: starts_def)
  then have "starts \<noteq> [] \<Longrightarrow> last starts < length s" using last_in_set by blast
  then have "start < length s" using s by (auto simp: start_def)
  moreover have "sz = 1 \<or> start + sz = length s"
    using D s unfolding DecodeLastRune_def Let_def starts_def [symmetric] start_def [symmetric]
    by (auto split: prod.splits if_splits)
  ultimately show ?thesis using s by auto
qed

function TrimLeftSpace :: "bytes \<Rightarrow> bytes" where
  "TrimLeftSpace s = (if s = [] then []
     else case DecodeRune s of (r, wid) \<Rightarrow> if rune_IsSpace r then TrimLeftSpace (drop wid s) else s)"
  by pat_completeness auto

termination TrimLeftSpace
  by (relation "measure length") (auto dest: DecodeRune_width [OF sym])

function TrimRightSpace :: "bytes \<Rightarrow> bytes" where
  "TrimRightSpace s = (if s = [] then []
     else case DecodeLastRune s of (r, sz) \<Rightarrow>
       let i = length s - sz in
       if rune_IsSpace r then TrimRightSpace (take i s)
       else take (if 0x80 \<le> s ! i then i + snd (DecodeRune (drop i s)) else i + 1) s)"
  by pat_completeness auto

termination TrimRightSpace
  by (relation "measure length") (auto dest: DecodeLastRune_size [OF sym])

declare TrimLeftSpace.simps [simp del] TrimRightSpace.simps [simp del]

definition TrimSpace :: "bytes \<Rightarrow> bytes" where
  "TrimSpace s =
     (let l = dropWhile ascii_space s in
      if l \<noteq> [] \<and> 0x80 \<le> hd l then TrimRightSpace (TrimLeftSpace l)
      else let r = rev (dropWhile ascii_space (rev l)) in
        if r \<noteq> [] \<and> 0x80 \<le> last r then TrimRightSpace (TrimLeftSpace r) else r)"

subsection \<open>Host headers\<close>

definition parseHostHeader :: "(nat \<Rightarrow> nat) \<Rightarrow> bytes \<Rightarrow> string option" where
  "parseHostHeader lower data = (case bytes_Index (bytes_ToLower lower data) needle of
     None \<Rightarrow> Some []
   | Some idx \<Rightarrow> do {
       rest \<leftarrow> slice (idx + length needle) (length data) data;
       case (case bytes_IndexByte rest 13 of Some e \<Rightarrow> Some e | None \<Rightarrow> bytes_IndexByte rest 10) of
         None \<Rightarrow> Some (string_of (TrimSpace rest))
       | Some e \<Rightarrow> map_option (\<lambda>l. string_of (TrimSpace l)) (slice 0 e rest)
     })"

definition conn_size :: "conn \<Rightarrow> nat" where
  "conn_size c = length c + length (concat (map fst c))"

lemma conn_Read_size: "conn_Read n c = (b, False, c') \<Longrightarrow> 0 < n \<Longrightarrow> conn_size c' < conn_size c"
  by (cases "(n, c)" rule: conn_Read.cases) (auto simp: conn_size_def split: if_splits)

text \<open>The reading loop: the buffer, the error of the last read, and the connection.\<close>

function http_loop :: "bytes \<Rightarrow> conn \<Rightarrow> bytes \<times> bool \<times> conn" where
  "http_loop buf c =
     (if length buf < httpMaxHeaderBuf
      then case conn_Read httpReadBufSize c of (tmp, err, c') \<Rightarrow>
        if err then (buf @ tmp, True, c')
        else if bytes_Index (buf @ tmp) (crlf @ crlf) \<noteq> None then (buf @ tmp, False, c')
        else http_loop (buf @ tmp) c'
      else (buf, False, c))"
  by pat_completeness auto

termination http_loop
  by (relation "measure (conn_size \<circ> snd)") (auto intro: conn_Read_size [OF sym] simp: httpReadBufSize_def)

declare http_loop.simps [simp del]

definition extractHTTPHost :: "(nat \<Rightarrow> nat) \<Rightarrow> conn \<Rightarrow> u8 \<Rightarrow> (extracted \<times> conn) option" where
  "extractHTTPHost lower c firstByte = (case http_loop [firstByte] c of (peeked, err, c) \<Rightarrow> do {
     host \<leftarrow> parseHostHeader lower peeked;
     Some ((host, peeked, if host \<noteq> [] then False else err), c)
   })"

subsection \<open>Targets\<close>

fun IndexByteString :: "string \<Rightarrow> char \<Rightarrow> nat option" where
  "IndexByteString [] b = None"
| "IndexByteString (x # s) b = (if x = b then Some 0 else map_option Suc (IndexByteString s b))"

definition LastIndexByteString :: "string \<Rightarrow> char \<Rightarrow> nat option" where
  "LastIndexByteString s b = map_option (\<lambda>i. length s - 1 - i) (IndexByteString (rev s) b)"

definition SplitHostPort :: "string \<Rightarrow> (string \<times> string) option" where
  "SplitHostPort hostport = (case LastIndexByteString hostport CHR '':'' of
     None \<Rightarrow> None
   | Some i \<Rightarrow>
       (case (if hostport ! 0 = CHR ''['' then
                (case IndexByteString hostport CHR '']'' of
                   None \<Rightarrow> None
                 | Some e \<Rightarrow> if e + 1 = length hostport then None
                             else if e + 1 = i then Some (take (e - 1) (drop 1 hostport), 1, e + 1) else None)
              else if IndexByteString (take i hostport) CHR '':'' \<noteq> None then None
              else Some (take i hostport, 0, 0)) of
          None \<Rightarrow> None
        | Some (host, j, k) \<Rightarrow>
            if IndexByteString (drop j hostport) CHR ''['' \<noteq> None then None
            else if IndexByteString (drop k hostport) CHR '']'' \<noteq> None then None
            else Some (host, drop (i + 1) hostport)))"

definition JoinHostPort :: "string \<Rightarrow> string \<Rightarrow> string" where
  "JoinHostPort host port =
     (if IndexByteString host CHR '':'' \<noteq> None then ''['' @ host @ '']:'' @ port else host @ '':'' @ port)"

definition proxy_target :: "string \<Rightarrow> string \<Rightarrow> string" where
  "proxy_target host upstreamPort =
     (if SplitHostPort host = None then JoinHostPort host upstreamPort else host)"

subsection \<open>The handler\<close>

text \<open>
  How the handler ends, or what the copy loops start with: the target, the bytes already sent to it
  and the connection. \<open>dial\<close> and \<open>write\<close> say whether dialling and the first write succeed.
\<close>

datatype proxy_result =
    Proxy_Closed
  | Proxy_Panic
  | Dial_Failed string
  | Write_Failed string
  | Piped string bytes conn

definition handle ::
  "(nat \<Rightarrow> nat) \<Rightarrow> (string \<Rightarrow> bool) \<Rightarrow> (bytes \<Rightarrow> bool) \<Rightarrow> conn \<Rightarrow> proxy_result" where
  "handle lower dial write c = (case ReadFull 1 c of
     (None, c) \<Rightarrow> Proxy_Closed
   | (Some first, c) \<Rightarrow>
       (let (extracted, upstreamPort) =
          (if first ! 0 = tlsRecordHandshake then (extractSNI c (first ! 0), httpsPort)
           else (extractHTTPHost lower c (first ! 0), httpPort))
        in case extracted of
          None \<Rightarrow> Proxy_Panic
        | Some ((host, peeked, err), c) \<Rightarrow>
            if err \<or> host = [] then Proxy_Closed
            else let target = proxy_target host upstreamPort in
              if \<not> dial target then Dial_Failed target
              else if 0 < length peeked \<and> \<not> write peeked then Write_Failed target
              else Piped target peeked c))"

subsection \<open>Reading\<close>

lemma slice_Some: "lo \<le> hi \<Longrightarrow> hi \<le> length s \<Longrightarrow> slice lo hi s = Some (read_at lo (hi - lo) s)"
  by (simp add: slice_def)

lemma slice_mid:
  "lo = length a \<Longrightarrow> hi = length a + length b \<Longrightarrow> slice lo hi (a @ b @ c) = Some b"
  by (simp add: slice_def read_at_def)

lemma index_mid: "i = length a \<Longrightarrow> index i (a @ b # c) = Some b"
  by (simp add: index_def)

lemma slice_length: "slice lo hi s = Some b \<Longrightarrow> length b = hi - lo"
  by (auto simp: slice_def read_at_def split: if_splits)

lemma index_ex: "i < length s \<Longrightarrow> \<exists>b. index i s = Some b"
  by (simp add: index_def)

lemma ReadFull_spec: "ReadFull n c = (Some b, c') \<Longrightarrow> length b = n \<and> conn_bytes c = b @ conn_bytes c'"
proof (induction c arbitrary: n b c')
  case (Cons x c)
  obtain b0 err where x: "x = (b0, err)" by fastforce
  obtain r c1 where R: "ReadFull (n - length b0) c = (r, c1)" by fastforce
  consider "n = 0" | "0 < n" "n < length b0" | "0 < n" "length b0 = n" | "length b0 < n" by linarith
  then show ?case
  proof cases
    case 4
    then obtain b1 where "\<not> err" "r = Some b1" "b = b0 @ b1" "c' = c1"
      using Cons.prems R by (auto simp: x split: if_splits)
    with Cons.IH [of "n - length b0" b1 c1] R 4 show ?thesis by (simp add: x)
  qed (use Cons.prems in \<open>auto simp: x split: if_splits\<close>)
qed (simp split: if_splits)

lemma conn_Read_spec: "conn_Read n c = (b, err, c') \<Longrightarrow> conn_bytes c = b @ conn_bytes c'"
  by (cases "(n, c)" rule: conn_Read.cases) (auto split: if_splits)

lemma http_loop_spec: "http_loop buf c = (p, err, c') \<Longrightarrow> p @ conn_bytes c' = buf @ conn_bytes c"
proof (induction buf c arbitrary: p err c' rule: http_loop.induct)
  case (1 buf c)
  obtain tmp e c1 where r: "conn_Read httpReadBufSize c = (tmp, e, c1)" by (metis prod_cases3)
  show ?case
    using 1(2) 1(1) [OF _ r [symmetric] refl] r conn_Read_spec [OF r]
    by (auto simp: http_loop.simps [of buf c] split: if_splits)
qed

subsection \<open>The SNI parser never panics\<close>

lemma sni_loop_total: "end' \<le> length hello \<Longrightarrow> \<exists>n. sni_loop hello end' pos = Some n"
proof (induction hello end' pos rule: sni_loop.induct)
  case (1 hello end' pos)
  show ?case
  proof (cases "pos + 4 \<le> end'")
    case True
    obtain t l where s: "slice pos (pos + 2) hello = Some t" "slice (pos + 2) (pos + 4) hello = Some l"
      using True 1(3) by (simp add: slice_Some)
    note IH = 1(1,2) [unfolded proxy_consts, OF True s refl refl refl]
    show ?thesis
    proof (cases "end' < pos + 4 + from_be l")
      case False
      obtain ext where e: "slice (pos + 4) (pos + 4 + from_be l) hello = Some ext"
        using False 1(3) by (simp add: slice_Some)
      have "length ext = from_be l" using slice_length [OF e] by simp
      then show ?thesis
        using True s e False IH 1(3)
        by (subst sni_loop.simps) (auto simp: proxy_consts slice_Some Let_def)
    qed (use True s in \<open>subst sni_loop.simps, simp add: proxy_consts Let_def\<close>)
  qed (subst sni_loop.simps, simp add: proxy_consts)
qed

lemma parseSNI_total: "\<exists>n. parseSNI hello = Some n"
  by (auto simp: parseSNI_def Let_def proxy_consts slice_Some index_def not_less intro!: sni_loop_total)

lemma extractSNI_total: "\<exists>r. extractSNI c b = Some r"
proof -
  have "slice 2 4 hdr = Some (read_at 2 2 hdr)" if "ReadFull 4 c = (Some hdr, c')" for hdr c'
    using ReadFull_spec [OF that] by (simp add: slice_Some)
  moreover obtain P where "parseSNI h = Some (P h)" for h using parseSNI_total by metis
  ultimately show ?thesis
    by (auto simp: extractSNI_def proxy_consts slice_Some index_def Let_def not_less split: prod.splits option.splits)
qed

subsection \<open>The SNI parser finds the name\<close>

text \<open>A ClientHello body as RFC 8446 and RFC 6066 lay it out: version and random, session id, cipher
  suites, compression methods, extensions.\<close>

definition ext_bytes :: "nat \<times> bytes \<Rightarrow> bytes" where
  "ext_bytes e = to_be 2 (fst e) @ to_be 2 (length (snd e)) @ snd e"

definition sni_data :: "string \<Rightarrow> bytes" where
  "sni_data name = (to_be 2 (length name + 3) @ [0]) @ to_be 2 (length name) @ bytes_of name"

definition client_hello :: "bytes \<Rightarrow> bytes \<Rightarrow> bytes \<Rightarrow> bytes \<Rightarrow> (nat \<times> bytes) list \<Rightarrow> bytes" where
  "client_hello rand sess ciphers compr exts =
     (let E = concat (map ext_bytes exts) in
      rand @ word_of_nat (length sess) # sess @ to_be 2 (length ciphers) @ ciphers @
      word_of_nat (length compr) # compr @ to_be 2 (length E) @ E)"

lemma from_be_to_be_2: "n < 65536 \<Longrightarrow> from_be (to_be 2 n) = n"
  by (simp add: from_be_to_be)

lemma unat_byte: "n < 256 \<Longrightarrow> unat (word_of_nat n :: u8) = n"
  by (simp add: unat_of_nat)

lemma length_ext_bytes [simp]: "length (ext_bytes (t, d)) = 4 + length d"
  by (simp add: ext_bytes_def)

lemma ext_slices:
  assumes "hello = a @ ext_bytes (t, d) @ z"
  shows "slice (length a) (length a + 2) hello = Some (to_be 2 t)"
    "slice (length a + 2) (length a + 4) hello = Some (to_be 2 (length d))"
    "slice (length a + 4) (length a + 4 + length d) hello = Some d"
  using slice_mid [of "length a" a "length a + 2" "to_be 2 t" "to_be 2 (length d) @ d @ z"]
    slice_mid [of "length a + 2" "a @ to_be 2 t" "length a + 4" "to_be 2 (length d)" "d @ z"]
    slice_mid [of "length a + 4" "a @ to_be 2 t @ to_be 2 (length d)" "length a + 4 + length d" d z]
  by (simp_all add: assms ext_bytes_def)

lemma sni_loop_skip:
  assumes h: "hello = a @ ext_bytes (t, d) @ z" and "t \<noteq> 0" "t < 65536" "length d < 65536"
    and "length a + 4 + length d \<le> end'"
  shows "sni_loop hello end' (length a) = sni_loop hello end' (length (a @ ext_bytes (t, d)))"
  using assms(2-) ext_slices [OF h]
  by (subst sni_loop.simps) (simp add: proxy_consts Let_def from_be_to_be_2 add.assoc [symmetric])

lemma sni_loop_hit:
  assumes h: "hello = a @ ext_bytes (0, sni_data name) @ z" and l: "length (sni_data name) < 65536"
    and e: "length a + 4 + length (sni_data name) \<le> end'"
  shows "sni_loop hello end' (length a) = Some name"
proof -
  have "slice 3 5 (sni_data name) = Some (to_be 2 (length name))"
    "slice 5 (5 + length name) (sni_data name) = Some (bytes_of name)"
    using slice_mid [of 3 "to_be 2 (length name + 3) @ [0]" 5 "to_be 2 (length name)" "bytes_of name"]
      slice_mid [of 5 "to_be 2 (length name + 3) @ [0] @ to_be 2 (length name)" "5 + length name" "bytes_of name" "[]"]
    by (simp_all add: sni_data_def)
  moreover have "length name < 65536" "length (sni_data name) = 5 + length name" using l by (simp_all add: sni_data_def)
  ultimately show ?thesis
    using e ext_slices [OF h] l
    by (subst sni_loop.simps) (simp add: proxy_consts Let_def from_be_to_be_2 string_of_bytes_of from_be_to_be)
qed

lemma sni_loop_finds:
  assumes "\<forall>(t, d) \<in> set pre. t \<noteq> 0 \<and> t < 65536 \<and> length d < 65536"
    and "length (sni_data name) < 65536"
    and "hello = a @ concat (map ext_bytes (pre @ (0, sni_data name) # post))"
  shows "sni_loop hello (length hello) (length a) = Some name"
  using assms(1,3)
proof (induction pre arbitrary: a)
  case Nil
  then show ?case using sni_loop_hit [of hello a name "concat (map ext_bytes post)"] assms(2) by simp
next
  case (Cons e pre)
  obtain t d where e: "e = (t, d)" by fastforce
  have h: "hello = a @ ext_bytes (t, d) @ concat (map ext_bytes (pre @ (0, sni_data name) # post))"
    using Cons.prems(2) by (simp add: e)
  have "sni_loop hello (length hello) (length a) = sni_loop hello (length hello) (length (a @ ext_bytes (t, d)))"
    using Cons.prems(1) by (intro sni_loop_skip [OF h]) (auto simp: e h)
  also have "\<dots> = Some name" using Cons.prems(1) by (intro Cons.IH) (simp_all add: h)
  finally show ?case .
qed

subsection \<open>Host headers and targets\<close>

lemma bytes_Index_bound: "bytes_Index s sep = Some i \<Longrightarrow> i + length sep \<le> length s"
proof (induction s sep arbitrary: i rule: bytes_Index.induct)
  case (2 x s sep)
  have "length sep \<le> length (x # s)" if "take (length sep) (x # s) = sep"
    using arg_cong [OF that, of length] by simp
  with 2 show ?case by (fastforce split: if_splits)
qed (auto split: if_splits)

lemma bytes_IndexByte_bound: "bytes_IndexByte s b = Some i \<Longrightarrow> i < length s"
  by (induction s b arbitrary: i rule: bytes_IndexByte.induct) (auto split: if_splits)

text \<open>An ASCII request never makes the header parser panic, since lowering keeps its length.\<close>

lemma parseHostHeader_ascii_total:
  assumes "list_all (\<lambda>c. c < 0x80) data"
  shows "\<exists>h. parseHostHeader lower data = Some h"
proof (cases "bytes_Index (bytes_ToLower lower data) needle")
  case (Some idx)
  then have "idx + length needle \<le> length data"
    using bytes_Index_bound [OF Some] assms by (simp add: bytes_ToLower_def)
  then show ?thesis
    by (auto simp: parseHostHeader_def Some slice_Some less_imp_le dest!: bytes_IndexByte_bound
        split: option.split)
qed (simp add: parseHostHeader_def)

text \<open>A host without colon gets the default port, a host with port is used as it is.\<close>

lemma IndexByteString_None [simp]: "IndexByteString s b = None \<longleftrightarrow> b \<notin> set s"
  by (induction s) auto

lemma IndexByteString_notin: "b \<notin> set s \<Longrightarrow> IndexByteString s b = None"
  by simp

lemma proxy_target_plain: "CHR '':'' \<notin> set host \<Longrightarrow> proxy_target host port = host @ '':'' @ port"
  by (simp add: proxy_target_def SplitHostPort_def LastIndexByteString_def JoinHostPort_def IndexByteString_notin)

lemma IndexByteString_append_in: "b \<notin> set s \<Longrightarrow> IndexByteString (s @ b # t) b = Some (length s)"
  by (induction s) auto

lemma proxy_target_port:
  assumes "set host \<inter> {CHR '':'', CHR ''['', CHR '']''} = {}" "set port \<inter> {CHR '':'', CHR ''['', CHR '']''} = {}" "host \<noteq> []"
  shows "proxy_target (host @ '':'' @ port) p = host @ '':'' @ port"
proof -
  have "IndexByteString (rev port @ CHR '':'' # rev host) CHR '':'' = Some (length port)"
    using assms(2) IndexByteString_append_in [of "CHR '':''" "rev port" "rev host"] by auto
  then have l: "LastIndexByteString (host @ CHR '':'' # port) CHR '':'' = Some (length host)"
    by (simp add: LastIndexByteString_def)
  have "(host @ '':'' @ port) ! 0 \<noteq> CHR ''[''" using assms(1,3) by (cases host) auto
  then show ?thesis
    using assms(1,2) l by (auto simp: proxy_target_def SplitHostPort_def)
qed

text \<open>A bracketed IPv6 host without port is bracketed once more.\<close>

lemma proxy_target_ipv6: "proxy_target ''[::1]'' ''80'' = ''[[::1]]:80''"
  by (simp add: proxy_target_def SplitHostPort_def LastIndexByteString_def JoinHostPort_def)

lemma extractSNI_stream:
  "extractSNI c b = Some ((host, peeked, False), c') \<Longrightarrow> peeked @ conn_bytes c' = b # conn_bytes c"
  by (auto simp: extractSNI_def Let_def split: prod.splits option.splits if_splits bind_splits dest!: ReadFull_spec)

lemma extractHTTPHost_stream:
  "extractHTTPHost lower c b = Some ((host, peeked, err), c') \<Longrightarrow> peeked @ conn_bytes c' = b # conn_bytes c"
  by (auto simp: extractHTTPHost_def split: prod.splits bind_splits dest!: http_loop_spec)

lemma handle_first:
  assumes "ReadFull 1 c = (Some first, c1)"
  shows "\<exists>b. first = [b] \<and> conn_bytes c = b # conn_bytes c1"
  using ReadFull_spec [OF assms] by (auto simp: length_Suc_conv)

lemma handle_piped:
  assumes "handle lower dial write c = Piped target peeked c'"
  shows "dial target \<and> peeked @ conn_bytes c' = conn_bytes c"
proof -
  obtain first c1 where f: "ReadFull 1 c = (Some first, c1)"
    using assms by (auto simp: handle_def split: prod.splits option.splits)
  from handle_first [OF f] obtain b where b: "first = [b]" "conn_bytes c = b # conn_bytes c1" by blast
  show ?thesis
  proof (cases "b = tlsRecordHandshake")
    case True
    then show ?thesis using assms f b extractSNI_stream [of c1 b]
      by (auto simp: handle_def Let_def split: option.splits if_splits)
  next
    case False
    then show ?thesis using assms f b extractHTTPHost_stream [of lower c1 b]
      by (auto simp: handle_def Let_def split: option.splits if_splits)
  qed
qed

lemma handle_tls_no_panic:
  assumes "hd (conn_bytes c) = tlsRecordHandshake"
  shows "handle lower dial write c \<noteq> Proxy_Panic"
proof -
  obtain first c1 where f: "ReadFull 1 c = (first, c1)" by fastforce
  show ?thesis
  proof (cases first)
    case (Some bs)
    from handle_first [OF f [unfolded Some]] obtain b where "bs = [b]" "conn_bytes c = b # conn_bytes c1" by blast
    then show ?thesis
      using assms f Some extractSNI_total [of c1 b] by (auto simp: handle_def Let_def split: if_splits)
  qed (use f in \<open>simp add: handle_def\<close>)
qed

text \<open>A request in four reads.\<close>

definition example_request :: conn where
  "example_request = [(bytes_of ''GET / HTTP/1.1'', False), ([13, 10] @ bytes_of ''Host: a.b'' @ [13, 10], False),
     ([13, 10, 0x78], False), ([0x79], True)]"

lemma example_request_handled:
  "handle id (\<lambda>t. True) (\<lambda>b. True) example_request =
     Piped ''a.b:80'' (bytes_of ''GET / HTTP/1.1'' @ [13, 10] @ bytes_of ''Host: a.b'' @ [13, 10, 13, 10, 0x78]) [([0x79], True)]"
  by code_simp

subsection \<open>Properties of the test proxy\<close>

text \<open>
  C25. A ClientHello whose extensions contain a server name is answered with that name, whatever the
  session id, cipher suites, compression methods and other extensions around it, as long as each
  fits its length field.
\<close>

theorem parse_sni_finds_name:
  assumes "length rand = 34" and "length sess < 256" and "length ciphers < 65536" and "length compr < 256"
    and x: "exts = pre @ (0, sni_data name) # post" and fit: "length (concat (map ext_bytes exts)) < 65536"
    and other: "\<forall>(t, d) \<in> set pre. t \<noteq> 0 \<and> t < 65536"
  shows "parseSNI (client_hello rand sess ciphers compr exts) = Some name"
proof -
  let ?E = "concat (map ext_bytes exts)"
  let ?h = "client_hello rand sess ciphers compr exts"
  let ?a1 = "rand @ word_of_nat (length sess) # sess"
  let ?a2 = "?a1 @ to_be 2 (length ciphers) @ ciphers"
  let ?a3 = "?a2 @ word_of_nat (length compr) # compr"
  have l: "length d < 65536" if "(t, d) \<in> set exts" for t d
  proof -
    have "length (ext_bytes (t, d)) \<le> length ?E"
      using that by (induction exts) fastforce+
    then show ?thesis using fit by simp
  qed
  have h: "?h = rand @ word_of_nat (length sess) # (sess @ to_be 2 (length ciphers) @ ciphers @ word_of_nat (length compr) # compr @ to_be 2 (length ?E) @ ?E)"
    "?h = ?a1 @ to_be 2 (length ciphers) @ (ciphers @ word_of_nat (length compr) # compr @ to_be 2 (length ?E) @ ?E)"
    "?h = ?a2 @ word_of_nat (length compr) # (compr @ to_be 2 (length ?E) @ ?E)"
    "?h = ?a3 @ to_be 2 (length ?E) @ ?E" "?h = (?a3 @ to_be 2 (length ?E)) @ ?E"
    by (simp_all add: client_hello_def Let_def)
  have n: "length ?h = length ?a3 + 2 + length ?E" by (simp add: h(4))
  have loop: "sni_loop ?h (length ?h) (length ?a3 + 2) = Some name"
    using sni_loop_finds [of pre name ?h "?a3 @ to_be 2 (length ?E)" post] other l x h(5) by fastforce
  have s1: "index 34 ?h = Some (word_of_nat (length sess))"
    unfolding h(1) using assms(1) by (intro index_mid) simp
  have s2: "slice (length ?a1) (length ?a1 + 2) ?h = Some (to_be 2 (length ciphers))"
    unfolding h(2) by (intro slice_mid) simp_all
  have s3: "index (length ?a2) ?h = Some (word_of_nat (length compr))"
    unfolding h(3) by (intro index_mid) simp
  have s4: "slice (length ?a3) (length ?a3 + 2) ?h = Some (to_be 2 (length ?E))"
    unfolding h(4) by (intro slice_mid) simp_all
  from s1 s2 s3 s4 show ?thesis
    using assms(1-4) fit loop n
    by (simp add: parseSNI_def proxy_consts Let_def unat_byte from_be_to_be_2 add.assoc)
qed

theorem parse_sni_finds_name_witness:
  "parseSNI (client_hello (replicate 34 7) [1, 2] [0x13, 0x01] [0]
     [(10, [0, 1]), (0, sni_data ''api.openai.com''), (16, [])]) = Some ''api.openai.com''"
  using parse_sni_finds_name [of "replicate 34 7" "[1, 2]" "[0x13, 0x01]" "[0]"
      "[(10, [0, 1]), (0, sni_data ''api.openai.com''), (16, [])]" "[(10, [0, 1])]" "''api.openai.com''" "[(16, [])]"]
  by (simp add: sni_data_def)

text \<open>
  C26. The proxy is transparent: when it starts to copy, it has dialled the target and sent there exactly the
  bytes it read, so that these and what the connection still delivers are what the client sent. A
  connection that begins like a TLS handshake never makes it panic.
\<close>

theorem proxy_forwards_stream:
  "(handle lower dial write c = Piped target peeked c' \<longrightarrow> dial target \<and> peeked @ conn_bytes c' = conn_bytes c) \<and>
   (hd (conn_bytes c) = tlsRecordHandshake \<longrightarrow> handle lower dial write c \<noteq> Proxy_Panic)"
  using handle_piped handle_tls_no_panic by blast

theorem proxy_forwards_stream_witness:
  "\<exists>target peeked c'. handle id (\<lambda>t. True) (\<lambda>b. True) example_request = Piped target peeked c' \<and>
     peeked @ conn_bytes c' = conn_bytes example_request \<and> length peeked < length (conn_bytes example_request) \<and>
     handle id (\<lambda>t. True) (\<lambda>b. True) [([tlsRecordHandshake, 3], True)] \<noteq> Proxy_Panic"
proof -
  let ?p = "bytes_of ''GET / HTTP/1.1'' @ [13, 10] @ bytes_of ''Host: a.b'' @ [13, 10, 13, 10, 0x78]"
  have "?p @ conn_bytes [([0x79], True)] = conn_bytes example_request"
    using proxy_forwards_stream [of id "\<lambda>t. True" "\<lambda>b. True" example_request "''a.b:80''" ?p "[([0x79], True)]"]
      example_request_handled by blast
  moreover have "handle id (\<lambda>t. True) (\<lambda>b. True) [([tlsRecordHandshake, 3], True)] \<noteq> Proxy_Panic"
    using proxy_forwards_stream [of id "\<lambda>t. True" "\<lambda>b. True" "[([tlsRecordHandshake, 3], True)]"] by simp
  ultimately show ?thesis
    using example_request_handled by (intro exI [of _ "''a.b:80''"] exI [of _ ?p] exI [of _ "[([0x79], True)]"])
      (simp add: example_request_def)
qed

text \<open>
  C36. A request with bytes outside ASCII can make the proxy panic: lowering replaces an invalid byte by the
  three bytes of U+FFFD, so the offset found in the lowered copy may lie behind the end of the
  original. An ASCII request never does.
\<close>

theorem host_header_panics_outside_ascii:
  assumes "lower RuneError = RuneError"
  shows "parseHostHeader lower (bytes_of ''x'' @ [0xFF] @ needle @ bytes_of ''a'') = None \<and>
    (\<forall>data. list_all (\<lambda>c. c < 0x80) data \<longrightarrow> parseHostHeader lower data \<noteq> None)"
proof -
  have "bytes_ToLower lower (bytes_of ''x'' @ [0xFF] @ needle @ bytes_of ''a'') =
    bytes_of ''x'' @ [0xEF, 0xBF, 0xBD] @ needle @ bytes_of ''a''"
    using assms
    by (simp add: bytes_ToLower_def needle_def crlf_def bytes_of_def of_char_def bytes_Map.simps DecodeRune_def rune_ToLower_def
        RuneError_def EncodeRune_def Let_def)
  then show ?thesis
    using parseHostHeader_ascii_total [of _ lower]
    by (fastforce simp: parseHostHeader_def needle_def crlf_def bytes_of_def slice_def)
qed

theorem host_header_panics_outside_ascii_witness:
  "parseHostHeader id (bytes_of ''x'' @ [0xFF] @ needle @ bytes_of ''a'') = None"
  using host_header_panics_outside_ascii [of id] by simp

end
